(* ===== verification/Prelude.thy ===== *)
theory Prelude
  imports Main "HOL-Library.Word" "HOL-Library.AList"
begin

text \<open>
  The shared base of the development: machine integers and their casts, the result type of a
  Rust computation (a value, an error, or a panic), the state-passing computations the database
  code is written in, a small Hoare calculus for them, decimal printing and parsing of unsigned
  integers, and generic lemmas on lists and association lists.

  Integers. Unsigned integers are words. Signed integers of the database columns are
  mathematical integers (SQLite INTEGER values); \<open>as_i64\<close> and \<open>as_u64\<close> are Rust's \<open>as\<close> casts
  between the two, which keep the bits. The release profile of the crate switches overflow
  checks off (Cargo.toml, \<open>overflow-checks = false\<close>), so plain \<open>+\<close> and \<open>sum\<close> on words wrap.
\<close>

section \<open>Machine integers\<close>

type_synonym u8 = "8 word"
type_synonym u64 = "64 word"
type_synonym u128 = "128 word"
type_synonym i32 = int
type_synonym i64 = int
type_synonym bytes = "u8 list"

definition as_i64 :: "u64 \<Rightarrow> i64" where
  "as_i64 w = sint w"

definition as_u64 :: "i64 \<Rightarrow> u64" where
  "as_u64 i = word_of_int i"

definition u64_as_u128 :: "u64 \<Rightarrow> u128" where
  "u64_as_u128 w = ucast w"

text \<open>Rust's \<open>u64::checked_add\<close> and \<open>u64::try_from(u128)\<close>.\<close>

definition checked_add :: "u64 \<Rightarrow> u64 \<Rightarrow> u64 option" where
  "checked_add a b = (if unat a + unat b < 2 ^ 64 then Some (a + b) else None)"

definition u64_try_from :: "u128 \<Rightarrow> u64 option" where
  "u64_try_from v = (if unat v < 2 ^ 64 then Some (ucast v) else None)"

section \<open>Results and computations\<close>

datatype ('e, 'a) res = Ok 'a | Err 'e | Panic string

type_synonym ('s, 'e, 'a) comp = "'s \<Rightarrow> ('e, 'a) res \<times> 's"

definition ret :: "'a \<Rightarrow> ('s, 'e, 'a) comp" where
  "ret x = (\<lambda>s. (Ok x, s))"

definition throw :: "'e \<Rightarrow> ('s, 'e, 'a) comp" where
  "throw e = (\<lambda>s. (Err e, s))"

definition lift_res :: "('e, 'a) res \<Rightarrow> ('s, 'e, 'a) comp" where
  "lift_res r = (\<lambda>s. (r, s))"

definition bnd :: "('s, 'e, 'a) comp \<Rightarrow> ('a \<Rightarrow> ('s, 'e, 'b) comp) \<Rightarrow> ('s, 'e, 'b) comp" where
  "bnd m f = (\<lambda>s. case m s of
      (Ok x, s') \<Rightarrow> f x s'
    | (Err e, s') \<Rightarrow> (Err e, s')
    | (Panic p, s') \<Rightarrow> (Panic p, s'))"

text \<open>\<open>attempt m\<close> hands an error to the code that follows, as \<open>match m { Ok(..) .. Err(..) .. }\<close>
  does; a panic still propagates.\<close>

definition attempt :: "('s, 'e, 'a) comp \<Rightarrow> ('s, 'e, 'e + 'a) comp" where
  "attempt m = (\<lambda>s. case m s of
      (Ok x, s') \<Rightarrow> (Ok (Inr x), s')
    | (Err e, s') \<Rightarrow> (Ok (Inl e), s')
    | (Panic p, s') \<Rightarrow> (Panic p, s'))"

text \<open>\<open>expect p m\<close> is \<open>.expect(p)\<close> on a fallible call.\<close>

definition expect :: "string \<Rightarrow> ('s, 'e, 'a) comp \<Rightarrow> ('s, 'e, 'a) comp" where
  "expect p m = (\<lambda>s. case m s of
      (Ok x, s') \<Rightarrow> (Ok x, s')
    | (Err e, s') \<Rightarrow> (Panic p, s')
    | (Panic q, s') \<Rightarrow> (Panic q, s'))"

definition ok_or :: "'e \<Rightarrow> 'a option \<Rightarrow> ('s, 'e, 'a) comp" where
  "ok_or e x = (case x of None \<Rightarrow> throw e | Some y \<Rightarrow> ret y)"

definition expect_some :: "string \<Rightarrow> 'a option \<Rightarrow> ('s, 'e, 'a) comp" where
  "expect_some p x = (case x of None \<Rightarrow> lift_res (Panic p) | Some y \<Rightarrow> ret y)"

text \<open>Pure fallible code: the same constructs on results alone.\<close>

definition rbind :: "('e, 'a) res \<Rightarrow> ('a \<Rightarrow> ('e, 'b) res) \<Rightarrow> ('e, 'b) res" where
  "rbind r f = (case r of Ok x \<Rightarrow> f x | Err e \<Rightarrow> Err e | Panic p \<Rightarrow> Panic p)"

definition map_err :: "('e \<Rightarrow> 'f) \<Rightarrow> ('e, 'a) res \<Rightarrow> ('f, 'a) res" where
  "map_err f r = (case r of Ok x \<Rightarrow> Ok x | Err e \<Rightarrow> Err (f e) | Panic p \<Rightarrow> Panic p)"

definition res_ok_or :: "'e \<Rightarrow> 'a option \<Rightarrow> ('e, 'a) res" where
  "res_ok_or e x = (case x of None \<Rightarrow> Err e | Some y \<Rightarrow> Ok y)"

definition res_unwrap :: "string \<Rightarrow> 'a option \<Rightarrow> ('e, 'a) res" where
  "res_unwrap p x = (case x of None \<Rightarrow> Panic p | Some y \<Rightarrow> Ok y)"

text \<open>\<open>res_ok\<close> is \<open>Result::ok\<close>. A panic has no value either.\<close>

definition res_ok :: "('e, 'a) res \<Rightarrow> 'a option" where
  "res_ok r = (case r of Ok x \<Rightarrow> Some x | _ \<Rightarrow> None)"

text \<open>Loops over a list: \<open>for_each\<close> for the effect, \<open>fold_m\<close> with the variables the loop body
  updates as the accumulator.\<close>

primrec for_each :: "('x \<Rightarrow> ('s, 'e, unit) comp) \<Rightarrow> 'x list \<Rightarrow> ('s, 'e, unit) comp" where
  "for_each f [] = ret ()"
| "for_each f (x # xs) = bnd (f x) (\<lambda>_. for_each f xs)"

primrec fold_m :: "('x \<Rightarrow> 'b \<Rightarrow> ('s, 'e, 'b) comp) \<Rightarrow> 'x list \<Rightarrow> 'b \<Rightarrow> ('s, 'e, 'b) comp" where
  "fold_m f [] b = ret b"
| "fold_m f (x # xs) b = bnd (f x b) (fold_m f xs)"

section \<open>Decimal numbers and characters\<close>

definition digit_char :: "nat \<Rightarrow> char" where
  "digit_char d = char_of (48 + d)"

fun show_nat :: "nat \<Rightarrow> string" where
  "show_nat n = (if n < 10 then [digit_char n] else show_nat (n div 10) @ [digit_char (n mod 10)])"

declare show_nat.simps [simp del]

definition show_u64 :: "u64 \<Rightarrow> string" where
  "show_u64 w = show_nat (unat w)"

definition show_u128 :: "u128 \<Rightarrow> string" where
  "show_u128 w = show_nat (unat w)"

definition show_int :: "int \<Rightarrow> string" where
  "show_int i = (if i < 0 then ''-'' @ show_nat (nat (- i)) else show_nat (nat i))"

definition char_digit :: "char \<Rightarrow> nat option" where
  "char_digit c = (let n = (of_char c :: nat) in if 48 \<le> n \<and> n \<le> 57 then Some (n - 48) else None)"

fun parse_digits :: "nat \<Rightarrow> string \<Rightarrow> nat option" where
  "parse_digits acc [] = Some acc"
| "parse_digits acc (c # cs) =
     (case char_digit c of None \<Rightarrow> None | Some d \<Rightarrow> parse_digits (10 * acc + d) cs)"

text \<open>Rust's \<open>str::parse\<close> at an unsigned type: a non-empty run of digits, optionally after one
  plus sign, whose value fits the type.\<close>

definition parse_u128 :: "string \<Rightarrow> u128 option" where
  "parse_u128 s =
     (let ds = (case s of c # cs \<Rightarrow> if c = CHR ''+'' then cs else s | [] \<Rightarrow> []) in
      if ds = [] then None
      else case parse_digits 0 ds of
          None \<Rightarrow> None
        | Some n \<Rightarrow> if n < 2 ^ 128 then Some (of_nat n) else None)"

definition char_lower :: "char \<Rightarrow> char" where
  "char_lower c = (let n = (of_char c :: nat) in if 65 \<le> n \<and> n \<le> 90 then char_of (n + 32) else c)"

definition to_lowercase :: "string \<Rightarrow> string" where
  "to_lowercase s = map char_lower s"

definition starts_with :: "'a list \<Rightarrow> 'a list \<Rightarrow> bool" where
  "starts_with p xs = (take (length p) xs = p)"

section \<open>Hoare calculus for computations\<close>

text \<open>\<open>valid P m Q E\<close>: from a state in \<open>P\<close>, a normal return is in \<open>Q\<close> of its value and any other
  outcome leaves a state in \<open>E\<close>. \<open>keeps I m\<close>: \<open>m\<close> keeps \<open>I\<close> on every outcome.\<close>

definition valid ::
  "('s \<Rightarrow> bool) \<Rightarrow> ('s, 'e, 'a) comp \<Rightarrow> ('a \<Rightarrow> 's \<Rightarrow> bool) \<Rightarrow> ('s \<Rightarrow> bool) \<Rightarrow> bool" where
  "valid P m Q E \<longleftrightarrow> (\<forall>s r s'. P s \<longrightarrow> m s = (r, s') \<longrightarrow>
     (case r of Ok x \<Rightarrow> Q x s' | _ \<Rightarrow> E s'))"

definition keeps :: "('s \<Rightarrow> bool) \<Rightarrow> ('s, 'e, 'a) comp \<Rightarrow> bool" where
  "keeps I m \<longleftrightarrow> (\<forall>s. I s \<longrightarrow> I (snd (m s)))"

named_theorems keeps_intros "rules that split a goal that a computation keeps an invariant"
named_theorems comp_defs "the computation combinators, for symbolic execution"

declare ret_def [comp_defs] throw_def [comp_defs] lift_res_def [comp_defs]
  ok_or_def [comp_defs] expect_some_def [comp_defs]

subsection \<open>Casts\<close>

lemma as_u64_as_i64 [simp]: "as_u64 (as_i64 w) = w"
  by (simp add: as_u64_def as_i64_def)

lemma as_i64_inj [simp]: "as_i64 a = as_i64 b \<longleftrightarrow> a = b"
  by (metis as_u64_as_i64)

lemma as_i64_as_u64: "- (2 ^ 63) \<le> i \<Longrightarrow> i < 2 ^ 63 \<Longrightarrow> as_i64 (as_u64 i) = i"
  by (simp add: as_i64_def as_u64_def sint_sbintrunc' signed_take_bit_int_eq_self)

lemma as_i64_small:
  assumes "unat w < 2 ^ 63"
  shows "as_i64 w = int (unat w)"
proof -
  have w: "as_u64 (int (unat w)) = w"
    by (simp add: as_u64_def)
  have "int (unat w) < int (2 ^ 63)"
    using assms by (simp only: of_nat_less_iff)
  moreover have "- (2 ^ 63) \<le> int (unat w)"
    by (rule order_trans [of _ 0]) simp_all
  ultimately have "as_i64 (as_u64 (int (unat w))) = int (unat w)"
    by (intro as_i64_as_u64) (simp_all only: of_nat_power of_nat_numeral)
  then show ?thesis by (simp only: w)
qed

lemma checked_add_Some: "checked_add a b = Some c \<longleftrightarrow> unat a + unat b < 2 ^ 64 \<and> c = a + b"
  by (auto simp: checked_add_def)

lemma unat_add_u64: "unat (a :: u64) + unat b < 2 ^ 64 \<Longrightarrow> unat (a + b) = unat a + unat b"
  by (simp add: unat_word_ariths)

lemma unat_checked_add: "checked_add a b = Some c \<Longrightarrow> unat c = unat a + unat b"
  by (auto simp: checked_add_Some intro: unat_add_u64)

lemma checked_add_None: "checked_add a b = None \<longleftrightarrow> 2 ^ 64 \<le> unat a + unat b"
  by (auto simp: checked_add_def)

subsection \<open>Computations\<close>

lemma bnd_Ok [simp]: "m s = (Ok x, s') \<Longrightarrow> bnd m f s = f x s'"
  by (simp add: bnd_def)

lemma bnd_Err [simp]: "m s = (Err e, s') \<Longrightarrow> bnd m f s = (Err e, s')"
  by (simp add: bnd_def)

lemma bnd_Panic [simp]: "m s = (Panic p, s') \<Longrightarrow> bnd m f s = (Panic p, s')"
  by (simp add: bnd_def)

lemma bnd_ret [simp]: "bnd (ret x) f = f x"
  by (rule ext) (simp add: ret_def)

lemma bnd_throw [simp]: "bnd (throw e) f = throw e"
  by (rule ext) (simp add: throw_def)

lemma bnd_assoc: "bnd (bnd m f) g = bnd m (\<lambda>x. bnd (f x) g)"
  by (rule ext) (simp add: bnd_def split: prod.split res.split)

lemma bnd_eq_OkD:
  "bnd m f s = (Ok y, s') \<Longrightarrow> \<exists>x t. m s = (Ok x, t) \<and> f x t = (Ok y, s')"
  by (auto simp: bnd_def split: prod.splits res.splits)

lemma bnd_eq_OkE:
  assumes "bnd m f s = (Ok y, s')"
  obtains x t where "m s = (Ok x, t)" and "f x t = (Ok y, s')"
  using bnd_eq_OkD [OF assms] by blast

lemma bnd_eq_ErrE:
  assumes "bnd m f s = (Err e, s')"
  obtains (first) "m s = (Err e, s')"
    | (second) x t where "m s = (Ok x, t)" and "f x t = (Err e, s')"
  using assms by (auto simp: bnd_def split: prod.splits res.splits)

lemma bnd_eq_PanicE:
  assumes "bnd m f s = (Panic p, s')"
  obtains (first) "m s = (Panic p, s')"
    | (second) x t where "m s = (Ok x, t)" and "f x t = (Panic p, s')"
  using assms by (auto simp: bnd_def split: prod.splits res.splits)

lemma attempt_Ok [simp]: "m s = (Ok x, s') \<Longrightarrow> attempt m s = (Ok (Inr x), s')"
  by (simp add: attempt_def)

lemma attempt_Err [simp]: "m s = (Err e, s') \<Longrightarrow> attempt m s = (Ok (Inl e), s')"
  by (simp add: attempt_def)

lemma attempt_Panic [simp]: "m s = (Panic p, s') \<Longrightarrow> attempt m s = (Panic p, s')"
  by (simp add: attempt_def)

lemma expect_Ok [simp]: "m s = (Ok x, s') \<Longrightarrow> expect p m s = (Ok x, s')"
  by (simp add: expect_def)

lemma expect_Err [simp]: "m s = (Err e, s') \<Longrightarrow> expect p m s = (Panic p, s')"
  by (simp add: expect_def)

lemma expect_Panic [simp]: "m s = (Panic q, s') \<Longrightarrow> expect p m s = (Panic q, s')"
  by (simp add: expect_def)

lemma rbind_simps [simp]:
  "rbind (Ok x) f = f x" "rbind (Err e) f = Err e" "rbind (Panic p) f = Panic p"
  by (simp_all add: rbind_def)

lemma map_err_simps [simp]:
  "map_err f (Ok x) = Ok x" "map_err f (Err e) = Err (f e)" "map_err f (Panic p) = Panic p"
  by (simp_all add: map_err_def)

lemma rbind_eq_Ok: "rbind r f = Ok y \<longleftrightarrow> (\<exists>x. r = Ok x \<and> f x = Ok y)"
  by (cases r) auto

lemma map_err_eq_Ok [simp]: "map_err f r = Ok y \<longleftrightarrow> r = Ok y"
  by (cases r) auto

lemma res_ok_or_eq_Ok [simp]: "res_ok_or e x = Ok y \<longleftrightarrow> x = Some y"
  by (cases x) (auto simp: res_ok_or_def)

lemma res_unwrap_eq_Ok [simp]: "res_unwrap p x = Ok y \<longleftrightarrow> x = Some y"
  by (cases x) (auto simp: res_unwrap_def)

subsection \<open>The invariant rules\<close>

lemma keepsI: "(\<And>s. I s \<Longrightarrow> I (snd (m s))) \<Longrightarrow> keeps I m"
  by (simp add: keeps_def)

lemma keepsD: "keeps I m \<Longrightarrow> I s \<Longrightarrow> m s = (r, s') \<Longrightarrow> I s'"
  unfolding keeps_def by (metis snd_conv)

lemma keeps_ret [keeps_intros]: "keeps I (ret x)"
  by (simp add: keeps_def ret_def)

lemma keeps_throw [keeps_intros]: "keeps I (throw e)"
  by (simp add: keeps_def throw_def)

lemma keeps_lift_res [keeps_intros]: "keeps I (lift_res r)"
  by (simp add: keeps_def lift_res_def)

lemma keeps_ok_or [keeps_intros]: "keeps I (ok_or e x)"
  by (cases x) (simp_all add: ok_or_def keeps_ret keeps_throw)

lemma keeps_expect_some [keeps_intros]: "keeps I (expect_some p x)"
  by (cases x) (simp_all add: expect_some_def keeps_ret keeps_lift_res)

lemma keeps_bnd [keeps_intros]:
  assumes "keeps I m" and "\<And>x. keeps I (f x)"
  shows "keeps I (bnd m f)"
proof (rule keepsI)
  fix s assume "I s"
  obtain r t where m: "m s = (r, t)" by fastforce
  then have t: "I t" using keepsD [OF assms(1) \<open>I s\<close>] by blast
  show "I (snd (bnd m f s))"
    using assms(2) t m by (cases r) (auto simp: keeps_def)
qed

lemma keeps_attempt [keeps_intros]: "keeps I m \<Longrightarrow> keeps I (attempt m)"
  by (auto simp: keeps_def attempt_def split: prod.splits res.splits)

lemma keeps_bnd_lift_res: "(\<And>x. r = Ok x \<Longrightarrow> keeps I (f x)) \<Longrightarrow> keeps I (bnd (lift_res r) f)"
  by (cases r) (simp_all add: keeps_def lift_res_def bnd_def)

lemma keeps_bnd_attempt_lift_res:
  assumes "\<And>x. r = Ok x \<Longrightarrow> keeps I (f (Inr x))" and "\<And>e. r = Err e \<Longrightarrow> keeps I (f (Inl e))"
  shows "keeps I (bnd (attempt (lift_res r)) f)"
  using assms by (cases r) (simp_all add: keeps_def lift_res_def attempt_def bnd_def)

lemma keeps_expect [keeps_intros]: "keeps I m \<Longrightarrow> keeps I (expect p m)"
  by (auto simp: keeps_def expect_def split: prod.splits res.splits)

lemma keeps_for_each [keeps_intros]:
  "(\<And>x. x \<in> set xs \<Longrightarrow> keeps I (f x)) \<Longrightarrow> keeps I (for_each f xs)"
  by (induction xs) (auto intro!: keeps_bnd keeps_ret)

lemma keeps_fold_m [keeps_intros]:
  "(\<And>x b. x \<in> set xs \<Longrightarrow> keeps I (f x b)) \<Longrightarrow> keeps I (fold_m f xs b)"
  by (induction xs arbitrary: b) (auto intro!: keeps_bnd keeps_ret)

lemma keeps_if [keeps_intros]:
  "(c \<Longrightarrow> keeps I a) \<Longrightarrow> (\<not> c \<Longrightarrow> keeps I b) \<Longrightarrow> keeps I (if c then a else b)"
  by simp

lemma keeps_case_option [keeps_intros]:
  "(x = None \<Longrightarrow> keeps I a) \<Longrightarrow> (\<And>y. x = Some y \<Longrightarrow> keeps I (f y)) \<Longrightarrow>
   keeps I (case x of None \<Rightarrow> a | Some y \<Rightarrow> f y)"
  by (cases x) auto

lemma keeps_case_sum [keeps_intros]:
  "(\<And>e. x = Inl e \<Longrightarrow> keeps I (f e)) \<Longrightarrow> (\<And>y. x = Inr y \<Longrightarrow> keeps I (g y)) \<Longrightarrow>
   keeps I (case x of Inl e \<Rightarrow> f e | Inr y \<Rightarrow> g y)"
  by (cases x) auto

lemma keeps_case_prod [keeps_intros]:
  "(\<And>a b. x = (a, b) \<Longrightarrow> keeps I (f a b)) \<Longrightarrow> keeps I (case x of (a, b) \<Rightarrow> f a b)"
  by (cases x) auto

lemma keeps_conj: "keeps I m \<Longrightarrow> keeps J m \<Longrightarrow> keeps (\<lambda>s. I s \<and> J s) m"
  by (simp add: keeps_def)

subsection \<open>Triples\<close>

lemma validI:
  assumes "\<And>s x s'. P s \<Longrightarrow> m s = (Ok x, s') \<Longrightarrow> Q x s'"
    and "\<And>s e s'. P s \<Longrightarrow> m s = (Err e, s') \<Longrightarrow> E s'"
    and "\<And>s p s'. P s \<Longrightarrow> m s = (Panic p, s') \<Longrightarrow> E s'"
  shows "valid P m Q E"
  using assms by (auto simp: valid_def split: res.splits)

lemma valid_OkD: "valid P m Q E \<Longrightarrow> P s \<Longrightarrow> m s = (Ok x, s') \<Longrightarrow> Q x s'"
  by (force simp: valid_def)

lemma valid_ErrD: "valid P m Q E \<Longrightarrow> P s \<Longrightarrow> m s = (Err e, s') \<Longrightarrow> E s'"
  by (force simp: valid_def)

lemma valid_PanicD: "valid P m Q E \<Longrightarrow> P s \<Longrightarrow> m s = (Panic p, s') \<Longrightarrow> E s'"
  by (force simp: valid_def)

lemma valid_keeps: "keeps I m \<Longrightarrow> valid I m (\<lambda>_. I) I"
  by (auto intro!: validI dest: keepsD)

lemma valid_bnd:
  assumes "valid P m R E" and "\<And>x. valid (R x) (f x) Q E"
  shows "valid P (bnd m f) Q E"
  by (rule validI)
    (auto elim!: bnd_eq_OkE bnd_eq_ErrE bnd_eq_PanicE
      dest: valid_OkD [OF assms(1)] valid_ErrD [OF assms(1)] valid_PanicD [OF assms(1)]
        valid_OkD [OF assms(2)] valid_ErrD [OF assms(2)] valid_PanicD [OF assms(2)])

lemma valid_fold_m:
  assumes "\<And>x b. x \<in> set xs \<Longrightarrow> valid (I b) (f x b) I E"
  shows "valid (I b) (fold_m f xs b) I E"
  using assms
proof (induction xs arbitrary: b)
  case Nil
  then show ?case by (auto simp: valid_def ret_def)
next
  case (Cons x xs)
  then show ?case by (auto intro!: valid_bnd [where R = I])
qed

subsection \<open>Lists and association lists\<close>

lemma find_Some_iff_in: "List.find P xs = Some x \<Longrightarrow> x \<in> set xs \<and> P x"
  by (metis find_Some_iff nth_mem)

lemma distinct_map_filter: "distinct (map f xs) \<Longrightarrow> distinct (map f (filter P xs))"
  by (induction xs) auto

lemma map_of_update [simp]: "map_of (AList.update k v al) = (map_of al)(k \<mapsto> v)"
  by (rule ext) (simp add: update_conv')

end
