(* ===== verification/Errors.thy ===== *)
theory Errors
  imports Prelude
begin

text \<open>
  The error types of the crate: \<open>src/gnosis/error.rs\<close> and \<open>src/error.rs\<close>, their conversions
  (\<open>From\<close>) and the retry decision \<open>TransactionRetriableError::should_retry\<close>. Payloads that are
  error values of other crates are their messages. The Ethereum address and transaction hash
  wrappers are declared here because \<open>Error\<close> carries them; their operations are in
  \<open>Eth_Data_Types\<close>.
\<close>

datatype eth_addr = EthAddr string

datatype eth_tx_hash = EthTxHash bytes

primrec eth_addr_str :: "eth_addr \<Rightarrow> string" where
  "eth_addr_str (EthAddr s) = s"

primrec eth_tx_hash_bytes :: "eth_tx_hash \<Rightarrow> bytes" where
  "eth_tx_hash_bytes (EthTxHash b) = b"

section \<open>Gnosis errors\<close>

datatype gnosis_error =
    PathExtension
  | UnrecognizedExtension string
  | GnosisJson string
  | GnosisToml string
  | GnosisIo string
  | InvalidAddress string
  | InvalidTxHash string
  | InvalidTxValue string
  | UrlParse string
  | ApiResultParse string
  | UnknownToken string
  | GnosisOther string

section \<open>Database errors, as Diesel reports them\<close>

datatype database_error_kind = UniqueViolation | ForeignKeyViolation | OtherViolation

datatype diesel_error =
    DieselNotFound
  | DatabaseError database_error_kind string
  | DieselOther string

section \<open>The crate's error type\<close>

datatype error =
    NotFound
  | AlreadyExists string
  | ObjectNotSaved
  | DepositAndMintMismatch string
  | WithdrawalAndBurnMismatch string
  | EthereumTokenNotAudited eth_addr eth_addr eth_tx_hash
  | GnosisSafeNotAudited eth_addr
  | Io string
  | LedgerDb string
  | Decode string
  | UnexpectedBlockIndex u64 u64
  | Diesel diesel_error
  | DieselMigrations string
  | R2d2Pool string
  | Gnosis gnosis_error
  | ApiDisplay string
  | HexParse string
  | Key string
  | InvalidLength nat nat
  | InvalidNonceIdentifier bytes
  | ViewKeyMatch string
  | MemoDecoding string
  | InvalidMemoType
  | Signature string
  | Other string

text \<open>\<open>From<DieselError> for Error\<close>.\<close>

fun error_from_diesel :: "diesel_error \<Rightarrow> error" where
  "error_from_diesel DieselNotFound = NotFound"
| "error_from_diesel (DatabaseError UniqueViolation info) = AlreadyExists info"
| "error_from_diesel err = Diesel err"

fun should_retry :: "error \<Rightarrow> bool" where
  "should_retry (Diesel DieselNotFound) = False"
| "should_retry (Diesel (DatabaseError ForeignKeyViolation _)) = False"
| "should_retry (R2d2Pool _) = True"
| "should_retry _ = False"

section \<open>Error messages\<close>

text \<open>The \<open>Display\<close> texts that the \<open>displaydoc\<close> derive takes from the doc comments of the
  variants. The hash of an unaudited transfer is printed by the given function.\<close>

definition join_with :: "string \<Rightarrow> string list \<Rightarrow> string" where
  "join_with sep xs = (case xs of [] \<Rightarrow> [] | y # ys \<Rightarrow> y @ concat (map (\<lambda>z. sep @ z) ys))"

definition debug_bytes :: "bytes \<Rightarrow> string" where
  "debug_bytes bs = ''['' @ join_with '', '' (map (\<lambda>b. show_nat (unat b)) bs) @ '']''"

primrec gnosis_error_display :: "gnosis_error \<Rightarrow> string" where
  "gnosis_error_display PathExtension = ''Cannot figure out file extension''"
| "gnosis_error_display (UnrecognizedExtension m) = ''Unrecognized file extension '' @ m"
| "gnosis_error_display (GnosisJson m) = ''JSON: '' @ m"
| "gnosis_error_display (GnosisToml m) = ''TOML: '' @ m"
| "gnosis_error_display (GnosisIo m) = ''IO: '' @ m"
| "gnosis_error_display (InvalidAddress m) = ''Invalid address: '' @ m"
| "gnosis_error_display (InvalidTxHash m) = ''Invalid tx hash: '' @ m"
| "gnosis_error_display (InvalidTxValue m) = ''Invalid tx value: '' @ m"
| "gnosis_error_display (UrlParse m) = ''URL parse error: '' @ m"
| "gnosis_error_display (ApiResultParse m) = ''Api result parse error: '' @ m"
| "gnosis_error_display (UnknownToken m) = ''Unknown Token: '' @ m"
| "gnosis_error_display (GnosisOther m) = ''Other: '' @ m"

primrec diesel_error_message :: "diesel_error \<Rightarrow> string" where
  "diesel_error_message DieselNotFound = ''NotFound''"
| "diesel_error_message (DatabaseError _ m) = m"
| "diesel_error_message (DieselOther m) = m"

primrec error_display :: "(eth_tx_hash \<Rightarrow> string) \<Rightarrow> error \<Rightarrow> string" where
  "error_display h NotFound = ''Not found''"
| "error_display h (AlreadyExists m) = ''Already exists: '' @ m"
| "error_display h ObjectNotSaved = ''Object not saved to database''"
| "error_display h (DepositAndMintMismatch m) = ''Deposit and mint mismatch: '' @ m"
| "error_display h (WithdrawalAndBurnMismatch m) = ''Withdrawal and burn mismatch: '' @ m"
| "error_display h (EthereumTokenNotAudited t s x) =
     ''Ethereum token '' @ eth_addr_str t @ '' not audited in safe '' @ eth_addr_str s
       @ '' (tx hash: '' @ h x @ '')''"
| "error_display h (GnosisSafeNotAudited s) = ''Gnosis safe '' @ eth_addr_str s @ '' not audited''"
| "error_display h (Io m) = ''IO: '' @ m"
| "error_display h (LedgerDb m) = ''Ledger DB: '' @ m"
| "error_display h (Decode m) = ''Decode: '' @ m"
| "error_display h (UnexpectedBlockIndex a b) =
     ''Unexpected block index '' @ show_u64 a @ '' (was expecting '' @ show_u64 b @ '')''"
| "error_display h (Diesel e) = ''Diesel: '' @ diesel_error_message e"
| "error_display h (DieselMigrations m) = ''Diesel migrations: '' @ m"
| "error_display h (R2d2Pool m) = ''R2d2 pool: '' @ m"
| "error_display h (Gnosis e) = ''Gnosis: '' @ gnosis_error_display e"
| "error_display h (ApiDisplay m) = ''Api display: '' @ m"
| "error_display h (HexParse m) = ''Hex parse: '' @ m"
| "error_display h (Key m) = ''Crypto key: '' @ m"
| "error_display h (InvalidLength a b) =
     ''Invalid length: expected '' @ show_nat a @ '', got '' @ show_nat b"
| "error_display h (InvalidNonceIdentifier bs) = ''Invalid nonce identifier: '' @ debug_bytes bs"
| "error_display h (ViewKeyMatch m) = ''View key match: '' @ m"
| "error_display h (MemoDecoding m) = ''Memo decoding: '' @ m"
| "error_display h InvalidMemoType = ''Invalid memo type''"
| "error_display h (Signature m) = ''Signature error: '' @ m"
| "error_display h (Other m) = ''Other: '' @ m"

section \<open>Lemmas\<close>

text \<open>Retrying is decided by the error alone: only a failure to obtain a pooled connection is
  retried.\<close>

lemma should_retry_iff: "should_retry e \<longleftrightarrow> (\<exists>m. e = R2d2Pool m)"
proof (cases e)
  case (Diesel d)
  then show ?thesis
  proof (cases d)
    case (DatabaseError k m)
    with Diesel show ?thesis by (cases k) auto
  qed auto
qed auto

lemma error_from_diesel_no_retry [simp]: "\<not> should_retry (error_from_diesel d)"
  by (cases d rule: error_from_diesel.cases) (auto simp: should_retry_iff)

end
