(* ===== verification/External.thy ===== *)
theory External
  imports Errors
begin

text \<open>
  Code outside the repository, as parameters of the model. \<open>ext\<close> holds the functions of other
  crates that the database and audit code calls: the \<open>hex\<close> crate, SQLite's choice of a new
  rowid, protobuf encoding, the MobileCoin ledger types' hashing, signature verification, view
  key matching and memo decryption. Their documented behaviour is stated as the locales
  \<open>hex_codec\<close>, \<open>rowid_alloc\<close> and \<open>msg_codec\<close>; a theorem that relies on one of them names its
  locale predicate as a hypothesis. The records of the ledger types have the fields this crate
  reads; \<open>rest\<close> fields stand for everything else in them.

  \<open>ext_ref\<close>, in \<open>Ext_Ref\<close>, instantiates every parameter with an executable function that satisfies the laws
  and is what the concrete examples evaluate.
\<close>

section \<open>Ledger data types\<close>

type_synonym token_id = u64
type_synonym datetime = int

record core_mint_config =
  cmc_token_id :: u64
  cmc_signer_set :: bytes
  cmc_mint_limit :: u64

record core_mint_config_tx =
  cmct_token_id :: u64
  cmct_configs :: "core_mint_config list"
  cmct_nonce :: bytes
  cmct_total_mint_limit :: u64
  cmct_tombstone_block :: u64
  cmct_rest :: bytes

record mint_tx_prefix =
  mtp_token_id :: u64
  mtp_amount :: u64
  mtp_view_public_key :: bytes
  mtp_spend_public_key :: bytes
  mtp_nonce :: bytes
  mtp_tombstone_block :: u64

record core_mint_tx =
  cmt_prefix :: mint_tx_prefix
  cmt_signature :: bytes

record tx_out =
  to_public_key :: bytes
  to_rest :: bytes

record tx_amount =
  amt_value :: u64
  amt_token_id :: u64

record block =
  blk_index :: u64
  blk_rest :: bytes

record block_contents =
  bc_validated_mint_config_txs :: "core_mint_config_tx list"
  bc_mint_txs :: "core_mint_tx list"
  bc_outputs :: "tx_out list"

datatype memo_type = BurnRedemption bytes | OtherMemo

section \<open>The parameters\<close>

record ext =
  hex_encode :: "bytes \<Rightarrow> string"
  hex_decode :: "string \<Rightarrow> (string, bytes) res"
  new_rowid :: "i32 list \<Rightarrow> i32"
  encode_mint_config :: "core_mint_config \<Rightarrow> bytes"
  decode_mint_config :: "bytes \<Rightarrow> (string, core_mint_config) res"
  encode_mint_config_tx :: "core_mint_config_tx \<Rightarrow> bytes"
  decode_mint_config_tx :: "bytes \<Rightarrow> (string, core_mint_config_tx) res"
  encode_mint_tx :: "core_mint_tx \<Rightarrow> bytes"
  decode_mint_tx :: "bytes \<Rightarrow> (string, core_mint_tx) res"
  encode_tx_out :: "tx_out \<Rightarrow> bytes"
  decode_tx_out :: "bytes \<Rightarrow> (string, tx_out) res"
  prefix_hash :: "mint_tx_prefix \<Rightarrow> bytes"
  signer_set_verify :: "bytes \<Rightarrow> bytes \<Rightarrow> bytes \<Rightarrow> (string, bytes list) res"
  view_key_match_burn :: "tx_out \<Rightarrow> (string, tx_amount) res"
  b58_address :: "bytes \<Rightarrow> bytes \<Rightarrow> (string, string) res"
  ristretto_public :: "bytes \<Rightarrow> (string, bytes) res"
  burn_shared_secret :: "bytes \<Rightarrow> bytes"
  decrypt_memo :: "tx_out \<Rightarrow> bytes \<Rightarrow> bytes"
  memo_type_of :: "bytes \<Rightarrow> (string, memo_type) res"
  memo_data :: "bytes \<Rightarrow> bytes"

section \<open>What the crate relies on\<close>

text \<open>The \<open>hex\<close> crate: encoding is lower case, two characters per byte; decoding accepts both
  cases and inverts it.\<close>

locale hex_codec =
  fixes enc :: "bytes \<Rightarrow> string" and dec :: "string \<Rightarrow> (string, bytes) res"
  assumes dec_enc: "dec (enc bs) = Ok bs"
    and enc_dec: "dec s = Ok bs \<Longrightarrow> enc bs = to_lowercase s"
    and length_enc: "length (enc bs) = 2 * length bs"
begin

lemma enc_inject: "enc a = enc b \<longleftrightarrow> a = b"
proof
  assume "enc a = enc b"
  then have "dec (enc a) = dec (enc b)" by simp
  then show "a = b" by (simp add: dec_enc)
qed simp

lemma enc_lower: "to_lowercase (enc bs) = enc bs"
  using enc_dec [OF dec_enc] by simp

lemma length_dec: "dec s = Ok bs \<Longrightarrow> length s = 2 * length bs"
  using enc_dec length_enc by (metis length_map to_lowercase_def)

lemma dec_unique: "dec s = Ok a \<Longrightarrow> dec t = Ok b \<Longrightarrow> to_lowercase s = to_lowercase t \<longleftrightarrow> a = b"
  by (metis enc_dec enc_inject)

end

text \<open>SQLite's INTEGER PRIMARY KEY: a row inserted without an id gets a positive id that no row
  of the table has.\<close>

locale rowid_alloc =
  fixes new :: "i32 list \<Rightarrow> i32"
  assumes new_fresh: "(\<forall>i \<in> set ids. 0 < i) \<Longrightarrow> new ids \<notin> set ids"
    and new_pos: "(\<forall>i \<in> set ids. 0 < i) \<Longrightarrow> 0 < new ids"

text \<open>Serialization of one message type: decoding what was encoded gives it back.\<close>

locale msg_codec =
  fixes enc :: "'a \<Rightarrow> bytes" and dec :: "bytes \<Rightarrow> (string, 'a) res"
  assumes dec_enc: "dec (enc x) = Ok x"
begin

lemma enc_inject: "enc a = enc b \<longleftrightarrow> a = b"
  by (metis dec_enc res.inject(1))

end

section \<open>Executable instances\<close>

definition hex_digit :: "nat \<Rightarrow> char" where
  "hex_digit d = char_of (if d < 10 then 48 + d else 87 + d)"

definition hex_value :: "char \<Rightarrow> nat option" where
  "hex_value c = (let n = (of_char c :: nat) in
     if 48 \<le> n \<and> n \<le> 57 then Some (n - 48)
     else if 97 \<le> n \<and> n \<le> 102 then Some (n - 87)
     else if 65 \<le> n \<and> n \<le> 70 then Some (n - 55)
     else None)"

primrec hex_encode_ref :: "bytes \<Rightarrow> string" where
  "hex_encode_ref [] = []"
| "hex_encode_ref (b # bs) =
     hex_digit (unat b div 16) # hex_digit (unat b mod 16) # hex_encode_ref bs"

fun hex_decode_ref :: "string \<Rightarrow> (string, bytes) res" where
  "hex_decode_ref [] = Ok []"
| "hex_decode_ref [c] = Err ''Odd number of digits''"
| "hex_decode_ref (c # d # cs) =
     (case (hex_value c, hex_value d, hex_decode_ref cs) of
        (Some h, Some l, Ok bs) \<Rightarrow> Ok (of_nat (16 * h + l) # bs)
      | (_, _, Err e) \<Rightarrow> Err e
      | _ \<Rightarrow> Err ''Invalid character'')"

definition rowid_ref :: "i32 list \<Rightarrow> i32" where
  "rowid_ref ids = foldr max ids 0 + 1"

subsection \<open>The instances satisfy the laws\<close>

lemma hex_value_digit: "d < 16 \<Longrightarrow> hex_value (hex_digit d) = Some d"
  by (auto simp: hex_value_def hex_digit_def)

lemma byte_nibbles: "of_nat (16 * (unat b div 16) + unat b mod 16) = (b :: u8)"
  by (simp only: mult_div_mod_eq) simp

lemma byte_div_16: "unat (b :: u8) div 16 < 16"
proof -
  have "unat b < 2 ^ LENGTH(8)" by (rule unsigned_less)
  then show ?thesis by (simp add: less_mult_imp_div_less)
qed

lemma hex_decode_encode_ref: "hex_decode_ref (hex_encode_ref bs) = Ok bs"
proof (induction bs)
  case (Cons b bs)
  have "hex_value (hex_digit (unat b div 16)) = Some (unat b div 16)"
    by (rule hex_value_digit [OF byte_div_16])
  moreover have "hex_value (hex_digit (unat b mod 16)) = Some (unat b mod 16)"
    by (rule hex_value_digit) simp
  ultimately show ?case
    using Cons byte_nibbles [of b] by (simp del: of_nat_add of_nat_mult)
qed simp

lemma hex_value_bound: "hex_value c = Some h \<Longrightarrow> h < 16"
  by (auto simp: hex_value_def Let_def split: if_splits)

lemma hex_digit_value: "hex_value c = Some h \<Longrightarrow> hex_digit h = char_lower c"
  by (auto simp: hex_value_def hex_digit_def char_lower_def Let_def split: if_splits)

lemma unat_nibbles: "h < 16 \<Longrightarrow> l < 16 \<Longrightarrow> unat (of_nat (16 * h + l) :: u8) = 16 * h + l"
  by (simp add: unat_of_nat del: of_nat_add of_nat_mult)

lemma hex_encode_decode_ref: "hex_decode_ref s = Ok bs \<Longrightarrow> hex_encode_ref bs = to_lowercase s"
proof (induction s arbitrary: bs rule: hex_decode_ref.induct)
  case (3 c d cs)
  from "3.prems" obtain h l bs' where hl: "hex_value c = Some h" "hex_value d = Some l"
    and rest: "hex_decode_ref cs = Ok bs'" and bs: "bs = of_nat (16 * h + l) # bs'"
    by (auto split: option.splits res.splits)
  have b: "unat (of_nat (16 * h + l) :: u8) = 16 * h + l" and l: "l < 16"
    using hl hex_value_bound unat_nibbles by blast+
  from rest have "hex_encode_ref bs' = to_lowercase cs" by (rule "3.IH")
  then show ?case
    using hl l by (simp add: bs b hex_digit_value to_lowercase_def del: of_nat_add of_nat_mult)
qed (auto simp: to_lowercase_def)

lemma length_hex_encode_ref: "length (hex_encode_ref bs) = 2 * length bs"
  by (induction bs) auto

interpretation hex_ref: hex_codec hex_encode_ref hex_decode_ref
  by unfold_locales (fact hex_decode_encode_ref hex_encode_decode_ref length_hex_encode_ref)+

lemma foldr_max_ge: "i \<in> set ids \<Longrightarrow> i \<le> foldr max ids (0 :: int)"
  by (induction ids) auto

lemma foldr_max_nonneg: "(0 :: int) \<le> foldr max ids 0"
  by (induction ids) auto

interpretation rowid_ref: rowid_alloc rowid_ref
proof
  fix ids :: "i32 list"
  show "rowid_ref ids \<notin> set ids"
    using foldr_max_ge [of "rowid_ref ids" ids] by (auto simp: rowid_ref_def)
  show "0 < rowid_ref ids"
    using foldr_max_nonneg [of ids] by (simp add: rowid_ref_def)
qed

end
