(* ===== verification/Eth_Data_Types.thy ===== *)
theory Eth_Data_Types
  imports External
begin

text \<open>
  Values that cross between Ethereum and the database: \<open>src/gnosis/eth_data_types.rs\<close> (parsing,
  printing and comparison of transaction values, addresses and hashes),
  \<open>src/db/models/sql_types.rs\<close> (their text columns), \<open>src/gnosis/utils.rs\<close> (truncation of a
  value to the MobileCoin precision) and \<open>src/mint_tx_nonce.rs\<close> (the nonce that links a mint to a
  deposit). The lemmas are the round trips, the exact conditions under which parsing succeeds,
  and the value truncation computes.
\<close>

section \<open>Transaction values\<close>

datatype eth_tx_value = EthTxValue u128

primrec eth_tx_value_u128 :: "eth_tx_value \<Rightarrow> u128" where
  "eth_tx_value_u128 (EthTxValue v) = v"

definition eth_tx_value_from_str :: "string \<Rightarrow> (gnosis_error, eth_tx_value) res" where
  "eth_tx_value_from_str src = (case parse_u128 src of
      None \<Rightarrow> Err (InvalidTxValue (''unable to parse value to EthTxValue: '' @ src))
    | Some v \<Rightarrow> Ok (EthTxValue v))"

definition eth_tx_value_to_string :: "eth_tx_value \<Rightarrow> string" where
  "eth_tx_value_to_string v = show_u128 (eth_tx_value_u128 v)"

section \<open>Addresses\<close>

definition ETH_ADDR_LEN :: nat where
  "ETH_ADDR_LEN = 20"

definition eth_addr_from_str :: "ext \<Rightarrow> string \<Rightarrow> (gnosis_error, eth_addr) res" where
  "eth_addr_from_str X src =
     (if src = [] then Err (InvalidAddress ''empty address'')
      else if \<not> starts_with ''0x'' src then
        Err (InvalidAddress (''expected address to begin with 0x, instead found '' @ src))
      else rbind (map_err (\<lambda>_. InvalidAddress
                    (''unable to convert address to bytes for address: '' @ src))
                    (hex_decode X (drop 2 src))) (\<lambda>bs.
        if length bs \<noteq> ETH_ADDR_LEN then
          Err (InvalidAddress (''expected byte conversion of address '' @ src @ '' to be equal to ''
             @ show_nat ETH_ADDR_LEN @ '', instead found '' @ show_nat (length bs)))
        else Ok (EthAddr src)))"

definition eth_addr_eq :: "eth_addr \<Rightarrow> eth_addr \<Rightarrow> bool" where
  "eth_addr_eq a b = (to_lowercase (eth_addr_str a) = to_lowercase (eth_addr_str b))"

datatype ordering = Less | Equal | Greater

fun string_cmp :: "string \<Rightarrow> string \<Rightarrow> ordering" where
  "string_cmp [] [] = Equal"
| "string_cmp [] (_ # _) = Less"
| "string_cmp (_ # _) [] = Greater"
| "string_cmp (c # cs) (d # ds) =
     (if (of_char c :: nat) < of_char d then Less
      else if (of_char d :: nat) < of_char c then Greater
      else string_cmp cs ds)"

definition eth_addr_cmp :: "eth_addr \<Rightarrow> eth_addr \<Rightarrow> ordering" where
  "eth_addr_cmp a b = string_cmp (to_lowercase (eth_addr_str a)) (to_lowercase (eth_addr_str b))"

text \<open>What \<open>Hash for EthAddr\<close> feeds to the hasher.\<close>

definition eth_addr_hash :: "eth_addr \<Rightarrow> string" where
  "eth_addr_hash a = to_lowercase (eth_addr_str a)"

section \<open>Transaction hashes\<close>

definition ETH_TX_HASH_LEN :: nat where
  "ETH_TX_HASH_LEN = 32"

text \<open>The Rust type is the array \<open>[u8; 32]\<close>; \<open>eth_tx_hash_wf\<close> is that type's length.\<close>

definition eth_tx_hash_wf :: "eth_tx_hash \<Rightarrow> bool" where
  "eth_tx_hash_wf h = (length (eth_tx_hash_bytes h) = ETH_TX_HASH_LEN)"

definition eth_tx_hash_try_from :: "ext \<Rightarrow> bytes \<Rightarrow> (gnosis_error, eth_tx_hash) res" where
  "eth_tx_hash_try_from X src =
     (if length src = ETH_TX_HASH_LEN then Ok (EthTxHash src)
      else Err (InvalidTxHash (hex_encode X src)))"

definition eth_tx_hash_from_str :: "ext \<Rightarrow> string \<Rightarrow> (gnosis_error, eth_tx_hash) res" where
  "eth_tx_hash_from_str X src =
     (if \<not> starts_with ''0x'' src then Err (InvalidTxHash src)
      else rbind (map_err (\<lambda>_. InvalidTxHash src) (hex_decode X (drop 2 src)))
        (eth_tx_hash_try_from X))"

definition eth_tx_hash_display :: "ext \<Rightarrow> eth_tx_hash \<Rightarrow> string" where
  "eth_tx_hash_display X h = ''0x'' @ hex_encode X (eth_tx_hash_bytes h)"

section \<open>Text columns\<close>

definition sql_eth_tx_value_to_sql :: "eth_tx_value \<Rightarrow> string" where
  "sql_eth_tx_value_to_sql v = eth_tx_value_to_string v"

definition sql_eth_tx_value_from_sql :: "string \<Rightarrow> (string, eth_tx_value) res" where
  "sql_eth_tx_value_from_sql s = map_err gnosis_error_display (eth_tx_value_from_str s)"

definition sql_eth_addr_to_sql :: "eth_addr \<Rightarrow> string" where
  "sql_eth_addr_to_sql a = eth_addr_str a"

definition sql_eth_addr_from_sql :: "ext \<Rightarrow> string \<Rightarrow> (string, eth_addr) res" where
  "sql_eth_addr_from_sql X s = map_err gnosis_error_display (eth_addr_from_str X s)"

definition sql_eth_tx_hash_to_sql :: "ext \<Rightarrow> eth_tx_hash \<Rightarrow> string" where
  "sql_eth_tx_hash_to_sql X h = eth_tx_hash_display X h"

definition sql_eth_tx_hash_from_sql :: "ext \<Rightarrow> string \<Rightarrow> (string, eth_tx_hash) res" where
  "sql_eth_tx_hash_from_sql X s = map_err gnosis_error_display (eth_tx_hash_from_str X s)"

section \<open>Truncation to the MobileCoin precision\<close>

text \<open>Overflow checks are off in the release build, so \<open>10_u128.pow\<close> wraps (from exponent 39 on);
  at a wrapped denominator of 0 the division panics.\<close>

definition truncate_value :: "eth_tx_value \<Rightarrow> u8 \<Rightarrow> u8 \<Rightarrow> ('e, u64) res" where
  "truncate_value raw_token_value token_decimals max_decimals =
     (let token_value = eth_tx_value_u128 raw_token_value;
          finish = (\<lambda>v. case u64_try_from v of
              None \<Rightarrow> Panic ''Failed to truncate EthTxValue token value to u64''
            | Some w \<Rightarrow> Ok w)
      in if token_decimals > max_decimals then
           (let orders_reduced_by = token_decimals - max_decimals;
                denominator = (10 :: u128) ^ unat orders_reduced_by
            in if denominator = 0 then Panic ''attempt to divide by zero''
               else finish (token_value div denominator))
         else finish token_value)"

section \<open>The mint nonce\<close>

datatype mint_tx_nonce = EthereumGnosisDeposit eth_tx_hash

text \<open>\<open>NONCE_LENGTH\<close> is a constant of the ledger crate; its value is the one the unit tests of
  \<open>src/mint_tx_nonce.rs\<close> and the width of the nonce columns in the migration fix.\<close>

definition NONCE_LENGTH :: nat where
  "NONCE_LENGTH = 64"

definition IDENTIFIER_LEN :: nat where
  "IDENTIFIER_LEN = 1"

definition ETHEREUM_GNOSIS_DEPOSIT_IDENTIFIER :: bytes where
  "ETHEREUM_GNOSIS_DEPOSIT_IDENTIFIER = [1]"

text \<open>\<open>dst[i..i + src.len()].copy_from_slice(src)\<close>.\<close>

definition copy_at :: "nat \<Rightarrow> bytes \<Rightarrow> bytes \<Rightarrow> bytes" where
  "copy_at i src dst = take i dst @ src @ drop (i + length src) dst"

fun mint_tx_nonce_to_bytes :: "mint_tx_nonce \<Rightarrow> bytes" where
  "mint_tx_nonce_to_bytes (EthereumGnosisDeposit eth_tx_hash) =
     copy_at IDENTIFIER_LEN (eth_tx_hash_bytes eth_tx_hash)
       (copy_at 0 ETHEREUM_GNOSIS_DEPOSIT_IDENTIFIER (replicate NONCE_LENGTH 0))"

definition mint_tx_nonce_try_from :: "ext \<Rightarrow> bytes \<Rightarrow> (error, mint_tx_nonce) res" where
  "mint_tx_nonce_try_from X bs =
     (if length bs \<noteq> NONCE_LENGTH then Err (InvalidLength NONCE_LENGTH (length bs))
      else if take IDENTIFIER_LEN bs = ETHEREUM_GNOSIS_DEPOSIT_IDENTIFIER then
        rbind (map_err Gnosis (eth_tx_hash_try_from X
                (take ETH_TX_HASH_LEN (drop IDENTIFIER_LEN bs))))
          (\<lambda>eth_tx_hash. Ok (EthereumGnosisDeposit eth_tx_hash))
      else Err (InvalidNonceIdentifier (take IDENTIFIER_LEN bs)))"

section \<open>Printing and parsing numbers\<close>

lemma char_digit_digit_char: "d < 10 \<Longrightarrow> char_digit (digit_char d) = Some d"
  by (simp add: char_digit_def digit_char_def)

lemma parse_digits_append:
  "parse_digits a (xs @ ys) = Option.bind (parse_digits a xs) (\<lambda>b. parse_digits b ys)"
  by (induction xs arbitrary: a) (auto split: option.split)

lemma parse_digits_show_nat: "parse_digits 0 (show_nat n) = Some n"
proof (induction n rule: show_nat.induct)
  case (1 n)
  show ?case
  proof (cases "n < 10")
    case True
    then show ?thesis by (subst show_nat.simps) (simp add: char_digit_digit_char)
  next
    case False
    then show ?thesis
      using 1 by (subst show_nat.simps)
        (simp add: parse_digits_append char_digit_digit_char)
  qed
qed

lemma show_nat_not_Nil: "show_nat n \<noteq> []"
  by (subst show_nat.simps) simp

lemma hd_show_nat_digit: "\<exists>d < 10. hd (show_nat n) = digit_char d"
proof (induction n rule: show_nat.induct)
  case (1 n)
  show ?case
  proof (cases "n < 10")
    case True
    then show ?thesis by (subst show_nat.simps) auto
  next
    case False
    then show ?thesis
      using 1 show_nat_not_Nil [of "n div 10"] by (subst show_nat.simps) auto
  qed
qed

lemma hd_show_nat_not_plus: "hd (show_nat n) \<noteq> CHR ''+''"
proof -
  obtain d where "d < 10" and "hd (show_nat n) = digit_char d"
    using hd_show_nat_digit by blast
  then have "char_digit (hd (show_nat n)) = Some d"
    by (simp add: char_digit_digit_char)
  then show ?thesis by (auto simp: char_digit_def)
qed

lemma parse_u128_show: "parse_u128 (show_u128 w) = Some w"
proof -
  obtain c cs where s: "show_nat (unat w) = c # cs"
    using show_nat_not_Nil by (meson neq_Nil_conv)
  then have "c \<noteq> CHR ''+''"
    using hd_show_nat_not_plus [of "unat w"] by simp
  moreover have "unat w < 2 ^ LENGTH(128)"
    by (rule unsigned_less)
  ultimately show ?thesis
    using parse_digits_show_nat [of "unat w"] s by (simp add: parse_u128_def show_u128_def Let_def)
qed

section \<open>Round trips\<close>

text \<open>Printing an Ethereum transaction value and parsing it back gives the value, for every
  128-bit value. This is what the text column \<open>eth_tx_value\<close> and the protobuf conversions rely
  on.\<close>

lemma eth_tx_value_roundtrip: "eth_tx_value_from_str (eth_tx_value_to_string v) = Ok v"
  by (cases v) (simp add: eth_tx_value_from_str_def eth_tx_value_to_string_def parse_u128_show)

lemma starts_with_0x [simp]: "starts_with ''0x'' (''0x'' @ s)"
  by (simp add: starts_with_def)

lemma starts_with_0xE:
  assumes "starts_with ''0x'' s"
  obtains t where "s = ''0x'' @ t"
  using assms by (metis append_take_drop_id starts_with_def)

lemma eth_tx_hash_from_str_display:
  assumes "hex_codec (hex_encode X) (hex_decode X)" and "eth_tx_hash_wf h"
  shows "eth_tx_hash_from_str X (eth_tx_hash_display X h) = Ok h"
  using assms(2)
  by (cases h) (simp add: eth_tx_hash_from_str_def eth_tx_hash_display_def eth_tx_hash_wf_def
      eth_tx_hash_try_from_def hex_codec.dec_enc [OF assms(1)] starts_with_def)

lemma to_lowercase_append: "to_lowercase (a @ b) = to_lowercase a @ to_lowercase b"
  by (simp add: to_lowercase_def)

lemma to_lowercase_0x [simp]: "to_lowercase ''0x'' = ''0x''"
  by (simp add: to_lowercase_def char_lower_def)

lemma eth_tx_hash_display_from_str:
  assumes "hex_codec (hex_encode X) (hex_decode X)" and "eth_tx_hash_from_str X s = Ok h"
  shows "eth_tx_hash_display X h = to_lowercase s" and "eth_tx_hash_wf h"
proof -
  from assms(2) have s: "starts_with ''0x'' s" and d: "hex_decode X (drop 2 s) = Ok (eth_tx_hash_bytes h)"
    and wf: "length (eth_tx_hash_bytes h) = ETH_TX_HASH_LEN"
    by (auto simp: eth_tx_hash_from_str_def eth_tx_hash_try_from_def rbind_eq_Ok split: if_splits)
  from s obtain t where t: "s = ''0x'' @ t" by (rule starts_with_0xE)
  have "hex_encode X (eth_tx_hash_bytes h) = to_lowercase t"
    using hex_codec.enc_dec [OF assms(1)] d by (simp add: t)
  then show "eth_tx_hash_display X h = to_lowercase s"
    using to_lowercase_0x by (simp add: eth_tx_hash_display_def t to_lowercase_def char_lower_def)
  from wf show "eth_tx_hash_wf h" by (simp add: eth_tx_hash_wf_def)
qed

section \<open>Properties of addresses\<close>

lemma eth_addr_from_str_Ok:
  "eth_addr_from_str X s = Ok a \<longleftrightarrow> a = EthAddr s \<and> starts_with ''0x'' s
     \<and> (\<exists>bs. hex_decode X (drop 2 s) = Ok bs \<and> length bs = ETH_ADDR_LEN)"
  by (auto simp: eth_addr_from_str_def rbind_eq_Ok starts_with_def)

lemma string_cmp_Equal [simp]: "string_cmp a b = Equal \<longleftrightarrow> a = b"
  by (induction a b rule: string_cmp.induct) auto

lemma string_cmp_swap: "string_cmp a b = Less \<longleftrightarrow> string_cmp b a = Greater"
  by (induction a b rule: string_cmp.induct) auto

text \<open>C33: two parsed addresses compare equal exactly when they denote the same twenty bytes, so the
  capitalization of the checksum does not matter, and the three comparisons of the type
  (\<open>PartialEq\<close>, \<open>Ord\<close>, \<open>Hash\<close>) agree on it.\<close>

theorem eth_addr_eq_same_bytes:
  assumes "hex_codec (hex_encode X) (hex_decode X)"
    and "eth_addr_from_str X s = Ok a" and "eth_addr_from_str X t = Ok b"
  shows "(eth_addr_eq a b \<longleftrightarrow> hex_decode X (drop 2 s) = hex_decode X (drop 2 t))
    \<and> (eth_addr_cmp a b = Equal \<longleftrightarrow> eth_addr_eq a b)
    \<and> (eth_addr_eq a b \<longleftrightarrow> eth_addr_hash a = eth_addr_hash b) \<and> length s = 42"
proof -
  from assms(2) obtain x where a: "a = EthAddr s" "starts_with ''0x'' s"
    and x: "hex_decode X (drop 2 s) = Ok x" "length x = ETH_ADDR_LEN"
    by (auto simp: eth_addr_from_str_Ok)
  from assms(3) obtain y where b: "b = EthAddr t" "starts_with ''0x'' t"
    and y: "hex_decode X (drop 2 t) = Ok y"
    by (auto simp: eth_addr_from_str_Ok)
  obtain s' where s': "s = ''0x'' @ s'" using a(2) by (rule starts_with_0xE)
  obtain t' where t': "t = ''0x'' @ t'" using b(2) by (rule starts_with_0xE)
  have "to_lowercase s' = to_lowercase t' \<longleftrightarrow> x = y"
    using hex_codec.dec_unique [OF assms(1), of s' x t' y] x y by (simp add: s' t')
  moreover have "length s' = 2 * length x"
    using hex_codec.length_dec [OF assms(1), of s' x] x by (simp add: s')
  ultimately show ?thesis
    using x y by (simp add: eth_addr_eq_def eth_addr_cmp_def eth_addr_hash_def a(1) b(1) s' t'
        to_lowercase_def ETH_ADDR_LEN_def)
qed

section \<open>Properties of nonces\<close>

lemma mint_tx_nonce_bytes:
  "eth_tx_hash_wf h \<Longrightarrow> mint_tx_nonce_to_bytes (EthereumGnosisDeposit h) =
     1 # eth_tx_hash_bytes h @ replicate 31 0"
  by (simp add: copy_at_def IDENTIFIER_LEN_def ETHEREUM_GNOSIS_DEPOSIT_IDENTIFIER_def
      NONCE_LENGTH_def eth_tx_hash_wf_def ETH_TX_HASH_LEN_def)

text \<open>C31: a mint nonce has the fixed length of nonces and decodes to the deposit hash it was built
  from, so two deposits with different hashes expect different nonces.\<close>

theorem mint_tx_nonce_roundtrip:
  assumes "eth_tx_hash_wf h"
  shows "length (mint_tx_nonce_to_bytes (EthereumGnosisDeposit h)) = NONCE_LENGTH
    \<and> mint_tx_nonce_try_from X (mint_tx_nonce_to_bytes (EthereumGnosisDeposit h))
        = Ok (EthereumGnosisDeposit h)"
  using assms by (cases h)
    (simp add: mint_tx_nonce_bytes mint_tx_nonce_try_from_def NONCE_LENGTH_def IDENTIFIER_LEN_def
      ETHEREUM_GNOSIS_DEPOSIT_IDENTIFIER_def eth_tx_hash_try_from_def eth_tx_hash_wf_def
      ETH_TX_HASH_LEN_def del: mint_tx_nonce_to_bytes.simps)

lemma mint_tx_nonce_inject:
  assumes "eth_tx_hash_wf a" and "eth_tx_hash_wf b"
  shows "mint_tx_nonce_to_bytes (EthereumGnosisDeposit a) =
      mint_tx_nonce_to_bytes (EthereumGnosisDeposit b) \<longleftrightarrow> a = b"
  using assms by (cases a; cases b)
    (auto simp: mint_tx_nonce_bytes eth_tx_hash_wf_def simp del: mint_tx_nonce_to_bytes.simps)

lemma mint_tx_nonce_try_from_Err:
  "mint_tx_nonce_try_from X bs = Err e \<longleftrightarrow>
     (length bs \<noteq> 64 \<and> e = InvalidLength 64 (length bs))
     \<or> (length bs = 64 \<and> hd bs \<noteq> 1 \<and> e = InvalidNonceIdentifier [hd bs])"
  by (cases bs) (auto simp: mint_tx_nonce_try_from_def NONCE_LENGTH_def IDENTIFIER_LEN_def
      ETHEREUM_GNOSIS_DEPOSIT_IDENTIFIER_def eth_tx_hash_try_from_def ETH_TX_HASH_LEN_def)

section \<open>Properties of truncation\<close>

lemma unat_ucast_u64: "unat (ucast (v :: u128) :: u64) = unat v mod 2 ^ 64"
  by (simp add: unsigned_ucast_eq take_bit_eq_mod)

lemma u64_try_from_Some: "u64_try_from v = Some w \<Longrightarrow> unat w = unat v"
  by (auto simp: u64_try_from_def unat_ucast_u64 split: if_splits)

lemma unat_pow10: "k \<le> 38 \<Longrightarrow> unat ((10 :: u128) ^ k) = 10 ^ k"
proof (induction k)
  case (Suc k)
  have "(10 :: nat) ^ k \<le> 10 ^ 37" using Suc.prems by (intro power_increasing) auto
  then have "10 * 10 ^ k < (2 :: nat) ^ 128" by (rule le_less_trans [OF mult_left_mono]) simp_all
  with Suc show ?case by (simp add: unat_word_ariths)
qed simp

lemma unat_sub_u8: "(b :: u8) \<le> a \<Longrightarrow> unat (a - b) = unat a - unat b"
  by (rule unat_sub)


lemma truncate_value_eq:
  assumes "max_decimals < token_decimals"
    and "d = unat token_decimals - unat max_decimals" and "d \<le> 38"
  shows "truncate_value v token_decimals max_decimals =
    (case u64_try_from (eth_tx_value_u128 v div 10 ^ d) of
       None \<Rightarrow> Panic ''Failed to truncate EthTxValue token value to u64'' | Some w \<Rightarrow> Ok w)"
proof -
  have "unat (token_decimals - max_decimals) = d"
    using assms(1,2) by (simp add: unat_sub_u8 order.strict_implies_order)
  moreover have "(10 :: u128) ^ d \<noteq> 0"
    using unat_pow10 [OF assms(3)] by (metis power_not_zero unat_eq_zero zero_neq_numeral)
  ultimately show ?thesis
    using assms(1) by (simp add: truncate_value_def Let_def)
qed

text \<open>C32: when a token has more decimals than the audited maximum (by at most 38, the range in which
  the power of ten fits 128 bits), a successful truncation is the floor of the value at the
  smaller precision: nothing is rounded up and less than one unit is dropped; and it succeeds
  exactly when that floor fits 64 bits, panicking otherwise.\<close>

theorem truncate_value_floor:
  assumes "max_decimals < token_decimals"
    and "d = unat token_decimals - unat max_decimals" and "d \<le> 38"
    and "x = unat (eth_tx_value_u128 v)"
  shows "(if x div 10 ^ d < 2 ^ 64
     then (\<exists>w. truncate_value v token_decimals max_decimals = Ok w \<and> unat w = x div 10 ^ d
             \<and> unat w * 10 ^ d \<le> x \<and> x < (unat w + 1) * 10 ^ d)
     else truncate_value v token_decimals max_decimals
            = Panic ''Failed to truncate EthTxValue token value to u64'')"
proof -
  let ?q = "eth_tx_value_u128 v div 10 ^ d"
  have q: "unat ?q = x div 10 ^ d"
    using unat_pow10 [OF assms(3)] assms(4) by (simp add: unat_div)
  have low: "x div 10 ^ d * 10 ^ d \<le> x" by (rule div_times_less_eq_dividend)
  have high: "x < (x div 10 ^ d + 1) * 10 ^ d"
    using dividend_less_times_div [of "10 ^ d" x] by (simp add: algebra_simps)
  show ?thesis
  proof (cases "x div 10 ^ d < 2 ^ 64")
    case True
    then obtain w where w: "u64_try_from ?q = Some w" by (simp add: u64_try_from_def q)
    then have "unat w = x div 10 ^ d" by (simp add: u64_try_from_Some q)
    with True low high w show ?thesis by (simp add: truncate_value_eq [OF assms(1-3)])
  next
    case False
    then show ?thesis by (simp add: truncate_value_eq [OF assms(1-3)] u64_try_from_def q)
  qed
qed

end
