(* ===== verification/Gnosis_Config.thy ===== *)
theory Gnosis_Config
  imports Eth_Data_Types
begin

text \<open>
  The audit configuration, \<open>src/gnosis/config.rs\<close>: audited tokens, audited safes and the lookups
  by contract and safe address, which use the case-insensitive equality of addresses.
  \<open>load_from_path\<close> takes the file system and the TOML and JSON readers as parameters.
\<close>

record audited_token =
  at_token_id :: token_id
  at_token_type :: string
  at_eth_token_contract_addrs :: "eth_addr list"
  at_name :: string
  at_symbol :: string
  at_decimals :: u8
  at_logo_uri :: string
  at_aux_burn_contract_addr :: eth_addr
  at_aux_burn_function_sig :: bytes

record audited_safe_config =
  asc_safe_addr :: eth_addr
  asc_api_url :: string
  asc_tokens :: "audited_token list"
  asc_token_decimals_max :: u8

definition addrs_contain :: "eth_addr list \<Rightarrow> eth_addr \<Rightarrow> bool" where
  "addrs_contain addrs a = list_ex (\<lambda>x. eth_addr_eq x a) addrs"

definition get_token_by_eth_contract_addr ::
  "audited_safe_config \<Rightarrow> eth_addr \<Rightarrow> audited_token option" where
  "get_token_by_eth_contract_addr cfg eth_contract_addr =
     List.find (\<lambda>token. addrs_contain (at_eth_token_contract_addrs token) eth_contract_addr)
       (asc_tokens cfg)"

record gnosis_safe_config =
  gsc_safes :: "audited_safe_config list"

definition load_from_path ::
  "(string \<Rightarrow> (string, string) res) \<Rightarrow> (string \<Rightarrow> string option)
   \<Rightarrow> (string \<Rightarrow> (string, gnosis_safe_config) res) \<Rightarrow> (string \<Rightarrow> (string, gnosis_safe_config) res)
   \<Rightarrow> string \<Rightarrow> (gnosis_error, gnosis_safe_config) res" where
  "load_from_path read_to_string extension toml_from_str json_from_str path =
     rbind (map_err GnosisIo (read_to_string path)) (\<lambda>data.
       case extension path of
         None \<Rightarrow> Err PathExtension
       | Some e \<Rightarrow>
           if e = ''toml'' then map_err GnosisToml (toml_from_str data)
           else if e = ''json'' then map_err GnosisJson (json_from_str data)
           else Err (UnrecognizedExtension e))"

definition get_audited_safe_config_by_safe_addr ::
  "gnosis_safe_config \<Rightarrow> eth_addr \<Rightarrow> audited_safe_config option" where
  "get_audited_safe_config_by_safe_addr cfg safe_addr =
     List.find (\<lambda>safe. eth_addr_eq (asc_safe_addr safe) safe_addr) (gsc_safes cfg)"

section \<open>Lemmas\<close>

lemma get_token_by_eth_contract_addr_Some:
  "get_token_by_eth_contract_addr cfg a = Some t \<Longrightarrow>
     t \<in> set (asc_tokens cfg) \<and> addrs_contain (at_eth_token_contract_addrs t) a"
  unfolding get_token_by_eth_contract_addr_def by (drule find_Some_iff_in) simp

lemma get_audited_safe_config_by_safe_addr_Some:
  "get_audited_safe_config_by_safe_addr cfg a = Some c \<Longrightarrow>
     c \<in> set (gsc_safes cfg) \<and> eth_addr_eq (asc_safe_addr c) a"
  unfolding get_audited_safe_config_by_safe_addr_def by (drule find_Some_iff_in) simp

lemma eth_addr_eq_refl [simp]: "eth_addr_eq a a"
  by (simp add: eth_addr_eq_def)

lemma eth_addr_eq_sym: "eth_addr_eq a b \<longleftrightarrow> eth_addr_eq b a"
  by (auto simp: eth_addr_eq_def)

lemma eth_addr_eq_trans: "eth_addr_eq a b \<Longrightarrow> eth_addr_eq b c \<Longrightarrow> eth_addr_eq a c"
  by (simp add: eth_addr_eq_def)

lemma addrs_contain_cong: "eth_addr_eq a b \<Longrightarrow> addrs_contain xs a = addrs_contain xs b"
  by (simp add: addrs_contain_def eth_addr_eq_def)

end
