(* ===== verification/Schema.thy ===== *)
theory Schema
  imports Gnosis_Config
begin

text \<open>
  The database: the row types (the Diesel models under \<open>src/db/models\<close>), the twelve tables of
  \<open>src/db/schema.rs\<close>, the process state the database code runs in, and SQL insertion with the
  constraints the migration declares.

  A table is the list of its rows in rowid order; a query without ORDER BY returns rows in that
  order. Text columns hold the Rust values whose text form \<open>Eth_Data_Types\<close> shows to be
  invertible. The \<open>id\<close> columns of \<open>block_audit_data\<close> and \<open>block_balance\<close> are not modelled:
  no code reads them. Failures of the engine itself (I/O, locking) are not modelled.

  The locale \<open>sql_table\<close> is the interface the models use to insert: what it fixes is how a table
  sits in the database and where a row keeps its id; its lemmas say what an insertion does.
\<close>

section \<open>Row types\<close>

record block_audit_data =
  bad_block_index :: i64

record block_balance =
  bb_block_index :: i64
  bb_token_id :: i64
  bb_balance :: i64

record mint_config_tx =
  mct_id :: "i32 option"
  mct_block_index :: i64
  mct_block_timestamp :: "datetime option"
  mct_token_id :: i64
  mct_nonce_hex :: string
  mct_total_mint_limit :: i64
  mct_tombstone_block :: i64
  mct_protobuf :: bytes

record mint_config =
  mc_id :: "i32 option"
  mc_mint_config_tx_id :: i32
  mc_mint_limit :: i64
  mc_protobuf :: bytes

record mint_tx =
  mt_id :: "i32 option"
  mt_block_index :: i64
  mt_block_timestamp :: "datetime option"
  mt_token_id :: i64
  mt_amount :: i64
  mt_nonce_hex :: string
  mt_recipient_b58_addr :: string
  mt_tombstone_block :: i64
  mt_protobuf :: bytes
  mt_mint_config_id :: "i32 option"

record burn_tx_out =
  bto_id :: "i32 option"
  bto_block_index :: i64
  bto_block_timestamp :: "datetime option"
  bto_token_id :: i64
  bto_amount :: i64
  bto_public_key_hex :: string
  bto_protobuf :: bytes

record gnosis_safe_tx =
  gst_eth_tx_hash :: string
  gst_raw_tx_json :: string

record gnosis_safe_deposit =
  gsd_id :: "i32 option"
  gsd_eth_tx_hash :: eth_tx_hash
  gsd_execution_date :: datetime
  gsd_eth_tx_value :: eth_tx_value
  gsd_eth_block_number :: i64
  gsd_safe_addr :: eth_addr
  gsd_token_addr :: eth_addr
  gsd_from_addr :: eth_addr
  gsd_amount :: i64
  gsd_expected_mc_mint_tx_nonce_hex :: string

record gnosis_safe_withdrawal =
  gsw_id :: "i32 option"
  gsw_eth_tx_hash :: eth_tx_hash
  gsw_execution_date :: datetime
  gsw_eth_tx_value :: eth_tx_value
  gsw_eth_block_number :: i64
  gsw_safe_addr :: eth_addr
  gsw_token_addr :: eth_addr
  gsw_to_addr :: eth_addr
  gsw_amount :: i64
  gsw_mc_tx_out_public_key_hex :: string

record audited_mint =
  am_id :: "i32 option"
  am_mint_tx_id :: i32
  am_gnosis_safe_deposit_id :: i32

record audited_burn =
  ab_id :: "i32 option"
  ab_burn_tx_out_id :: i32
  ab_gnosis_safe_withdrawal_id :: i32

record counters =
  ctr_id :: i32
  num_blocks_synced :: i64
  num_burns_exceeding_balance :: i64
  num_mint_txs_without_matching_mint_config :: i64
  num_mismatching_mints_and_deposits :: i64
  num_mismatching_burns_and_withdrawals :: i64
  num_unknown_ethereum_token_deposits :: i64
  num_unknown_ethereum_token_withdrawals :: i64
  num_mints_to_unknown_safe :: i64
  num_burns_from_unknown_safe :: i64
  num_invalid_ethereum_transactions :: i64
  num_invalid_multi_sig_transactions :: i64
  num_unexpected_errors_matching_deposits_to_mints :: i64
  num_unexpected_errors_matching_mints_to_deposits :: i64
  num_unexpected_errors_matching_withdrawals_to_burns :: i64
  num_unexpected_errors_matching_burns_to_withdrawals :: i64

section \<open>The database and the process state\<close>

record database =
  t_audited_burns :: "audited_burn list"
  t_audited_mints :: "audited_mint list"
  t_block_audit_data :: "block_audit_data list"
  t_block_balance :: "block_balance list"
  t_burn_tx_outs :: "burn_tx_out list"
  t_counters :: "counters list"
  t_gnosis_safe_deposits :: "gnosis_safe_deposit list"
  t_gnosis_safe_txs :: "gnosis_safe_tx list"
  t_gnosis_safe_withdrawals :: "gnosis_safe_withdrawal list"
  t_mint_config_txs :: "mint_config_tx list"
  t_mint_configs :: "mint_config list"
  t_mint_txs :: "mint_tx list"

text \<open>The process state: the database, the Prometheus metrics of \<open>src/counters.rs\<close> (in
  \<open>Counter_Table\<close>; here one record of the same shape as the counters table, and the one
  monotone counter), the rowid of the last insertion, and the time spent sleeping between
  retries, in milliseconds. A rollback restores the database only.\<close>

record state =
  st_db :: database
  st_gauges :: counters
  st_num_failed_gnosis_get_all_transaction_data :: nat
  st_last_insert_rowid :: i32
  st_slept_ms :: nat

text \<open>\<open>Counters::default()\<close>, and the state of a process on a newly migrated database.\<close>

definition counters_default :: counters where
  "counters_default = \<lparr>ctr_id = 0, num_blocks_synced = 0, num_burns_exceeding_balance = 0,
     num_mint_txs_without_matching_mint_config = 0, num_mismatching_mints_and_deposits = 0,
     num_mismatching_burns_and_withdrawals = 0, num_unknown_ethereum_token_deposits = 0,
     num_unknown_ethereum_token_withdrawals = 0, num_mints_to_unknown_safe = 0,
     num_burns_from_unknown_safe = 0, num_invalid_ethereum_transactions = 0,
     num_invalid_multi_sig_transactions = 0, num_unexpected_errors_matching_deposits_to_mints = 0,
     num_unexpected_errors_matching_mints_to_deposits = 0,
     num_unexpected_errors_matching_withdrawals_to_burns = 0,
     num_unexpected_errors_matching_burns_to_withdrawals = 0\<rparr>"

definition empty_database :: database where
  "empty_database = \<lparr>t_audited_burns = [], t_audited_mints = [], t_block_audit_data = [],
     t_block_balance = [], t_burn_tx_outs = [], t_counters = [], t_gnosis_safe_deposits = [],
     t_gnosis_safe_txs = [], t_gnosis_safe_withdrawals = [], t_mint_config_txs = [],
     t_mint_configs = [], t_mint_txs = []\<rparr>"

definition initial_state :: state where
  "initial_state = \<lparr>st_db = empty_database, st_gauges = counters_default,
     st_num_failed_gnosis_get_all_transaction_data = 0, st_last_insert_rowid = 0, st_slept_ms = 0\<rparr>"

type_synonym 'a dbm = "(state, error, 'a) comp"

definition query :: "(database \<Rightarrow> 'a) \<Rightarrow> 'a dbm" where
  "query f = (\<lambda>s. (Ok (f (st_db s)), s))"

section \<open>Insertion\<close>

text \<open>\<open>sql_insert\<close> inserts a row into a table with an INTEGER PRIMARY KEY. A row without an id
  gets a new one; the primary key and the table's UNIQUE constraints are checked first (\<open>uniq\<close>
  names the violated one), then the foreign keys. \<open>last_insert_rowid()\<close> is the new row's id.\<close>

definition unique_violation :: "string \<Rightarrow> error" where
  "unique_violation col =
     error_from_diesel (DatabaseError UniqueViolation (''UNIQUE constraint failed: '' @ col))"

definition fk_violation :: error where
  "fk_violation =
     error_from_diesel (DatabaseError ForeignKeyViolation ''FOREIGN KEY constraint failed'')"

definition row_ids :: "('r \<Rightarrow> i32 option) \<Rightarrow> 'r list \<Rightarrow> i32 list" where
  "row_ids rid t = List.map_filter rid t"

definition sql_insert ::
  "ext \<Rightarrow> ('r \<Rightarrow> i32 option) \<Rightarrow> (i32 \<Rightarrow> 'r \<Rightarrow> 'r) \<Rightarrow> (database \<Rightarrow> 'r list)
   \<Rightarrow> ('r list \<Rightarrow> database \<Rightarrow> database) \<Rightarrow> (database \<Rightarrow> 'r \<Rightarrow> string option)
   \<Rightarrow> (database \<Rightarrow> 'r \<Rightarrow> bool) \<Rightarrow> 'r \<Rightarrow> unit dbm" where
  "sql_insert X rid set_rid get put uniq fk r = (\<lambda>s.
     let d = st_db s; t = get d;
         i = (case rid r of None \<Rightarrow> new_rowid X (row_ids rid t) | Some j \<Rightarrow> j)
     in case (if i \<in> set (row_ids rid t) then Some ''id'' else uniq d r) of
          Some col \<Rightarrow> (Err (unique_violation col), s)
        | None \<Rightarrow>
            if \<not> fk d r then (Err fk_violation, s)
            else (Ok (), s\<lparr>st_db := put (t @ [set_rid i r]) d, st_last_insert_rowid := i\<rparr>))"

definition last_insert_rowid :: "i32 dbm" where
  "last_insert_rowid = (\<lambda>s. (Ok (st_last_insert_rowid s), s))"

text \<open>The insertions of the seven tables, with the constraints of
  \<open>migrations/2022-05-24-214504_create_initial/up.sql\<close>.\<close>

definition insert_into_mint_config_txs :: "ext \<Rightarrow> mint_config_tx \<Rightarrow> unit dbm" where
  "insert_into_mint_config_txs X = sql_insert X mct_id (\<lambda>i r. r\<lparr>mct_id := Some i\<rparr>)
     t_mint_config_txs (\<lambda>t d. d\<lparr>t_mint_config_txs := t\<rparr>)
     (\<lambda>d r. if list_ex (\<lambda>x. mct_nonce_hex x = mct_nonce_hex r) (t_mint_config_txs d)
             then Some ''mint_config_txs.nonce_hex''
             else if list_ex (\<lambda>x. mct_block_index x = mct_block_index r
                               \<and> mct_token_id x = mct_token_id r) (t_mint_config_txs d)
             then Some ''mint_config_txs.block_index, mint_config_txs.token_id''
             else None)
     (\<lambda>d r. True)"

definition insert_into_mint_configs :: "ext \<Rightarrow> mint_config \<Rightarrow> unit dbm" where
  "insert_into_mint_configs X = sql_insert X mc_id (\<lambda>i r. r\<lparr>mc_id := Some i\<rparr>)
     t_mint_configs (\<lambda>t d. d\<lparr>t_mint_configs := t\<rparr>)
     (\<lambda>d r. None)
     (\<lambda>d r. list_ex (\<lambda>x. mct_id x = Some (mc_mint_config_tx_id r)) (t_mint_config_txs d))"

definition insert_into_mint_txs :: "ext \<Rightarrow> mint_tx \<Rightarrow> unit dbm" where
  "insert_into_mint_txs X = sql_insert X mt_id (\<lambda>i r. r\<lparr>mt_id := Some i\<rparr>)
     t_mint_txs (\<lambda>t d. d\<lparr>t_mint_txs := t\<rparr>)
     (\<lambda>d r. if list_ex (\<lambda>x. mt_nonce_hex x = mt_nonce_hex r) (t_mint_txs d)
             then Some ''mint_txs.nonce_hex'' else None)
     (\<lambda>d r. case mt_mint_config_id r of None \<Rightarrow> True
              | Some c \<Rightarrow> list_ex (\<lambda>x. mc_id x = Some c) (t_mint_configs d))"

definition insert_into_burn_tx_outs :: "ext \<Rightarrow> burn_tx_out \<Rightarrow> unit dbm" where
  "insert_into_burn_tx_outs X = sql_insert X bto_id (\<lambda>i r. r\<lparr>bto_id := Some i\<rparr>)
     t_burn_tx_outs (\<lambda>t d. d\<lparr>t_burn_tx_outs := t\<rparr>)
     (\<lambda>d r. if list_ex (\<lambda>x. bto_public_key_hex x = bto_public_key_hex r) (t_burn_tx_outs d)
             then Some ''burn_tx_outs.public_key_hex'' else None)
     (\<lambda>d r. True)"

definition insert_into_gnosis_safe_deposits :: "ext \<Rightarrow> gnosis_safe_deposit \<Rightarrow> unit dbm" where
  "insert_into_gnosis_safe_deposits X = sql_insert X gsd_id (\<lambda>i r. r\<lparr>gsd_id := Some i\<rparr>)
     t_gnosis_safe_deposits (\<lambda>t d. d\<lparr>t_gnosis_safe_deposits := t\<rparr>)
     (\<lambda>d r. if list_ex (\<lambda>x. sql_eth_tx_hash_to_sql X (gsd_eth_tx_hash x)
                          = sql_eth_tx_hash_to_sql X (gsd_eth_tx_hash r)) (t_gnosis_safe_deposits d)
             then Some ''gnosis_safe_deposits.eth_tx_hash'' else None)
     (\<lambda>d r. list_ex (\<lambda>x. gst_eth_tx_hash x = sql_eth_tx_hash_to_sql X (gsd_eth_tx_hash r))
              (t_gnosis_safe_txs d))"

definition insert_into_gnosis_safe_withdrawals :: "ext \<Rightarrow> gnosis_safe_withdrawal \<Rightarrow> unit dbm" where
  "insert_into_gnosis_safe_withdrawals X = sql_insert X gsw_id (\<lambda>i r. r\<lparr>gsw_id := Some i\<rparr>)
     t_gnosis_safe_withdrawals (\<lambda>t d. d\<lparr>t_gnosis_safe_withdrawals := t\<rparr>)
     (\<lambda>d r. if list_ex (\<lambda>x. sql_eth_tx_hash_to_sql X (gsw_eth_tx_hash x)
                          = sql_eth_tx_hash_to_sql X (gsw_eth_tx_hash r)) (t_gnosis_safe_withdrawals d)
             then Some ''gnosis_safe_withdrawals.eth_tx_hash'' else None)
     (\<lambda>d r. list_ex (\<lambda>x. gst_eth_tx_hash x = sql_eth_tx_hash_to_sql X (gsw_eth_tx_hash r))
              (t_gnosis_safe_txs d))"

definition insert_into_audited_mints :: "ext \<Rightarrow> audited_mint \<Rightarrow> unit dbm" where
  "insert_into_audited_mints X = sql_insert X am_id (\<lambda>i r. r\<lparr>am_id := Some i\<rparr>)
     t_audited_mints (\<lambda>t d. d\<lparr>t_audited_mints := t\<rparr>)
     (\<lambda>d r. None)
     (\<lambda>d r. list_ex (\<lambda>x. mt_id x = Some (am_mint_tx_id r)) (t_mint_txs d)
        \<and> list_ex (\<lambda>x. gsd_id x = Some (am_gnosis_safe_deposit_id r)) (t_gnosis_safe_deposits d))"

definition insert_into_audited_burns :: "ext \<Rightarrow> audited_burn \<Rightarrow> unit dbm" where
  "insert_into_audited_burns X = sql_insert X ab_id (\<lambda>i r. r\<lparr>ab_id := Some i\<rparr>)
     t_audited_burns (\<lambda>t d. d\<lparr>t_audited_burns := t\<rparr>)
     (\<lambda>d r. None)
     (\<lambda>d r. list_ex (\<lambda>x. bto_id x = Some (ab_burn_tx_out_id r)) (t_burn_tx_outs d)
        \<and> list_ex (\<lambda>x. gsw_id x = Some (ab_gnosis_safe_withdrawal_id r)) (t_gnosis_safe_withdrawals d))"

section \<open>The table interface\<close>

text \<open>The id column of a table is a primary key: every row has a positive id and no two rows share
  one.\<close>

definition ids_ok :: "('r \<Rightarrow> i32 option) \<Rightarrow> 'r list \<Rightarrow> bool" where
  "ids_ok rid t \<longleftrightarrow> distinct (map rid t) \<and> (\<forall>r \<in> set t. \<exists>i. rid r = Some i \<and> 0 < i)"

locale sql_table =
  fixes rid :: "'r \<Rightarrow> i32 option" and set_rid :: "i32 \<Rightarrow> 'r \<Rightarrow> 'r"
    and get :: "database \<Rightarrow> 'r list" and put :: "'r list \<Rightarrow> database \<Rightarrow> database"
  assumes rid_set: "rid (set_rid i r) = Some i"
    and get_put: "get (put t d) = t"
begin

lemma row_ids_set: "i \<in> set (row_ids rid t) \<longleftrightarrow> (\<exists>r \<in> set t. rid r = Some i)"
  by (force simp: row_ids_def List.map_filter_def)

lemma insert_OkD:
  assumes "sql_insert X rid set_rid get put uniq fk r s = (Ok u, s')"
  shows "\<exists>i. s' = s\<lparr>st_db := put (get (st_db s) @ [set_rid i r]) (st_db s), st_last_insert_rowid := i\<rparr>
    \<and> i = (case rid r of None \<Rightarrow> new_rowid X (row_ids rid (get (st_db s))) | Some j \<Rightarrow> j)
    \<and> (\<forall>x \<in> set (get (st_db s)). rid x \<noteq> Some i) \<and> uniq (st_db s) r = None \<and> fk (st_db s) r"
  using assms unfolding sql_insert_def Let_def
  by (auto simp: row_ids_set split: if_splits option.splits)

lemma insert_OkE:
  assumes "sql_insert X rid set_rid get put uniq fk r s = (Ok u, s')"
  obtains i where
    "s' = s\<lparr>st_db := put (get (st_db s) @ [set_rid i r]) (st_db s), st_last_insert_rowid := i\<rparr>"
    and "uniq (st_db s) r = None" and "fk (st_db s) r"
  using insert_OkD [OF assms] by blast

lemma insert_Err:
  assumes "sql_insert X rid set_rid get put uniq fk r s = (Err e, s')"
  shows "s' = s" and "\<not> should_retry e"
  using assms unfolding sql_insert_def Let_def
  by (auto simp: unique_violation_def fk_violation_def split: if_splits option.splits)

lemma insert_no_panic: "sql_insert X rid set_rid get put uniq fk r s \<noteq> (Panic p, s')"
  unfolding sql_insert_def Let_def by (auto split: option.splits)

lemma insert_ids_ok:
  assumes "rowid_alloc (new_rowid X)" and "ids_ok rid (get (st_db s))" and "rid r = None"
    and "sql_insert X rid set_rid get put uniq fk r s = (Ok u, s')"
  shows "ids_ok rid (get (st_db s'))"
proof -
  let ?t = "get (st_db s)" and ?i = "new_rowid X (row_ids rid (get (st_db s)))"
  have pos: "\<forall>i \<in> set (row_ids rid ?t). 0 < i"
    using assms(2) by (fastforce simp: row_ids_set ids_ok_def)
  have i: "?i \<notin> set (row_ids rid ?t)" "0 < ?i"
    using rowid_alloc.new_fresh [OF assms(1) pos] rowid_alloc.new_pos [OF assms(1) pos] by auto
  have "get (st_db s') = ?t @ [set_rid ?i r]"
    using insert_OkD [OF assms(4)] assms(3) by (auto simp: get_put)
  then show ?thesis
    using assms(2) i by (auto simp: ids_ok_def rid_set row_ids_set image_iff)
qed

lemma keeps_insert_ids:
  assumes "rowid_alloc (new_rowid X)" and "rid r = None"
  shows "keeps (\<lambda>s. ids_ok rid (get (st_db s))) (sql_insert X rid set_rid get put uniq fk r)"
proof (rule keepsI)
  fix s :: state assume ok: "ids_ok rid (get (st_db s))"
  obtain x s' where run: "sql_insert X rid set_rid get put uniq fk r s = (x, s')" by fastforce
  show "ids_ok rid (get (st_db (snd (sql_insert X rid set_rid get put uniq fk r s))))"
    using insert_ids_ok [OF assms(1) ok assms(2)] insert_Err(1) [of X uniq fk r s _ s'] insert_no_panic
      run ok by (cases x) auto
qed

text \<open>Without an id of its own a row cannot collide on the primary key.\<close>

lemma insert_new:
  assumes "rowid_alloc (new_rowid X)" and "ids_ok rid (get (st_db s))" and "rid r = None"
    and "uniq (st_db s) r = None" and "fk (st_db s) r"
  shows "\<exists>i. sql_insert X rid set_rid get put uniq fk r s =
     (Ok (), s\<lparr>st_db := put (get (st_db s) @ [set_rid i r]) (st_db s), st_last_insert_rowid := i\<rparr>)"
proof -
  let ?t = "get (st_db s)"
  have "\<forall>i \<in> set (row_ids rid ?t). 0 < i"
    using assms(2) by (fastforce simp: row_ids_set ids_ok_def)
  then have "new_rowid X (row_ids rid ?t) \<notin> set (row_ids rid ?t)"
    by (rule rowid_alloc.new_fresh [OF assms(1)])
  then show ?thesis
    using assms(3-5)
    by (intro exI [of _ "new_rowid X (row_ids rid ?t)"]) (simp add: sql_insert_def Let_def)
qed

end

interpretation mct: sql_table mct_id "\<lambda>i r. r\<lparr>mct_id := Some i\<rparr>" t_mint_config_txs "\<lambda>t d. d\<lparr>t_mint_config_txs := t\<rparr>"
  by unfold_locales simp_all

interpretation mc: sql_table mc_id "\<lambda>i r. r\<lparr>mc_id := Some i\<rparr>" t_mint_configs "\<lambda>t d. d\<lparr>t_mint_configs := t\<rparr>"
  by unfold_locales simp_all

interpretation mt: sql_table mt_id "\<lambda>i r. r\<lparr>mt_id := Some i\<rparr>" t_mint_txs "\<lambda>t d. d\<lparr>t_mint_txs := t\<rparr>"
  by unfold_locales simp_all

interpretation bto: sql_table bto_id "\<lambda>i r. r\<lparr>bto_id := Some i\<rparr>" t_burn_tx_outs "\<lambda>t d. d\<lparr>t_burn_tx_outs := t\<rparr>"
  by unfold_locales simp_all

interpretation gsd: sql_table gsd_id "\<lambda>i r. r\<lparr>gsd_id := Some i\<rparr>" t_gnosis_safe_deposits
    "\<lambda>t d. d\<lparr>t_gnosis_safe_deposits := t\<rparr>"
  by unfold_locales simp_all

interpretation gsw: sql_table gsw_id "\<lambda>i r. r\<lparr>gsw_id := Some i\<rparr>" t_gnosis_safe_withdrawals
    "\<lambda>t d. d\<lparr>t_gnosis_safe_withdrawals := t\<rparr>"
  by unfold_locales simp_all

interpretation am: sql_table am_id "\<lambda>i r. r\<lparr>am_id := Some i\<rparr>" t_audited_mints "\<lambda>t d. d\<lparr>t_audited_mints := t\<rparr>"
  by unfold_locales simp_all

interpretation ab: sql_table ab_id "\<lambda>i r. r\<lparr>ab_id := Some i\<rparr>" t_audited_burns "\<lambda>t d. d\<lparr>t_audited_burns := t\<rparr>"
  by unfold_locales simp_all

section \<open>Lemmas\<close>

lemma query_eq [simp]: "query f s = (Ok (f (st_db s)), s)"
  by (simp add: query_def)

lemma keeps_query [keeps_intros]: "keeps I (query f)"
  by (simp add: keeps_def)

lemma keeps_sql_insert:
  assumes "\<And>d t. I (put t d) = I d"
  shows "keeps (\<lambda>s. I (st_db s)) (sql_insert X rid set_rid get put uniq fk r)"
  by (auto simp: keeps_def sql_insert_def Let_def assms split: option.split)

lemma last_insert_rowid_eq [simp]: "last_insert_rowid s = (Ok (st_last_insert_rowid s), s)"
  by (simp add: last_insert_rowid_def)

text \<open>An invariant that survives a new row of the table survives the insertion.\<close>

lemma keeps_sql_append:
  assumes "\<And>d r. I d \<Longrightarrow> I (put (get d @ [r]) d)"
  shows "keeps (\<lambda>s. I (st_db s)) (sql_insert X rid set_rid get put uniq fk r)"
  by (auto simp: keeps_def sql_insert_def Let_def assms split: option.split)

lemma keeps_last_insert_rowid [keeps_intros]: "keeps I last_insert_rowid"
  by (simp add: keeps_def)

lemma bnd_query [simp]: "bnd (query f) g s = g (f (st_db s)) s"
  by (simp add: bnd_def)

lemma ids_ok_inj:
  "ids_ok rid t \<Longrightarrow> a \<in> set t \<Longrightarrow> b \<in> set t \<Longrightarrow> rid a = rid b \<Longrightarrow> a = b"
  unfolding ids_ok_def by (meson distinct_map inj_onD)

lemma ids_ok_find:
  assumes "ids_ok rid t" and "r \<in> set t" and "rid r = Some i"
  shows "List.find (\<lambda>x. rid x = Some i) t = Some r"
proof -
  have "List.find (\<lambda>x. rid x = Some i) t \<noteq> None"
    using assms(2,3) by (auto simp: find_None_iff)
  then obtain x where x: "List.find (\<lambda>x. rid x = Some i) t = Some x" by blast
  then have "x = r" using find_Some_iff_in [OF x] ids_ok_inj [OF assms(1)] assms by metis
  with x show ?thesis by simp
qed

end
