(* ===== verification/Transaction.thy ===== *)
theory Transaction
  imports Schema
begin

text \<open>
  Transactions, \<open>src/db/transaction.rs\<close>. \<open>conn_transaction\<close> is Diesel's \<open>Connection::transaction\<close>
  (and \<open>exclusive_transaction\<close>): the changes of the closure are kept when it returns a value and
  rolled back when it returns an error; a panic leaves the transaction uncommitted, so its changes
  are lost as well. Metrics and sleeping are not part of the database and survive a rollback.
  \<open>transaction\<close> is the retry loop. The lemmas give its exact number of attempts and sleeps, its
  atomicity, and the rules by which the rest of the development reasons about it.
\<close>

definition rollback :: "state \<Rightarrow> state \<Rightarrow> state" where
  "rollback before after = after\<lparr>st_db := st_db before\<rparr>"

definition conn_transaction :: "'a dbm \<Rightarrow> 'a dbm" where
  "conn_transaction f = (\<lambda>s. case f s of
      (Ok x, s') \<Rightarrow> (Ok x, s')
    | (Err e, s') \<Rightarrow> (Err e, rollback s s')
    | (Panic p, s') \<Rightarrow> (Panic p, rollback s s'))"

definition BASE_DELAY :: nat where
  "BASE_DELAY = 10"

definition NUM_RETRIES :: nat where
  "NUM_RETRIES = 5"

definition sleep :: "nat \<Rightarrow> state \<Rightarrow> state" where
  "sleep ms s = s\<lparr>st_slept_ms := st_slept_ms s + ms\<rparr>"

text \<open>\<open>for i in 0..NUM_RETRIES\<close>, as recursion over the values \<open>i\<close> takes.\<close>

primrec retry_loop :: "nat list \<Rightarrow> 'a dbm \<Rightarrow> 'a dbm" where
  "retry_loop [] f = lift_res (Panic ''Should never reach this point.'')"
| "retry_loop (i # is) f = (\<lambda>s. case conn_transaction f s of
      (Ok r, s') \<Rightarrow> (Ok r, s')
    | (Panic p, s') \<Rightarrow> (Panic p, s')
    | (Err e, s') \<Rightarrow>
        if \<not> should_retry e \<or> i = NUM_RETRIES - 1 then (Err e, s')
        else retry_loop is f (sleep (BASE_DELAY * 2 ^ i) s'))"

definition transaction :: "'a dbm \<Rightarrow> 'a dbm" where
  "transaction f = retry_loop [0..<NUM_RETRIES] f"

section \<open>One attempt\<close>

lemma rollback_simps [simp]:
  "st_db (rollback a b) = st_db a" "st_gauges (rollback a b) = st_gauges b"
  "st_slept_ms (rollback a b) = st_slept_ms b"
  "st_last_insert_rowid (rollback a b) = st_last_insert_rowid b"
  "st_num_failed_gnosis_get_all_transaction_data (rollback a b)
     = st_num_failed_gnosis_get_all_transaction_data b"
  by (simp_all add: rollback_def)

lemma rollback_same [simp]: "rollback s s = s"
  by (simp add: rollback_def)

lemma sleep_simps [simp]: "st_db (sleep n s) = st_db s" "st_gauges (sleep n s) = st_gauges s"
  by (simp_all add: sleep_def)

lemma conn_transaction_Ok: "conn_transaction f s = (Ok x, s') \<longleftrightarrow> f s = (Ok x, s')"
  by (auto simp: conn_transaction_def split: prod.splits res.splits)

lemma conn_transaction_Err:
  "conn_transaction f s = (Err e, s') \<longleftrightarrow> (\<exists>t. f s = (Err e, t) \<and> s' = rollback s t)"
  by (auto simp: conn_transaction_def split: prod.splits res.splits)

lemma conn_transaction_Panic:
  "conn_transaction f s = (Panic p, s') \<longleftrightarrow> (\<exists>t. f s = (Panic p, t) \<and> s' = rollback s t)"
  by (auto simp: conn_transaction_def split: prod.splits res.splits)

section \<open>The retry loop\<close>

lemma NUM_RETRIES_upt: "[0..<NUM_RETRIES] = [0, 1, 2, 3, 4]"
  by (simp add: NUM_RETRIES_def upt_conv_Cons)

text \<open>A closure that returns a value, panics, or fails with an error that is not retried runs
  once.\<close>

lemma transaction_once:
  assumes "\<And>e t. f s = (Err e, t) \<Longrightarrow> \<not> should_retry e"
  shows "transaction f s = conn_transaction f s"
  using assms unfolding transaction_def NUM_RETRIES_upt
  by (auto simp: conn_transaction_def split: prod.splits res.splits)

lemma transaction_Ok [simp]: "f s = (Ok x, s') \<Longrightarrow> transaction f s = (Ok x, s')"
  by (subst transaction_once) (auto simp: conn_transaction_def)

lemma transaction_Err [simp]:
  "f s = (Err e, s') \<Longrightarrow> \<not> should_retry e \<Longrightarrow> transaction f s = (Err e, rollback s s')"
  by (subst transaction_once) (auto simp: conn_transaction_def)

lemma transaction_Panic [simp]: "f s = (Panic p, s') \<Longrightarrow> transaction f s = (Panic p, rollback s s')"
  by (subst transaction_once) (auto simp: conn_transaction_def)

text \<open>Atomicity of the loop: whatever happens in the attempts, either the closure returned a value
  from a state with the original database and its changes are kept, or the database is as it
  was.\<close>

lemma retry_loop_atomic:
  assumes "retry_loop is f s = (r, s')"
  shows "(\<exists>x t. r = Ok x \<and> st_db t = st_db s \<and> f t = (Ok x, s')) \<or>
         ((\<forall>x. r \<noteq> Ok x) \<and> st_db s' = st_db s)"
  using assms
proof (induction "is" arbitrary: s)
  case Nil
  then show ?case by (auto simp: lift_res_def)
next
  case (Cons i "is")
  obtain r1 s1 where run: "conn_transaction f s = (r1, s1)" by fastforce
  show ?case
  proof (cases r1)
    case (Ok x)
    with run have "f s = (Ok x, s1)" by (simp add: conn_transaction_Ok)
    with run Cons.prems Ok show ?thesis by auto
  next
    case (Panic p)
    with run have "st_db s1 = st_db s" by (auto simp: conn_transaction_Panic)
    with run Cons.prems Panic show ?thesis by auto
  next
    case (Err e)
    with run have db: "st_db s1 = st_db s" by (auto simp: conn_transaction_Err)
    show ?thesis
    proof (cases "\<not> should_retry e \<or> i = NUM_RETRIES - 1")
      case True
      with Cons.prems run Err db show ?thesis by auto
    next
      case False
      with Cons.prems run Err
      have "retry_loop is f (sleep (BASE_DELAY * 2 ^ i) s1) = (r, s')" by simp
      from Cons.IH [OF this] db show ?thesis by simp
    qed
  qed
qed

lemma transaction_atomic:
  assumes "transaction f s = (r, s')"
  shows "(\<exists>x t. r = Ok x \<and> st_db t = st_db s \<and> f t = (Ok x, s')) \<or>
         ((\<forall>x. r \<noteq> Ok x) \<and> st_db s' = st_db s)"
  using retry_loop_atomic assms unfolding transaction_def by blast

text \<open>A transaction that ends in an error or a panic leaves the database exactly as it was,
  however many attempts were made and whatever the closure had already written; one that returns
  a value keeps what the closure wrote in an attempt that started from the original database.\<close>

lemma transaction_all_or_nothing:
  "(case transaction f s of
      (Ok x, s') \<Rightarrow> (\<exists>t. st_db t = st_db s \<and> f t = (Ok x, s'))
    | (Err e, s') \<Rightarrow> st_db s' = st_db s
    | (Panic p, s') \<Rightarrow> st_db s' = st_db s)"
  using transaction_atomic by (fastforce split: prod.splits res.splits)

text \<open>C29: the retry loop ends after at most five attempts: a closure that keeps failing with a
  retriable error (a connection could not be taken from the pool) makes it return that error, not
  the panic at the loop's end, after sleeping 10 + 20 + 40 + 80 milliseconds; a closure whose error
  is not retriable is run once and never slept for.\<close>

theorem transaction_retries:
  assumes "\<And>t. f t = (Err e, t)"
  shows "transaction f s =
    (Err e, if should_retry e then s\<lparr>st_slept_ms := st_slept_ms s + 150\<rparr> else s)"
proof -
  have "conn_transaction f t = (Err e, t)" for t
    by (simp add: conn_transaction_def assms)
  then show ?thesis
    unfolding transaction_def NUM_RETRIES_upt
    by (simp add: NUM_RETRIES_def BASE_DELAY_def sleep_def)
qed

theorem transaction_retries_witness:
  "transaction (throw (R2d2Pool ''timed out'')) initial_state =
     (Err (R2d2Pool ''timed out'') :: (error, unit) res, initial_state\<lparr>st_slept_ms := 150\<rparr>)
   \<and> transaction (throw NotFound) initial_state = (Err NotFound :: (error, unit) res, initial_state)"
  using transaction_retries [of "throw (R2d2Pool ''timed out'') :: unit dbm" _ initial_state]
    transaction_retries [of "throw NotFound :: unit dbm" _ initial_state]
  by (simp add: throw_def initial_state_def)

section \<open>Rules\<close>

text \<open>A property of the database alone is kept by a transaction around code that keeps it.\<close>

lemma keeps_conn_transaction [keeps_intros]:
  "keeps (\<lambda>s. I (st_db s)) f \<Longrightarrow> keeps (\<lambda>s. I (st_db s)) (conn_transaction f)"
  by (auto simp: keeps_def conn_transaction_def split: prod.splits res.splits)

lemma keeps_transaction [keeps_intros]:
  assumes "keeps (\<lambda>s. I (st_db s)) f"
  shows "keeps (\<lambda>s. I (st_db s)) (transaction f)"
proof (rule keepsI)
  fix s :: state assume I: "I (st_db s)"
  obtain r s' where run: "transaction f s = (r, s')" by fastforce
  from transaction_atomic [OF run] show "I (st_db (snd (transaction f s)))"
  proof
    assume "\<exists>x t. r = Ok x \<and> st_db t = st_db s \<and> f t = (Ok x, s')"
    then obtain x t where "st_db t = st_db s" and "f t = (Ok x, s')" by blast
    with assms I run show ?thesis by (metis keeps_def snd_conv)
  next
    assume "(\<forall>x. r \<noteq> Ok x) \<and> st_db s' = st_db s"
    with I run show ?thesis by simp
  qed
qed

text \<open>Computations whose errors are never retried.\<close>

definition no_retry :: "'a dbm \<Rightarrow> bool" where
  "no_retry m \<longleftrightarrow> (\<forall>s e s'. m s = (Err e, s') \<longrightarrow> \<not> should_retry e)"

named_theorems no_retry_intros "rules for goals that the errors of a computation are not retried"

lemma no_retryD: "no_retry m \<Longrightarrow> m s = (Err e, s') \<Longrightarrow> \<not> should_retry e"
  unfolding no_retry_def by blast

lemma no_retry_basic [no_retry_intros]:
  "no_retry (ret x)" "no_retry (query f)" "no_retry last_insert_rowid"
  "no_retry (lift_res (Panic p))" "no_retry (expect_some q y)" "no_retry (attempt m)"
  by (auto simp: no_retry_def comp_defs attempt_def split: option.splits prod.splits res.splits)

lemma no_retry_throw [no_retry_intros]: "\<not> should_retry e \<Longrightarrow> no_retry (throw e)"
  by (simp add: no_retry_def throw_def)

lemma no_retry_ok_or [no_retry_intros]: "\<not> should_retry e \<Longrightarrow> no_retry (ok_or e x)"
  by (auto simp: no_retry_def comp_defs split: option.splits)

lemma no_retry_lift_res [no_retry_intros]:
  "(\<And>e. r = Err e \<Longrightarrow> \<not> should_retry e) \<Longrightarrow> no_retry (lift_res r)"
  by (simp add: no_retry_def lift_res_def)

lemma no_retry_bnd [no_retry_intros]:
  "no_retry m \<Longrightarrow> (\<And>x. no_retry (f x)) \<Longrightarrow> no_retry (bnd m f)"
  unfolding no_retry_def by (metis bnd_eq_ErrE)

lemma no_retry_expect [no_retry_intros]: "no_retry (expect p m)"
  by (auto simp: no_retry_def expect_def split: prod.splits res.splits)

lemma no_retry_for_each [no_retry_intros]:
  "(\<And>x. no_retry (f x)) \<Longrightarrow> no_retry (for_each f xs)"
  by (induction xs) (auto intro!: no_retry_intros)

lemma no_retry_fold_m [no_retry_intros]:
  "(\<And>x b. no_retry (f x b)) \<Longrightarrow> no_retry (fold_m f xs b)"
  by (induction xs arbitrary: b) (auto intro!: no_retry_intros)

lemma no_retry_if [no_retry_intros]:
  "(c \<Longrightarrow> no_retry a) \<Longrightarrow> (\<not> c \<Longrightarrow> no_retry b) \<Longrightarrow> no_retry (if c then a else b)"
  by simp

lemma no_retry_case_option [no_retry_intros]:
  "no_retry a \<Longrightarrow> (\<And>y. no_retry (f y)) \<Longrightarrow> no_retry (case x of None \<Rightarrow> a | Some y \<Rightarrow> f y)"
  by (cases x) auto

lemma no_retry_case_prod [no_retry_intros]:
  "(\<And>a b. no_retry (f a b)) \<Longrightarrow> no_retry (case x of (a, b) \<Rightarrow> f a b)"
  by (cases x) auto

lemma no_retry_conn_transaction [no_retry_intros]: "no_retry f \<Longrightarrow> no_retry (conn_transaction f)"
  by (auto simp: no_retry_def conn_transaction_Err)

lemma transaction_no_retry: "no_retry f \<Longrightarrow> transaction f = conn_transaction f"
  by (rule ext, rule transaction_once) (auto dest: no_retryD)

lemma no_retry_transaction [no_retry_intros]: "no_retry f \<Longrightarrow> no_retry (transaction f)"
  by (simp add: transaction_no_retry no_retry_conn_transaction)

lemma sql_insert_no_retry [no_retry_intros]: "no_retry (sql_insert X rid set_rid get put uniq fk r)"
  by (auto simp: no_retry_def sql_insert_def Let_def unique_violation_def fk_violation_def
      split: option.splits if_splits)

end
