(* ===== verification/Counter_Table.thy ===== *)
theory Counter_Table
  imports Transaction
begin

text \<open>
  The counters table, \<open>src/db/models/counters.rs\<close>, and the Prometheus gauges it is copied to.
  \<open>impl_get\<close> and \<open>impl_inc\<close> are the bodies the macro \<open>impl_get_and_inc!\<close> generates for each
  counter; the fifteen increments are its instances. The lemmas show what an increment does when
  the table has its one row, when it has none, and that the gauges then show the table.
\<close>

definition impl_get :: "(counters \<Rightarrow> i64) \<Rightarrow> counters \<Rightarrow> u64" where
  "impl_get var_name c = as_u64 (var_name c)"

definition update_prometheus :: "counters \<Rightarrow> state \<Rightarrow> state" where
  "update_prometheus c s = s\<lparr>st_gauges := (st_gauges s)\<lparr>
      num_blocks_synced := num_blocks_synced c,
      num_burns_exceeding_balance := num_burns_exceeding_balance c,
      num_mint_txs_without_matching_mint_config := num_mint_txs_without_matching_mint_config c,
      num_mismatching_mints_and_deposits := num_mismatching_mints_and_deposits c,
      num_mismatching_burns_and_withdrawals := num_mismatching_burns_and_withdrawals c,
      num_unknown_ethereum_token_deposits := num_unknown_ethereum_token_deposits c,
      num_unknown_ethereum_token_withdrawals := num_unknown_ethereum_token_withdrawals c,
      num_mints_to_unknown_safe := num_mints_to_unknown_safe c,
      num_burns_from_unknown_safe := num_burns_from_unknown_safe c,
      num_invalid_ethereum_transactions := num_invalid_ethereum_transactions c,
      num_invalid_multi_sig_transactions := num_invalid_multi_sig_transactions c,
      num_unexpected_errors_matching_deposits_to_mints :=
        num_unexpected_errors_matching_deposits_to_mints c,
      num_unexpected_errors_matching_mints_to_deposits :=
        num_unexpected_errors_matching_mints_to_deposits c,
      num_unexpected_errors_matching_withdrawals_to_burns :=
        num_unexpected_errors_matching_withdrawals_to_burns c,
      num_unexpected_errors_matching_burns_to_withdrawals :=
        num_unexpected_errors_matching_burns_to_withdrawals c\<rparr>\<rparr>"

definition counters_get :: "counters dbm" where
  "counters_get = query (\<lambda>d. case t_counters d of [] \<Rightarrow> counters_default | c # _ \<Rightarrow> c)"

text \<open>\<open>UPDATE counters SET v = v + 1\<close>, returning the number of rows.\<close>

definition update_counters :: "(counters \<Rightarrow> counters) \<Rightarrow> nat dbm" where
  "update_counters f = (\<lambda>s.
     (Ok (length (t_counters (st_db s))),
      s\<lparr>st_db := (st_db s)\<lparr>t_counters := map f (t_counters (st_db s))\<rparr>\<rparr>))"

definition impl_inc :: "((i64 \<Rightarrow> i64) \<Rightarrow> counters \<Rightarrow> counters) \<Rightarrow> unit dbm" where
  "impl_inc var_name_update =
     bnd (update_counters (var_name_update (\<lambda>v. v + 1))) (\<lambda>num_rows.
     bnd (if num_rows = 0 then throw NotFound
          else if num_rows = 1 then ret ()
          else throw (Other (''$var_name: unexpected number of rows ('' @ show_nat num_rows @ '')''))) (\<lambda>_.
     bnd counters_get (\<lambda>c s. (Ok (), update_prometheus c s))))"

definition inc_num_blocks_synced :: "unit dbm" where
  "inc_num_blocks_synced = impl_inc num_blocks_synced_update"

definition inc_num_burns_exceeding_balance :: "unit dbm" where
  "inc_num_burns_exceeding_balance = impl_inc num_burns_exceeding_balance_update"

definition inc_num_mint_txs_without_matching_mint_config :: "unit dbm" where
  "inc_num_mint_txs_without_matching_mint_config =
     impl_inc num_mint_txs_without_matching_mint_config_update"

definition inc_num_mismatching_mints_and_deposits :: "unit dbm" where
  "inc_num_mismatching_mints_and_deposits = impl_inc num_mismatching_mints_and_deposits_update"

definition inc_num_mismatching_burns_and_withdrawals :: "unit dbm" where
  "inc_num_mismatching_burns_and_withdrawals = impl_inc num_mismatching_burns_and_withdrawals_update"

definition inc_num_unknown_ethereum_token_deposits :: "unit dbm" where
  "inc_num_unknown_ethereum_token_deposits = impl_inc num_unknown_ethereum_token_deposits_update"

definition inc_num_unknown_ethereum_token_withdrawals :: "unit dbm" where
  "inc_num_unknown_ethereum_token_withdrawals =
     impl_inc num_unknown_ethereum_token_withdrawals_update"

definition inc_num_mints_to_unknown_safe :: "unit dbm" where
  "inc_num_mints_to_unknown_safe = impl_inc num_mints_to_unknown_safe_update"

definition inc_num_burns_from_unknown_safe :: "unit dbm" where
  "inc_num_burns_from_unknown_safe = impl_inc num_burns_from_unknown_safe_update"

definition inc_num_invalid_ethereum_transactions :: "unit dbm" where
  "inc_num_invalid_ethereum_transactions = impl_inc num_invalid_ethereum_transactions_update"

definition inc_num_invalid_multi_sig_transactions :: "unit dbm" where
  "inc_num_invalid_multi_sig_transactions = impl_inc num_invalid_multi_sig_transactions_update"

definition inc_num_unexpected_errors_matching_deposits_to_mints :: "unit dbm" where
  "inc_num_unexpected_errors_matching_deposits_to_mints =
     impl_inc num_unexpected_errors_matching_deposits_to_mints_update"

definition inc_num_unexpected_errors_matching_mints_to_deposits :: "unit dbm" where
  "inc_num_unexpected_errors_matching_mints_to_deposits =
     impl_inc num_unexpected_errors_matching_mints_to_deposits_update"

definition inc_num_unexpected_errors_matching_withdrawals_to_burns :: "unit dbm" where
  "inc_num_unexpected_errors_matching_withdrawals_to_burns =
     impl_inc num_unexpected_errors_matching_withdrawals_to_burns_update"

definition inc_num_unexpected_errors_matching_burns_to_withdrawals :: "unit dbm" where
  "inc_num_unexpected_errors_matching_burns_to_withdrawals =
     impl_inc num_unexpected_errors_matching_burns_to_withdrawals_update"

definition insert_into_counters :: "counters \<Rightarrow> unit dbm" where
  "insert_into_counters c = (\<lambda>s.
     if list_ex (\<lambda>x. ctr_id x = ctr_id c) (t_counters (st_db s))
     then (Err (unique_violation ''counters.id''), s)
     else (Ok (), s\<lparr>st_db := (st_db s)\<lparr>t_counters := t_counters (st_db s) @ [c]\<rparr>\<rparr>))"

definition ensure_exists :: "unit dbm" where
  "ensure_exists = transaction (
     bnd (query t_counters) (\<lambda>rows.
       case rows of
         [] \<Rightarrow> insert_into_counters counters_default
       | _ # _ \<Rightarrow> ret ()))"

section \<open>Increments\<close>

lemmas inc_defs = inc_num_blocks_synced_def inc_num_burns_exceeding_balance_def
  inc_num_mint_txs_without_matching_mint_config_def inc_num_mismatching_mints_and_deposits_def
  inc_num_mismatching_burns_and_withdrawals_def inc_num_unknown_ethereum_token_deposits_def
  inc_num_unknown_ethereum_token_withdrawals_def inc_num_mints_to_unknown_safe_def
  inc_num_burns_from_unknown_safe_def inc_num_invalid_ethereum_transactions_def
  inc_num_invalid_multi_sig_transactions_def
  inc_num_unexpected_errors_matching_deposits_to_mints_def
  inc_num_unexpected_errors_matching_mints_to_deposits_def
  inc_num_unexpected_errors_matching_withdrawals_to_burns_def
  inc_num_unexpected_errors_matching_burns_to_withdrawals_def

text \<open>\<open>set_counters\<close> is what an increment does to the state when the table has one row.\<close>

definition set_counters :: "counters \<Rightarrow> state \<Rightarrow> state" where
  "set_counters c s = update_prometheus c (s\<lparr>st_db := (st_db s)\<lparr>t_counters := [c]\<rparr>\<rparr>)"

lemma update_prometheus_db [simp]:
  "st_db (update_prometheus c s) = st_db s" "st_slept_ms (update_prometheus c s) = st_slept_ms s"
  "st_last_insert_rowid (update_prometheus c s) = st_last_insert_rowid s"
  by (simp_all add: update_prometheus_def)

lemma set_counters_db [simp]: "st_db (set_counters c s) = (st_db s)\<lparr>t_counters := [c]\<rparr>"
  by (simp add: set_counters_def)

lemma counters_get_one [simp]: "t_counters (st_db s) = [c] \<Longrightarrow> counters_get s = (Ok c, s)"
  by (simp add: counters_get_def)

lemma counters_get_Ok: "counters_get s = (Ok (case t_counters (st_db s) of
    [] \<Rightarrow> counters_default | c # _ \<Rightarrow> c), s)"
  by (simp add: counters_get_def)

lemma impl_inc_one [simp]:
  "t_counters (st_db s) = [c] \<Longrightarrow>
     impl_inc upd s = (Ok (), set_counters (upd (\<lambda>v. v + 1) c) s)"
  by (simp add: impl_inc_def update_counters_def bnd_def counters_get_def ret_def set_counters_def)

lemma inc_one:
  assumes "t_counters (st_db s) = [c]"
  shows
    "inc_num_blocks_synced s =
       (Ok (), set_counters (c\<lparr>num_blocks_synced := num_blocks_synced c + 1\<rparr>) s)"
    "inc_num_burns_exceeding_balance s =
       (Ok (), set_counters (c\<lparr>num_burns_exceeding_balance := num_burns_exceeding_balance c + 1\<rparr>) s)"
    "inc_num_mint_txs_without_matching_mint_config s =
       (Ok (), set_counters (c\<lparr>num_mint_txs_without_matching_mint_config :=
          num_mint_txs_without_matching_mint_config c + 1\<rparr>) s)"
  using assms by (cases c, simp_all add: inc_defs)+

lemma impl_inc_empty:
  "t_counters (st_db s) = [] \<Longrightarrow> fst (impl_inc upd s) = Err NotFound \<and> st_db (snd (impl_inc upd s)) = st_db s"
  by (simp add: impl_inc_def update_counters_def bnd_def throw_def)

lemma no_retry_impl_inc [no_retry_intros]: "no_retry (impl_inc upd)"
  unfolding impl_inc_def
  by (rule no_retry_bnd)
    (auto simp: no_retry_def update_counters_def throw_def ret_def counters_get_def bnd_def
      split: if_splits)

lemma no_retry_counters_get [no_retry_intros]: "no_retry counters_get"
  by (simp add: counters_get_def no_retry_intros)

text \<open>Invariants of the database that do not read the counters table are kept by increments.\<close>

lemma keeps_impl_inc:
  assumes "\<And>d c. I (d\<lparr>t_counters := c\<rparr>) = I d"
  shows "keeps (\<lambda>s. I (st_db s)) (impl_inc upd)"
  unfolding impl_inc_def
  by (intro keeps_bnd keeps_if keeps_throw keeps_ret)
    (auto simp: keeps_def update_counters_def counters_get_def assms)

lemma keeps_counters_get [keeps_intros]: "keeps I counters_get"
  by (simp add: counters_get_def keeps_query)

text \<open>The one-row property the counting code relies on.\<close>

definition one_counter_row :: "database \<Rightarrow> bool" where
  "one_counter_row d \<longleftrightarrow> (\<exists>c. t_counters d = [c])"

lemma one_counter_row_frame [simp]:
  "one_counter_row (d\<lparr>t_mint_txs := a\<rparr>) = one_counter_row d"
  "one_counter_row (d\<lparr>t_mint_configs := b\<rparr>) = one_counter_row d"
  "one_counter_row (d\<lparr>t_mint_config_txs := e\<rparr>) = one_counter_row d"
  "one_counter_row (d\<lparr>t_burn_tx_outs := f\<rparr>) = one_counter_row d"
  "one_counter_row (d\<lparr>t_audited_mints := g\<rparr>) = one_counter_row d"
  "one_counter_row (d\<lparr>t_audited_burns := h\<rparr>) = one_counter_row d"
  "one_counter_row (d\<lparr>t_block_audit_data := i\<rparr>) = one_counter_row d"
  "one_counter_row (d\<lparr>t_block_balance := j\<rparr>) = one_counter_row d"
  "one_counter_row (d\<lparr>t_gnosis_safe_txs := k\<rparr>) = one_counter_row d"
  "one_counter_row (d\<lparr>t_gnosis_safe_deposits := l\<rparr>) = one_counter_row d"
  "one_counter_row (d\<lparr>t_gnosis_safe_withdrawals := m\<rparr>) = one_counter_row d"
  by (simp_all add: one_counter_row_def)

lemma keeps_one_counter_row_inc [keeps_intros]: "keeps (\<lambda>s. one_counter_row (st_db s)) (impl_inc upd)"
  by (auto simp: keeps_def one_counter_row_def)

lemma ensure_exists_new:
  "t_counters (st_db s) = [] \<Longrightarrow>
     ensure_exists s = (Ok (), s\<lparr>st_db := (st_db s)\<lparr>t_counters := [counters_default]\<rparr>\<rparr>)"
  unfolding ensure_exists_def by (intro transaction_Ok) (simp add: insert_into_counters_def)

lemma ensure_exists_row: "t_counters (st_db s) = c # cs \<Longrightarrow> ensure_exists s = (Ok (), s)"
  unfolding ensure_exists_def by (intro transaction_Ok) (simp add: ret_def)

text \<open>Opening a database makes sure the counters table has its row, and opening it again changes
  nothing: after \<open>ensure_exists\<close> every increment succeeds, adds one to its own counter, and leaves
  the Prometheus gauges equal to the row.\<close>

lemma ensure_exists_then_inc:
  assumes "length (t_counters (st_db s)) \<le> 1" and "ensure_exists s = (r, s1)"
  shows "r = Ok () \<and> (\<exists>c. t_counters (st_db s1) = [c] \<and> ensure_exists s1 = (Ok (), s1)
    \<and> inc_num_blocks_synced s1 =
        (Ok (), set_counters (c\<lparr>num_blocks_synced := num_blocks_synced c + 1\<rparr>) s1)
    \<and> (\<forall>upd. impl_inc upd s1 = (Ok (), set_counters (upd (\<lambda>v. v + 1) c) s1)))
    \<and> (\<forall>c s. (st_gauges (set_counters c s))\<lparr>ctr_id := ctr_id c\<rparr> = c)"
proof -
  have gauges: "\<forall>c s. (st_gauges (set_counters c s))\<lparr>ctr_id := ctr_id c\<rparr> = c"
    by (simp add: set_counters_def update_prometheus_def)
  have *: "r = Ok () \<and> (\<exists>c. t_counters (st_db s1) = [c])"
  proof (cases "t_counters (st_db s)")
    case Nil
    with assms(2) ensure_exists_new [of s] show ?thesis by auto
  next
    case (Cons c cs)
    with assms(1) have "t_counters (st_db s) = [c]" by simp
    with assms(2) ensure_exists_row [OF Cons] show ?thesis by auto
  qed
  then obtain c where c: "t_counters (st_db s1) = [c]" by blast
  then have "ensure_exists s1 = (Ok (), s1)" by (rule ensure_exists_row)
  with c * gauges show ?thesis by (auto simp: inc_one)
qed

lemma ensure_exists_then_inc_example:
  "length (t_counters (st_db initial_state)) \<le> 1
   \<and> fst (ensure_exists initial_state) = Ok ()
   \<and> t_counters (st_db (snd (inc_num_blocks_synced (snd (ensure_exists initial_state)))))
       = [counters_default\<lparr>num_blocks_synced := 1\<rparr>]"
proof -
  let ?s1 = "snd (ensure_exists initial_state)"
  have len: "length (t_counters (st_db initial_state)) \<le> 1"
    by (simp add: initial_state_def empty_database_def)
  have e: "ensure_exists initial_state = (Ok (), initial_state\<lparr>st_db :=
      empty_database\<lparr>t_counters := [counters_default]\<rparr>\<rparr>)"
    using ensure_exists_new [of initial_state] by (simp add: initial_state_def empty_database_def)
  then have c: "t_counters (st_db ?s1) = [counters_default]" by simp
  from ensure_exists_then_inc [OF len e] have
    "inc_num_blocks_synced ?s1 =
       (Ok (), set_counters (counters_default\<lparr>num_blocks_synced := num_blocks_synced counters_default + 1\<rparr>) ?s1)"
    using c e by auto
  then have "t_counters (st_db (snd (inc_num_blocks_synced ?s1)))
       = [counters_default\<lparr>num_blocks_synced := 1\<rparr>]"
    by (simp add: counters_default_def)
  with len e show ?thesis by simp
qed

end
