(* ===== verification/Block_Tables.thy ===== *)
theory Block_Tables
  imports Counter_Table
begin

text \<open>
  Per-block data, \<open>src/db/models/block_audit_data.rs\<close> and \<open>src/db/models/block_balance.rs\<close>. A
  \<open>HashMap\<close> from token ids to balances is an association list with distinct keys, in whatever
  order the map iterates. The lemmas: what storing a balance map does, that reading it back gives
  the same map, and that the maps of other blocks are not touched.
\<close>

section \<open>Block audit data\<close>

definition block_audit_data_new :: "u64 \<Rightarrow> block_audit_data" where
  "block_audit_data_new block_index = \<lparr>bad_block_index = as_i64 block_index\<rparr>"

definition block_audit_data_block_index :: "block_audit_data \<Rightarrow> u64" where
  "block_audit_data_block_index b = as_u64 (bad_block_index b)"

definition block_audit_data_get :: "u64 \<Rightarrow> block_audit_data dbm" where
  "block_audit_data_get block_index =
     bnd (query (\<lambda>d. filter (\<lambda>r. bad_block_index r = as_i64 block_index) (t_block_audit_data d)))
       (\<lambda>rows. case rows of [] \<Rightarrow> throw (error_from_diesel DieselNotFound) | r # _ \<Rightarrow> ret r)"

text \<open>\<open>REPLACE INTO\<close>: a row with the same unique \<open>block_index\<close> is deleted first.\<close>

definition block_audit_data_set :: "block_audit_data \<Rightarrow> unit dbm" where
  "block_audit_data_set b = (\<lambda>s. (Ok (), s\<lparr>st_db := (st_db s)\<lparr>t_block_audit_data :=
     filter (\<lambda>r. bad_block_index r \<noteq> bad_block_index b) (t_block_audit_data (st_db s)) @ [b]\<rparr>\<rparr>))"

definition max_option :: "int list \<Rightarrow> int option" where
  "max_option xs = (case xs of [] \<Rightarrow> None | y # ys \<Rightarrow> Some (fold max ys y))"

definition last_synced_block_index :: "u64 option dbm" where
  "last_synced_block_index =
     query (\<lambda>d. map_option as_u64 (max_option (map bad_block_index (t_block_audit_data d))))"

definition last_block_audit_data :: "block_audit_data option dbm" where
  "last_block_audit_data = bnd last_synced_block_index (\<lambda>idx.
     case idx of None \<Rightarrow> ret None
     | Some block_index \<Rightarrow> bnd (block_audit_data_get block_index) (\<lambda>b. ret (Some b)))"

section \<open>Block balances\<close>

type_synonym balance_map = "(token_id \<times> u64) list"

definition block_balance_new :: "u64 \<Rightarrow> token_id \<Rightarrow> u64 \<Rightarrow> block_balance" where
  "block_balance_new block_index token_id balance =
     \<lparr>bb_block_index = as_i64 block_index, bb_token_id = as_i64 token_id, bb_balance = as_i64 balance\<rparr>"

definition block_balance_block_index :: "block_balance \<Rightarrow> u64" where
  "block_balance_block_index b = as_u64 (bb_block_index b)"

definition block_balance_token_id :: "block_balance \<Rightarrow> token_id" where
  "block_balance_token_id b = as_u64 (bb_token_id b)"

definition block_balance_balance :: "block_balance \<Rightarrow> u64" where
  "block_balance_balance b = as_u64 (bb_balance b)"

text \<open>Collecting pairs into a \<open>HashMap\<close>: a later pair overwrites an earlier one.\<close>

definition collect_map :: "('k \<times> 'v) list \<Rightarrow> ('k \<times> 'v) list" where
  "collect_map kvs = fold (\<lambda>(k, v) m. AList.update k v m) kvs []"

definition get_balances_for_block :: "u64 \<Rightarrow> balance_map dbm" where
  "get_balances_for_block block_index =
     bnd (query (\<lambda>d. map (\<lambda>r. (bb_token_id r, bb_balance r))
            (filter (\<lambda>r. bb_block_index r = as_i64 block_index) (t_block_balance d))))
       (\<lambda>rows. ret (collect_map (map (\<lambda>(token_id, balance). (as_u64 token_id, as_u64 balance)) rows)))"

definition insert_into_block_balance :: "block_balance \<Rightarrow> unit dbm" where
  "insert_into_block_balance b = (\<lambda>s. let d = st_db s in
     if list_ex (\<lambda>r. bb_block_index r = bb_block_index b \<and> bb_token_id r = bb_token_id b) (t_block_balance d)
     then (Err (unique_violation ''block_balance.block_index, block_balance.token_id''), s)
     else if \<not> list_ex (\<lambda>r. bad_block_index r = bb_block_index b) (t_block_audit_data d)
     then (Err fk_violation, s)
     else (Ok (), s\<lparr>st_db := d\<lparr>t_block_balance := t_block_balance d @ [b]\<rparr>\<rparr>))"

definition set_balances_for_block :: "u64 \<Rightarrow> balance_map \<Rightarrow> unit dbm" where
  "set_balances_for_block block_index balances = transaction (
     for_each (\<lambda>(token_id, balance). insert_into_block_balance
         \<lparr>bb_block_index = as_i64 block_index, bb_token_id = as_i64 token_id, bb_balance = as_i64 balance\<rparr>)
       balances)"

section \<open>Lemmas on block audit data\<close>

lemma fold_max_Max: "fold max ys y = Max (set (y # ys))" for y :: int
  by (rule Max.set_eq_fold [symmetric])

lemma max_option_Some: "xs \<noteq> [] \<Longrightarrow> max_option xs = Some (Max (set xs))"
  by (cases xs) (simp_all add: max_option_def fold_max_Max)

lemma block_audit_data_set_eq [simp]:
  "block_audit_data_set b s = (Ok (), s\<lparr>st_db := (st_db s)\<lparr>t_block_audit_data :=
     filter (\<lambda>r. bad_block_index r \<noteq> bad_block_index b) (t_block_audit_data (st_db s)) @ [b]\<rparr>\<rparr>)"
  by (simp add: block_audit_data_set_def)

lemma block_audit_data_get_Ok:
  "block_audit_data_get i s = (Ok b, s') \<Longrightarrow>
     s' = s \<and> b \<in> set (t_block_audit_data (st_db s)) \<and> bad_block_index b = as_i64 i"
  unfolding block_audit_data_get_def
  by (auto simp: comp_defs split: list.splits dest: arg_cong [of _ _ set] simp: filter_eq_Cons_iff)

lemma block_audit_data_get_missing:
  "\<forall>r \<in> set (t_block_audit_data (st_db s)). bad_block_index r \<noteq> as_i64 i \<Longrightarrow>
     block_audit_data_get i s = (Err NotFound, s)"
  by (simp add: block_audit_data_get_def throw_def filter_empty_conv)

lemma block_audit_data_get_present:
  assumes "\<exists>r \<in> set (t_block_audit_data (st_db s)). bad_block_index r = as_i64 i"
  shows "block_audit_data_get i s = (Ok (block_audit_data_new i), s)"
proof -
  let ?f = "filter (\<lambda>r. bad_block_index r = as_i64 i) (t_block_audit_data (st_db s))"
  have "?f \<noteq> []" using assms by (auto simp: filter_empty_conv)
  then obtain r rs where f: "?f = r # rs" by (cases ?f) auto
  then have "bad_block_index r = as_i64 i"
    by (auto simp: filter_eq_Cons_iff)
  then have "r = block_audit_data_new i" by (simp add: block_audit_data_new_def)
  with f show ?thesis by (simp add: block_audit_data_get_def ret_def)
qed

section \<open>Lemmas on balances\<close>

lemma map_of_collect_map_aux:
  "map_of (fold (\<lambda>(k, v) m. AList.update k v m) kvs m) = map_of m ++ map_of (rev kvs)"
proof (induction kvs arbitrary: m)
  case (Cons kv kvs)
  then show ?case by (cases kv) (simp add: fun_upd_def map_add_def fun_eq_iff split: option.split)
qed simp

lemma map_of_collect_map: "map_of (collect_map kvs) = map_of (rev kvs)"
  by (simp add: collect_map_def map_of_collect_map_aux)

lemma map_of_rev_distinct: "distinct (map fst kvs) \<Longrightarrow> map_of (rev kvs) = map_of kvs"
  by (rule map_of_inject_set [THEN iffD2]) (auto simp: rev_map [symmetric])

lemma distinct_collect_map: "distinct (map fst (collect_map kvs))"
proof -
  have "distinct (map fst m) \<Longrightarrow>
      distinct (map fst (fold (\<lambda>(k, v) m. AList.update k v m) kvs m))" for m
    by (induction kvs arbitrary: m) (auto intro: distinct_update)
  then show ?thesis by (simp add: collect_map_def)
qed

text \<open>The rows of a block, and the balance map they stand for.\<close>

definition block_rows :: "u64 \<Rightarrow> database \<Rightarrow> block_balance list" where
  "block_rows block_index d = filter (\<lambda>r. bb_block_index r = as_i64 block_index) (t_block_balance d)"

definition balance_rows :: "u64 \<Rightarrow> balance_map \<Rightarrow> block_balance list" where
  "balance_rows block_index balances = map (\<lambda>(t, b). block_balance_new block_index t b) balances"

lemma get_balances_for_block_eq:
  "get_balances_for_block block_index s =
     (Ok (collect_map (map (\<lambda>r. (block_balance_token_id r, block_balance_balance r))
        (block_rows block_index (st_db s)))), s)"
  by (simp add: get_balances_for_block_def block_rows_def ret_def block_balance_token_id_def
      block_balance_balance_def comp_def split_def)

lemma for_each_insert_balances:
  assumes "distinct (map fst balances)"
    and "\<forall>r \<in> set (t_block_balance (st_db s)). bb_block_index r = as_i64 block_index \<longrightarrow>
           bb_token_id r \<notin> as_i64 ` fst ` set balances"
    and "\<exists>r \<in> set (t_block_audit_data (st_db s)). bad_block_index r = as_i64 block_index"
  shows "for_each (\<lambda>(token_id, balance). insert_into_block_balance
         \<lparr>bb_block_index = as_i64 block_index, bb_token_id = as_i64 token_id, bb_balance = as_i64 balance\<rparr>)
       balances s = (Ok (), s\<lparr>st_db := (st_db s)\<lparr>t_block_balance :=
          t_block_balance (st_db s) @ balance_rows block_index balances\<rparr>\<rparr>)"
  using assms
proof (induction balances arbitrary: s)
  case Nil
  then show ?case by (simp add: ret_def balance_rows_def)
next
  case (Cons kv balances)
  obtain t b where kv: "kv = (t, b)" by (cases kv)
  let ?row = "\<lparr>bb_block_index = as_i64 block_index, bb_token_id = as_i64 t, bb_balance = as_i64 b\<rparr>"
  let ?s = "s\<lparr>st_db := (st_db s)\<lparr>t_block_balance := t_block_balance (st_db s) @ [?row]\<rparr>\<rparr>"
  have "insert_into_block_balance ?row s = (Ok (), ?s)"
    using Cons.prems by (auto simp: insert_into_block_balance_def Let_def list_ex_iff kv)
  moreover have "for_each (\<lambda>(token_id, balance). insert_into_block_balance
         \<lparr>bb_block_index = as_i64 block_index, bb_token_id = as_i64 token_id, bb_balance = as_i64 balance\<rparr>)
       balances ?s = (Ok (), ?s\<lparr>st_db := (st_db ?s)\<lparr>t_block_balance :=
          t_block_balance (st_db ?s) @ balance_rows block_index balances\<rparr>\<rparr>)"
    using Cons.prems by (intro Cons.IH) (auto simp: kv image_iff)
  ultimately show ?case
    by (simp add: kv balance_rows_def block_balance_new_def)
qed

lemma set_balances_for_block_Ok:
  assumes "distinct (map fst balances)" and "block_rows block_index (st_db s) = []"
    and "\<exists>r \<in> set (t_block_audit_data (st_db s)). bad_block_index r = as_i64 block_index"
  shows "set_balances_for_block block_index balances s =
    (Ok (), s\<lparr>st_db := (st_db s)\<lparr>t_block_balance :=
       t_block_balance (st_db s) @ balance_rows block_index balances\<rparr>\<rparr>)"
  unfolding set_balances_for_block_def
  by (intro transaction_Ok for_each_insert_balances)
    (use assms in \<open>auto simp: block_rows_def filter_empty_conv\<close>)

lemma block_rows_balance_rows:
  "block_rows i (d\<lparr>t_block_balance := t_block_balance d @ balance_rows j balances\<rparr>) =
     block_rows i d @ (if i = j then balance_rows j balances else [])"
proof -
  have "\<forall>r \<in> set (balance_rows j balances). bb_block_index r = as_i64 j"
    by (auto simp: balance_rows_def block_balance_new_def)
  then show ?thesis by (auto simp: block_rows_def filter_empty_conv)
qed

lemma balance_rows_pairs:
  "map (\<lambda>r. (block_balance_token_id r, block_balance_balance r)) (balance_rows i balances) = balances"
  by (induction balances) (auto simp: balance_rows_def block_balance_new_def
      block_balance_token_id_def block_balance_balance_def)

text \<open>A balance map stored for a block that has audit data and no balances yet is read back
  unchanged, whatever its token ids and balances (all of \<open>u64\<close>, although the columns are signed);
  the maps of all other blocks are unchanged.\<close>

lemma balances_roundtrip:
  assumes "distinct (map fst balances)" and "block_rows block_index (st_db s) = []"
    and "\<exists>r \<in> set (t_block_audit_data (st_db s)). bad_block_index r = as_i64 block_index"
  shows "\<exists>s' m. set_balances_for_block block_index balances s = (Ok (), s')
    \<and> get_balances_for_block block_index s' = (Ok m, s') \<and> map_of m = map_of balances
    \<and> (\<forall>j. j \<noteq> block_index \<longrightarrow>
         fst (get_balances_for_block j s') = fst (get_balances_for_block j s))"
proof -
  let ?s = "s\<lparr>st_db := (st_db s)\<lparr>t_block_balance :=
       t_block_balance (st_db s) @ balance_rows block_index balances\<rparr>\<rparr>"
  let ?m = "collect_map balances"
  have "get_balances_for_block block_index ?s = (Ok ?m, ?s)"
    using assms(2) by (simp add: get_balances_for_block_eq block_rows_balance_rows balance_rows_pairs)
  moreover have "map_of ?m = map_of balances"
    using assms(1) by (simp add: map_of_collect_map map_of_rev_distinct)
  moreover have "\<forall>j. j \<noteq> block_index \<longrightarrow>
         fst (get_balances_for_block j ?s) = fst (get_balances_for_block j s)"
    by (simp add: get_balances_for_block_eq block_rows_balance_rows)
  ultimately show ?thesis
    using set_balances_for_block_Ok [OF assms] by blast
qed

lemma balances_roundtrip_example:
  "\<exists>s' m. set_balances_for_block 7 [(1, 10), (3, - 1)]
       (initial_state\<lparr>st_db := empty_database\<lparr>t_block_audit_data := [block_audit_data_new 7]\<rparr>\<rparr>) = (Ok (), s')
     \<and> get_balances_for_block 7 s' = (Ok m, s') \<and> map_of m 3 = Some (- 1)"
proof -
  let ?s = "initial_state\<lparr>st_db := empty_database\<lparr>t_block_audit_data := [block_audit_data_new 7]\<rparr>\<rparr>"
  have "distinct (map fst [(1 :: u64, 10 :: u64), (3, - 1)])" by simp
  moreover have "block_rows 7 (st_db ?s) = []" by (simp add: block_rows_def empty_database_def)
  moreover have "\<exists>r \<in> set (t_block_audit_data (st_db ?s)). bad_block_index r = as_i64 7"
    by (simp add: block_audit_data_new_def)
  ultimately obtain s' m where "set_balances_for_block 7 [(1, 10), (3, - 1)] ?s = (Ok (), s')"
    and "get_balances_for_block 7 s' = (Ok m, s')" and "map_of m = map_of [(1, 10), (3, - 1)]"
    using balances_roundtrip [of "[(1, 10), (3, - 1)]" 7 ?s] by blast
  then show ?thesis by fastforce
qed

section \<open>Frame rules\<close>

lemma keeps_block_audit_data_get [keeps_intros]: "keeps I (block_audit_data_get i)"
  unfolding block_audit_data_get_def
  by (rule keeps_bnd, rule keeps_query) (simp add: keeps_throw keeps_ret split: list.split)

lemma keeps_last_synced_block_index [keeps_intros]: "keeps I last_synced_block_index"
  by (simp add: last_synced_block_index_def keeps_query)

lemma keeps_get_balances_for_block [keeps_intros]: "keeps I (get_balances_for_block i)"
  by (simp add: get_balances_for_block_def keeps_intros)

lemma keeps_block_audit_data_set:
  "(\<And>d x. I (d\<lparr>t_block_audit_data := x\<rparr>) = I d) \<Longrightarrow> keeps (\<lambda>s. I (st_db s)) (block_audit_data_set b)"
  by (simp add: keeps_def)

lemma keeps_set_balances_for_block:
  assumes "\<And>d x. I (d\<lparr>t_block_balance := x\<rparr>) = I d"
  shows "keeps (\<lambda>s. I (st_db s)) (set_balances_for_block i balances)"
  unfolding set_balances_for_block_def
  by (intro keeps_transaction keeps_for_each)
    (auto simp: keeps_def insert_into_block_balance_def Let_def assms)

lemma no_retry_block_tables [no_retry_intros]:
  "no_retry (block_audit_data_get i)" "no_retry last_synced_block_index"
  "no_retry (get_balances_for_block i)" "no_retry (block_audit_data_set b)"
  "no_retry (insert_into_block_balance bb)"
  unfolding block_audit_data_get_def last_synced_block_index_def get_balances_for_block_def
  by (auto intro!: no_retry_intros split: list.split)
    (auto simp: no_retry_def insert_into_block_balance_def Let_def unique_violation_def fk_violation_def
      split: if_splits)

lemma no_retry_set_balances_for_block [no_retry_intros]: "no_retry (set_balances_for_block i b)"
  unfolding set_balances_for_block_def by (intro no_retry_intros)

end
