(* ===== verification/Mint_Config.thy ===== *)
theory Mint_Config
  imports Block_Tables
begin

text \<open>
  Mint configurations, \<open>src/db/models/mint_config.rs\<close> and \<open>src/db/models/mint_config_tx.rs\<close>. A
  mint config transaction and its configs are stored in one transaction; the totals minted under a
  config (or under all configs of a transaction) before a block are the sums the limits are checked
  against.
\<close>

section \<open>\<open>MintConfig\<close>\<close>

definition mint_config_id :: "mint_config \<Rightarrow> i32 option" where
  "mint_config_id c = mc_id c"

definition mint_config_mint_config_tx_id :: "mint_config \<Rightarrow> i32" where
  "mint_config_mint_config_tx_id c = mc_mint_config_tx_id c"

definition mint_config_mint_limit :: "mint_config \<Rightarrow> u64" where
  "mint_config_mint_limit c = as_u64 (mc_mint_limit c)"

definition mint_config_decode :: "ext \<Rightarrow> mint_config \<Rightarrow> (error, core_mint_config) res" where
  "mint_config_decode X c = map_err Decode (decode_mint_config X (mc_protobuf c))"

definition from_core_mint_config :: "ext \<Rightarrow> i32 \<Rightarrow> core_mint_config \<Rightarrow> mint_config" where
  "from_core_mint_config X mint_config_tx_id config =
     \<lparr>mc_id = None, mc_mint_config_tx_id = mint_config_tx_id,
      mc_mint_limit = as_i64 (cmc_mint_limit config), mc_protobuf = encode_mint_config X config\<rparr>"

text \<open>\<open>insert(&mut self)\<close> updates the object; the model returns the updated object.\<close>

definition mint_config_insert :: "ext \<Rightarrow> mint_config \<Rightarrow> mint_config dbm" where
  "mint_config_insert X c =
     bnd (insert_into_mint_configs X c) (\<lambda>_.
     bnd last_insert_rowid (\<lambda>i. ret (c\<lparr>mc_id := Some i\<rparr>)))"

definition insert_from_core_mint_config :: "ext \<Rightarrow> i32 \<Rightarrow> core_mint_config \<Rightarrow> mint_config dbm" where
  "insert_from_core_mint_config X mint_config_tx_id config =
     mint_config_insert X (from_core_mint_config X mint_config_tx_id config)"

definition get_by_mint_config_tx_id :: "i32 \<Rightarrow> mint_config list dbm" where
  "get_by_mint_config_tx_id mint_config_tx_id =
     query (\<lambda>d. filter (\<lambda>c. mc_mint_config_tx_id c = mint_config_tx_id) (t_mint_configs d))"

definition first_row :: "'r list \<Rightarrow> 'r option" where
  "first_row rows = (case rows of [] \<Rightarrow> None | r # _ \<Rightarrow> Some r)"

definition mint_config_get_by_id :: "i32 \<Rightarrow> mint_config option dbm" where
  "mint_config_get_by_id i =
     query (\<lambda>d. first_row (filter (\<lambda>c. mc_id c = Some i) (t_mint_configs d)))"

definition id_or_default :: "i32 option \<Rightarrow> i32" where
  "id_or_default x = (case x of None \<Rightarrow> 0 | Some i \<Rightarrow> i)"

text \<open>The inner joins of \<open>mint_txs\<close> with \<open>mint_configs\<close> and \<open>mint_config_txs\<close>.\<close>

definition minted_join :: "database \<Rightarrow> (mint_tx \<times> mint_config \<times> mint_config_tx) list" where
  "minted_join d = [(m, c, t). m \<leftarrow> t_mint_txs d, c \<leftarrow> t_mint_configs d, t \<leftarrow> t_mint_config_txs d,
     mt_mint_config_id m \<noteq> None, mt_mint_config_id m = mc_id c, mct_id t = Some (mc_mint_config_tx_id c)]"

definition mint_config_get_total_minted_before_block :: "mint_config \<Rightarrow> u64 \<Rightarrow> u64 dbm" where
  "mint_config_get_total_minted_before_block self block_index =
     bnd (query (\<lambda>d. map (\<lambda>(m, c, t). mt_amount m)
       (filter (\<lambda>(m, c, t). mct_block_index t < mt_block_index m
           \<and> mc_id c = Some (id_or_default (mc_id self))
           \<and> mt_block_index m < as_i64 block_index) (minted_join d))))
     (\<lambda>mint_amounts. ret (sum_list (map as_u64 mint_amounts)))"

section \<open>\<open>MintConfigTx\<close>\<close>

definition mint_config_tx_id :: "mint_config_tx \<Rightarrow> i32 option" where
  "mint_config_tx_id t = mct_id t"

definition mint_config_tx_block_index :: "mint_config_tx \<Rightarrow> u64" where
  "mint_config_tx_block_index t = as_u64 (mct_block_index t)"

definition mint_config_tx_block_timestamp :: "mint_config_tx \<Rightarrow> datetime option" where
  "mint_config_tx_block_timestamp t = mct_block_timestamp t"

definition mint_config_tx_token_id :: "mint_config_tx \<Rightarrow> token_id" where
  "mint_config_tx_token_id t = as_u64 (mct_token_id t)"

definition mint_config_tx_nonce_hex :: "mint_config_tx \<Rightarrow> string" where
  "mint_config_tx_nonce_hex t = mct_nonce_hex t"

definition mint_config_tx_total_mint_limit :: "mint_config_tx \<Rightarrow> u64" where
  "mint_config_tx_total_mint_limit t = as_u64 (mct_total_mint_limit t)"

definition mint_config_tx_tombstone_block :: "mint_config_tx \<Rightarrow> u64" where
  "mint_config_tx_tombstone_block t = as_u64 (mct_tombstone_block t)"

definition mint_config_tx_decode :: "ext \<Rightarrow> mint_config_tx \<Rightarrow> (error, core_mint_config_tx) res" where
  "mint_config_tx_decode X t = map_err Decode (decode_mint_config_tx X (mct_protobuf t))"

definition from_core_mint_config_tx ::
  "ext \<Rightarrow> u64 \<Rightarrow> datetime option \<Rightarrow> core_mint_config_tx \<Rightarrow> mint_config_tx" where
  "from_core_mint_config_tx X block_index block_timestamp tx =
     \<lparr>mct_id = None, mct_block_index = as_i64 block_index, mct_block_timestamp = block_timestamp,
      mct_token_id = as_i64 (cmct_token_id tx), mct_nonce_hex = hex_encode X (cmct_nonce tx),
      mct_total_mint_limit = as_i64 (cmct_total_mint_limit tx),
      mct_tombstone_block = as_i64 (cmct_tombstone_block tx),
      mct_protobuf = encode_mint_config_tx X tx\<rparr>"

definition mint_config_tx_insert :: "ext \<Rightarrow> mint_config_tx \<Rightarrow> mint_config_tx dbm" where
  "mint_config_tx_insert X self =
     bnd (lift_res (mint_config_tx_decode X self)) (\<lambda>core_mint_config_tx.
     bnd (transaction (
       bnd (insert_into_mint_config_txs X self) (\<lambda>_.
       bnd last_insert_rowid (\<lambda>mint_config_tx_id.
       bnd (for_each (\<lambda>config. bnd (insert_from_core_mint_config X mint_config_tx_id config) (\<lambda>_. ret ()))
              (cmct_configs core_mint_config_tx)) (\<lambda>_.
       ret mint_config_tx_id))))) (\<lambda>mint_config_tx_id.
     ret (self\<lparr>mct_id := Some mint_config_tx_id\<rparr>)))"

definition insert_from_core_mint_config_tx ::
  "ext \<Rightarrow> u64 \<Rightarrow> datetime option \<Rightarrow> core_mint_config_tx \<Rightarrow> mint_config_tx dbm" where
  "insert_from_core_mint_config_tx X block_index block_timestamp config_tx =
     mint_config_tx_insert X (from_core_mint_config_tx X block_index block_timestamp config_tx)"

definition most_recent_for_token :: "u64 \<Rightarrow> token_id \<Rightarrow> mint_config_tx option dbm" where
  "most_recent_for_token block_index token_id =
     query (\<lambda>d. first_row (sort_key (\<lambda>t. - mct_block_index t)
       (filter (\<lambda>t. mct_token_id t = as_i64 token_id \<and> mct_block_index t < as_i64 block_index)
          (t_mint_config_txs d))))"

definition mint_config_tx_get_by_id :: "i32 \<Rightarrow> mint_config_tx option dbm" where
  "mint_config_tx_get_by_id i =
     query (\<lambda>d. first_row (filter (\<lambda>t. mct_id t = Some i) (t_mint_config_txs d)))"

definition mint_config_tx_get_total_minted_before_block :: "mint_config_tx \<Rightarrow> u64 \<Rightarrow> u64 dbm" where
  "mint_config_tx_get_total_minted_before_block self block_index =
     bnd (query (\<lambda>d. map (\<lambda>(m, c, t). mt_amount m)
       (filter (\<lambda>(m, c, t). mct_block_index t < mt_block_index m
           \<and> mct_id t = Some (id_or_default (mct_id self))
           \<and> mt_block_index m < as_i64 block_index) (minted_join d))))
     (\<lambda>mint_amounts. ret (sum_list (map as_u64 mint_amounts)))"

text \<open>\<open>ORDER BY id\<close> on a primary key.\<close>

definition mint_config_tx_get_by_block_index :: "u64 \<Rightarrow> mint_config_tx list dbm" where
  "mint_config_tx_get_by_block_index block_index =
     query (\<lambda>d. sort_key (\<lambda>t. id_or_default (mct_id t))
       (filter (\<lambda>t. mct_block_index t = as_i64 block_index) (t_mint_config_txs d)))"

section \<open>Lemmas on queries\<close>

lemma first_row_Some: "first_row xs = Some x \<Longrightarrow> x \<in> set xs"
  by (auto simp: first_row_def split: list.splits)

lemma first_row_None [simp]: "first_row xs = None \<longleftrightarrow> xs = []"
  by (auto simp: first_row_def split: list.splits)

lemma first_row_Nil [simp]: "first_row [] = None"
  by simp

lemma first_row_eq_hd: "first_row xs = (if xs = [] then None else Some (hd xs))"
  by (auto simp: first_row_def split: list.splits)

lemma first_row_filter: "first_row (filter P xs) = List.find P xs"
  by (induction xs) (auto simp: first_row_def)

lemma hd_sort_key_le:
  assumes "first_row (sort_key f xs) = Some x" and "y \<in> set xs"
  shows "f x \<le> f y"
proof -
  have ne: "sort_key f xs \<noteq> []" and x: "x = hd (sort_key f xs)"
    using assms(1) by (auto simp: first_row_eq_hd split: if_splits)
  have "y \<in> set (sort_key f xs)" using assms(2) by simp
  then obtain i where i: "i < length (sort_key f xs)" "y = sort_key f xs ! i"
    unfolding in_set_conv_nth by blast
  have "sorted (map f (sort_key f xs))" by simp
  then have "map f (sort_key f xs) ! 0 \<le> map f (sort_key f xs) ! i"
    by (rule sorted_nth_mono) (use i in auto)
  then show ?thesis using ne i by (simp add: x hd_conv_nth del: length_sort)
qed

text \<open>The active mint config transaction of a token at a block is the stored one with the greatest
  block index strictly before the block.\<close>

lemma most_recent_for_token_Some:
  assumes "most_recent_for_token block_index token_id s = (Ok (Some t), s')"
  shows "s' = s" and "t \<in> set (t_mint_config_txs (st_db s))" and "mct_token_id t = as_i64 token_id"
    and "mct_block_index t < as_i64 block_index"
    and "\<And>u. u \<in> set (t_mint_config_txs (st_db s)) \<Longrightarrow> mct_token_id u = as_i64 token_id \<Longrightarrow>
           mct_block_index u < as_i64 block_index \<Longrightarrow> mct_block_index u \<le> mct_block_index t"
proof -
  let ?f = "filter (\<lambda>t. mct_token_id t = as_i64 token_id \<and> mct_block_index t < as_i64 block_index)
          (t_mint_config_txs (st_db s))"
  have r: "first_row (sort_key (\<lambda>t. - mct_block_index t) ?f) = Some t" and "s' = s"
    using assms by (auto simp: most_recent_for_token_def)
  from first_row_Some [OF r] have t: "t \<in> set ?f" by simp
  show "s' = s" by fact
  show "t \<in> set (t_mint_config_txs (st_db s))" and "mct_token_id t = as_i64 token_id"
    and "mct_block_index t < as_i64 block_index"
    using t by auto
  show "mct_block_index u \<le> mct_block_index t"
    if "u \<in> set (t_mint_config_txs (st_db s))" and "mct_token_id u = as_i64 token_id"
      and "mct_block_index u < as_i64 block_index" for u
    using hd_sort_key_le [OF r, of u] that by simp
qed

lemma most_recent_for_token_None:
  "most_recent_for_token block_index token_id s = (Ok None, s') \<longleftrightarrow>
     s' = s \<and> (\<forall>t \<in> set (t_mint_config_txs (st_db s)).
        mct_token_id t = as_i64 token_id \<longrightarrow> \<not> mct_block_index t < as_i64 block_index)"
proof -
  have "sort_key f xs = [] \<longleftrightarrow> xs = []" for f :: "mint_config_tx \<Rightarrow> int" and xs
    using set_sort [of f xs] by (metis set_empty)
  then show ?thesis by (auto simp: most_recent_for_token_def filter_empty_conv)
qed

section \<open>Lemmas on insertion\<close>

lemma insert_into_mint_configs_OkD:
  assumes "insert_into_mint_configs X c s = (Ok u, s')"
  shows "\<exists>i. s' = s\<lparr>st_db := (st_db s)\<lparr>t_mint_configs := t_mint_configs (st_db s) @ [c\<lparr>mc_id := Some i\<rparr>]\<rparr>,
      st_last_insert_rowid := i\<rparr>
    \<and> (\<exists>t \<in> set (t_mint_config_txs (st_db s)). mct_id t = Some (mc_mint_config_tx_id c))"
  using mc.insert_OkD [OF assms [unfolded insert_into_mint_configs_def]]
  by (fastforce simp: list_ex_iff)

lemma mint_config_insert_OkD:
  assumes "mint_config_insert X c s = (Ok c', s')"
  shows "\<exists>i. c' = c\<lparr>mc_id := Some i\<rparr>
    \<and> insert_into_mint_configs X c s = (Ok (), s')
    \<and> s' = s\<lparr>st_db := (st_db s)\<lparr>t_mint_configs := t_mint_configs (st_db s) @ [c']\<rparr>,
      st_last_insert_rowid := i\<rparr>
    \<and> (\<exists>t \<in> set (t_mint_config_txs (st_db s)). mct_id t = Some (mc_mint_config_tx_id c))"
proof -
  obtain u t where ins: "insert_into_mint_configs X c s = (Ok u, t)"
    and "bnd last_insert_rowid (\<lambda>i. ret (c\<lparr>mc_id := Some i\<rparr>)) t = (Ok c', s')"
    using assms unfolding mint_config_insert_def by (rule bnd_eq_OkE)
  then have "s' = t" and "c' = c\<lparr>mc_id := Some (st_last_insert_rowid t)\<rparr>"
    by (auto simp: ret_def)
  with insert_into_mint_configs_OkD [OF ins] ins show ?thesis by auto
qed

lemma no_retry_mint_config_insert [no_retry_intros]: "no_retry (mint_config_insert X c)"
  unfolding mint_config_insert_def insert_into_mint_configs_def by (intro no_retry_intros)

lemma no_retry_mint_config_tx_insert [no_retry_intros]: "no_retry (mint_config_tx_insert X t)"
  unfolding mint_config_tx_insert_def insert_from_core_mint_config_def insert_into_mint_config_txs_def
  by (intro no_retry_intros) (auto simp: mint_config_tx_decode_def map_err_def split: res.splits)

lemma no_retry_mint_config_queries [no_retry_intros]:
  "no_retry (get_by_mint_config_tx_id i)" "no_retry (mint_config_get_by_id i)"
  "no_retry (mint_config_get_total_minted_before_block c b)"
  "no_retry (mint_config_tx_get_total_minted_before_block t b)"
  "no_retry (most_recent_for_token b tk)" "no_retry (mint_config_tx_get_by_id i)"
  unfolding get_by_mint_config_tx_id_def mint_config_get_by_id_def
    mint_config_get_total_minted_before_block_def mint_config_tx_get_total_minted_before_block_def
    most_recent_for_token_def mint_config_tx_get_by_id_def
  by (intro no_retry_intros)+

lemma keeps_mint_config_queries [keeps_intros]:
  "keeps I (get_by_mint_config_tx_id i)" "keeps I (mint_config_get_by_id i)"
  "keeps I (mint_config_get_total_minted_before_block c b)"
  "keeps I (mint_config_tx_get_total_minted_before_block t b)"
  "keeps I (most_recent_for_token b tk)" "keeps I (mint_config_tx_get_by_id i)"
  unfolding get_by_mint_config_tx_id_def mint_config_get_by_id_def
    mint_config_get_total_minted_before_block_def mint_config_tx_get_total_minted_before_block_def
    most_recent_for_token_def mint_config_tx_get_by_id_def
  by (intro keeps_intros)+

end
