(* ===== verification/Mint_Burn_Tables.thy ===== *)
theory Mint_Burn_Tables
  imports Mint_Config
begin

text \<open>
  Mints and burns found in blocks, \<open>src/db/models/mint_tx.rs\<close> and
  \<open>src/db/models/burn_tx_out.rs\<close>: building a row from a ledger object, inserting it, the queries
  for rows that no audit entry refers to, and the details read back from the stored protobuf.
\<close>

section \<open>\<open>MintTx\<close>\<close>

definition mint_tx_id :: "mint_tx \<Rightarrow> i32 option" where
  "mint_tx_id m = mt_id m"

definition mint_tx_block_index :: "mint_tx \<Rightarrow> u64" where
  "mint_tx_block_index m = as_u64 (mt_block_index m)"

definition mint_tx_block_timestamp :: "mint_tx \<Rightarrow> datetime option" where
  "mint_tx_block_timestamp m = mt_block_timestamp m"

definition mint_tx_token_id :: "mint_tx \<Rightarrow> token_id" where
  "mint_tx_token_id m = as_u64 (mt_token_id m)"

definition mint_tx_amount :: "mint_tx \<Rightarrow> u64" where
  "mint_tx_amount m = as_u64 (mt_amount m)"

definition mint_tx_nonce_hex :: "mint_tx \<Rightarrow> string" where
  "mint_tx_nonce_hex m = mt_nonce_hex m"

definition mint_tx_recipient_b58_addr :: "mint_tx \<Rightarrow> string" where
  "mint_tx_recipient_b58_addr m = mt_recipient_b58_addr m"

definition mint_tx_tombstone_block :: "mint_tx \<Rightarrow> u64" where
  "mint_tx_tombstone_block m = as_u64 (mt_tombstone_block m)"

definition mint_tx_mint_config_id :: "mint_tx \<Rightarrow> i32 option" where
  "mint_tx_mint_config_id m = mt_mint_config_id m"

definition mint_tx_decode :: "ext \<Rightarrow> mint_tx \<Rightarrow> (error, core_mint_tx) res" where
  "mint_tx_decode X m = map_err Decode (decode_mint_tx X (mt_protobuf m))"

definition from_core_mint_tx ::
  "ext \<Rightarrow> u64 \<Rightarrow> datetime option \<Rightarrow> i32 option \<Rightarrow> core_mint_tx \<Rightarrow> (error, mint_tx) res" where
  "from_core_mint_tx X block_index block_timestamp config_id tx =
     rbind (map_err ApiDisplay (b58_address X (mtp_spend_public_key (cmt_prefix tx))
              (mtp_view_public_key (cmt_prefix tx)))) (\<lambda>recipient_b58_addr.
     Ok \<lparr>mt_id = None, mt_block_index = as_i64 block_index, mt_block_timestamp = block_timestamp,
         mt_token_id = as_i64 (mtp_token_id (cmt_prefix tx)),
         mt_amount = as_i64 (mtp_amount (cmt_prefix tx)),
         mt_nonce_hex = hex_encode X (mtp_nonce (cmt_prefix tx)),
         mt_recipient_b58_addr = recipient_b58_addr,
         mt_tombstone_block = as_i64 (mtp_tombstone_block (cmt_prefix tx)),
         mt_protobuf = encode_mint_tx X tx, mt_mint_config_id = config_id\<rparr>)"

definition mint_tx_insert :: "ext \<Rightarrow> mint_tx \<Rightarrow> mint_tx dbm" where
  "mint_tx_insert X self = (case mt_id self of
      Some i \<Rightarrow> throw (AlreadyExists (''MintTx already has an id ('' @ show_int i @ '')''))
    | None \<Rightarrow>
        bnd (insert_into_mint_txs X self) (\<lambda>_.
        bnd last_insert_rowid (\<lambda>i. ret (self\<lparr>mt_id := Some i\<rparr>))))"

definition insert_from_core_mint_tx ::
  "ext \<Rightarrow> u64 \<Rightarrow> datetime option \<Rightarrow> i32 option \<Rightarrow> core_mint_tx \<Rightarrow> mint_tx dbm" where
  "insert_from_core_mint_tx X block_index block_timestamp config_id tx =
     bnd (lift_res (from_core_mint_tx X block_index block_timestamp config_id tx))
       (mint_tx_insert X)"

definition mint_is_audited :: "database \<Rightarrow> mint_tx \<Rightarrow> bool" where
  "mint_is_audited d m = list_ex (\<lambda>a. Some (am_mint_tx_id a) = mt_id m) (t_audited_mints d)"

definition find_unaudited_mint_txs :: "mint_tx list dbm" where
  "find_unaudited_mint_txs = query (\<lambda>d. filter (\<lambda>m. \<not> mint_is_audited d m) (t_mint_txs d))"

definition find_unaudited_mint_tx_by_nonce :: "string \<Rightarrow> mint_tx option dbm" where
  "find_unaudited_mint_tx_by_nonce nonce_hex =
     query (\<lambda>d. first_row (filter (\<lambda>m. mt_nonce_hex m = nonce_hex \<and> \<not> mint_is_audited d m)
       (t_mint_txs d)))"

definition get_mint_amounts :: "token_id \<Rightarrow> (token_id \<times> u64) list dbm" where
  "get_mint_amounts token_id =
     bnd (query (\<lambda>d. map (\<lambda>m. (mt_token_id m, mt_amount m))
            (filter (\<lambda>m. mt_token_id m = as_i64 token_id) (t_mint_txs d))))
       (\<lambda>rows. ret (map (\<lambda>(token_id, balance). (as_u64 token_id, as_u64 balance)) rows))"

definition get_mint_txs_by_block_index :: "u64 \<Rightarrow> mint_tx list dbm" where
  "get_mint_txs_by_block_index block_index =
     query (\<lambda>d. sort_key (\<lambda>m. id_or_default (mt_id m))
       (filter (\<lambda>m. mt_block_index m = as_i64 block_index) (t_mint_txs d)))"

definition mint_tx_get_signers :: "ext \<Rightarrow> mint_tx \<Rightarrow> bytes list dbm" where
  "mint_tx_get_signers X self =
     bnd (lift_res (mint_tx_decode X self)) (\<lambda>core_mint_tx.
     bnd (ok_or ObjectNotSaved (mt_mint_config_id self)) (\<lambda>config_id.
     bnd (mint_config_get_by_id config_id) (\<lambda>row.
     bnd (ok_or NotFound row) (\<lambda>sql_mint_config.
     bnd (lift_res (mint_config_decode X sql_mint_config)) (\<lambda>mint_config.
     lift_res (map_err Signature (signer_set_verify X (cmc_signer_set mint_config)
       (prefix_hash X (cmt_prefix core_mint_tx)) (cmt_signature core_mint_tx))))))))"

section \<open>\<open>BurnTxOut\<close>\<close>

definition burn_tx_out_id :: "burn_tx_out \<Rightarrow> i32 option" where
  "burn_tx_out_id b = bto_id b"

definition burn_tx_out_block_index :: "burn_tx_out \<Rightarrow> u64" where
  "burn_tx_out_block_index b = as_u64 (bto_block_index b)"

definition burn_tx_out_block_timestamp :: "burn_tx_out \<Rightarrow> datetime option" where
  "burn_tx_out_block_timestamp b = bto_block_timestamp b"

definition burn_tx_out_token_id :: "burn_tx_out \<Rightarrow> token_id" where
  "burn_tx_out_token_id b = as_u64 (bto_token_id b)"

definition burn_tx_out_amount :: "burn_tx_out \<Rightarrow> u64" where
  "burn_tx_out_amount b = as_u64 (bto_amount b)"

definition burn_tx_out_public_key_hex :: "burn_tx_out \<Rightarrow> string" where
  "burn_tx_out_public_key_hex b = bto_public_key_hex b"

definition burn_tx_out_decode :: "ext \<Rightarrow> burn_tx_out \<Rightarrow> (error, tx_out) res" where
  "burn_tx_out_decode X b = map_err Decode (decode_tx_out X (bto_protobuf b))"

definition from_core_tx_out ::
  "ext \<Rightarrow> u64 \<Rightarrow> datetime option \<Rightarrow> tx_out \<Rightarrow> (error, burn_tx_out) res" where
  "from_core_tx_out X block_index block_timestamp tx_out =
     rbind (map_err ViewKeyMatch (view_key_match_burn X tx_out)) (\<lambda>amount.
     Ok \<lparr>bto_id = None, bto_block_index = as_i64 block_index, bto_block_timestamp = block_timestamp,
         bto_token_id = as_i64 (amt_token_id amount), bto_amount = as_i64 (amt_value amount),
         bto_public_key_hex = hex_encode X (to_public_key tx_out),
         bto_protobuf = encode_tx_out X tx_out\<rparr>)"

definition burn_tx_out_insert :: "ext \<Rightarrow> burn_tx_out \<Rightarrow> burn_tx_out dbm" where
  "burn_tx_out_insert X self = (case bto_id self of
      Some i \<Rightarrow> throw (AlreadyExists (''BurnTxOut already has an id ('' @ show_int i @ '')''))
    | None \<Rightarrow>
        bnd (insert_into_burn_tx_outs X self) (\<lambda>_.
        bnd last_insert_rowid (\<lambda>i. ret (self\<lparr>bto_id := Some i\<rparr>))))"

definition insert_from_core_tx_out ::
  "ext \<Rightarrow> u64 \<Rightarrow> datetime option \<Rightarrow> tx_out \<Rightarrow> burn_tx_out dbm" where
  "insert_from_core_tx_out X block_index block_timestamp tx_out =
     bnd (lift_res (from_core_tx_out X block_index block_timestamp tx_out)) (burn_tx_out_insert X)"

definition burn_redemption_memo :: "ext \<Rightarrow> burn_tx_out \<Rightarrow> (error, bytes) res" where
  "burn_redemption_memo X self =
     rbind (burn_tx_out_decode X self) (\<lambda>tx_out.
     rbind (map_err Key (ristretto_public X (to_public_key tx_out))) (\<lambda>decompressed_tx_pub.
     rbind (map_err MemoDecoding (memo_type_of X
              (decrypt_memo X tx_out (burn_shared_secret X decompressed_tx_pub)))) (\<lambda>memo_type.
     case memo_type of
       BurnRedemption burn_redemption \<Rightarrow> Ok burn_redemption
     | OtherMemo \<Rightarrow> Err InvalidMemoType)))"

definition burn_is_audited :: "database \<Rightarrow> burn_tx_out \<Rightarrow> bool" where
  "burn_is_audited d b = list_ex (\<lambda>a. Some (ab_burn_tx_out_id a) = bto_id b) (t_audited_burns d)"

definition find_unaudited_burn_tx_outs :: "burn_tx_out list dbm" where
  "find_unaudited_burn_tx_outs = query (\<lambda>d. filter (\<lambda>b. \<not> burn_is_audited d b) (t_burn_tx_outs d))"

definition find_unaudited_burn_tx_out_by_public_key :: "string \<Rightarrow> burn_tx_out option dbm" where
  "find_unaudited_burn_tx_out_by_public_key public_key_hex =
     query (\<lambda>d. first_row (filter (\<lambda>b. bto_public_key_hex b = public_key_hex \<and> \<not> burn_is_audited d b)
       (t_burn_tx_outs d)))"

definition get_burn_amounts :: "token_id \<Rightarrow> (token_id \<times> u64) list dbm" where
  "get_burn_amounts token_id =
     bnd (query (\<lambda>d. map (\<lambda>b. (bto_token_id b, bto_amount b))
            (filter (\<lambda>b. bto_token_id b = as_i64 token_id) (t_burn_tx_outs d))))
       (\<lambda>rows. ret (map (\<lambda>(token_id, balance). (as_u64 token_id, as_u64 balance)) rows))"

definition get_burn_txs_by_block :: "u64 \<Rightarrow> burn_tx_out list dbm" where
  "get_burn_txs_by_block block_index =
     query (\<lambda>d. sort_key (\<lambda>b. id_or_default (bto_id b))
       (filter (\<lambda>b. bto_block_index b = as_i64 block_index) (t_burn_tx_outs d)))"

definition burn_without_id :: "burn_tx_out \<Rightarrow> burn_tx_out" where
  "burn_without_id self = self\<lparr>bto_id := None\<rparr>"

section \<open>Lemmas\<close>

lemma insert_into_mint_txs_OkD:
  assumes "insert_into_mint_txs X m s = (Ok u, s')"
  shows "\<exists>i. s' = s\<lparr>st_db := (st_db s)\<lparr>t_mint_txs := t_mint_txs (st_db s) @ [m\<lparr>mt_id := Some i\<rparr>]\<rparr>,
      st_last_insert_rowid := i\<rparr>
    \<and> (\<forall>x \<in> set (t_mint_txs (st_db s)). mt_nonce_hex x \<noteq> mt_nonce_hex m)
    \<and> (\<forall>c. mt_mint_config_id m = Some c \<longrightarrow> (\<exists>x \<in> set (t_mint_configs (st_db s)). mc_id x = Some c))"
proof -
  from assms [unfolded insert_into_mint_txs_def] obtain i where
    s': "s' = s\<lparr>st_db := (st_db s)\<lparr>t_mint_txs := t_mint_txs (st_db s) @ [m\<lparr>mt_id := Some i\<rparr>]\<rparr>,
      st_last_insert_rowid := i\<rparr>"
    and uniq: "(if list_ex (\<lambda>x. mt_nonce_hex x = mt_nonce_hex m) (t_mint_txs (st_db s))
      then Some ''mint_txs.nonce_hex'' else None) = None"
    and fk: "case mt_mint_config_id m of None \<Rightarrow> True
      | Some c \<Rightarrow> list_ex (\<lambda>x. mc_id x = Some c) (t_mint_configs (st_db s))"
    by (rule mt.insert_OkE)
  show ?thesis
    using uniq fk by (intro exI [of _ i] conjI s') (auto simp: list_ex_iff split: if_splits)
qed

lemma mint_tx_insert_OkD:
  assumes "mint_tx_insert X m s = (Ok m', s')"
  shows "mt_id m = None \<and> insert_into_mint_txs X m s = (Ok (), s') \<and> (\<exists>i. m' = m\<lparr>mt_id := Some i\<rparr>
    \<and> s' = s\<lparr>st_db := (st_db s)\<lparr>t_mint_txs := t_mint_txs (st_db s) @ [m']\<rparr>, st_last_insert_rowid := i\<rparr>)"
proof -
  have id: "mt_id m = None"
    using assms by (auto simp: mint_tx_insert_def throw_def split: option.splits)
  with assms obtain u t where ins: "insert_into_mint_txs X m s = (Ok u, t)"
    and "bnd last_insert_rowid (\<lambda>i. ret (m\<lparr>mt_id := Some i\<rparr>)) t = (Ok m', s')"
    unfolding mint_tx_insert_def by (auto elim!: bnd_eq_OkE)
  then have "s' = t" and "m' = m\<lparr>mt_id := Some (st_last_insert_rowid t)\<rparr>"
    by (auto simp: ret_def)
  with insert_into_mint_txs_OkD [OF ins] ins id show ?thesis by auto
qed

lemma insert_into_burn_tx_outs_OkD:
  assumes "insert_into_burn_tx_outs X b s = (Ok u, s')"
  shows "\<exists>i. s' = s\<lparr>st_db := (st_db s)\<lparr>t_burn_tx_outs := t_burn_tx_outs (st_db s) @ [b\<lparr>bto_id := Some i\<rparr>]\<rparr>,
      st_last_insert_rowid := i\<rparr>
    \<and> (\<forall>x \<in> set (t_burn_tx_outs (st_db s)). bto_public_key_hex x \<noteq> bto_public_key_hex b)"
  using bto.insert_OkD [OF assms [unfolded insert_into_burn_tx_outs_def]]
  by (fastforce simp: list_ex_iff split: if_splits)

lemma burn_tx_out_insert_OkD:
  assumes "burn_tx_out_insert X b s = (Ok b', s')"
  shows "bto_id b = None \<and> insert_into_burn_tx_outs X b s = (Ok (), s') \<and> (\<exists>i. b' = b\<lparr>bto_id := Some i\<rparr>
    \<and> s' = s\<lparr>st_db := (st_db s)\<lparr>t_burn_tx_outs := t_burn_tx_outs (st_db s) @ [b']\<rparr>, st_last_insert_rowid := i\<rparr>)"
proof -
  have id: "bto_id b = None"
    using assms by (auto simp: burn_tx_out_insert_def throw_def split: option.splits)
  with assms obtain u t where ins: "insert_into_burn_tx_outs X b s = (Ok u, t)"
    and "bnd last_insert_rowid (\<lambda>i. ret (b\<lparr>bto_id := Some i\<rparr>)) t = (Ok b', s')"
    unfolding burn_tx_out_insert_def by (auto elim!: bnd_eq_OkE)
  then have "s' = t" and "b' = b\<lparr>bto_id := Some (st_last_insert_rowid t)\<rparr>"
    by (auto simp: ret_def)
  with insert_into_burn_tx_outs_OkD [OF ins] ins id show ?thesis by auto
qed

lemma find_unaudited_mint_tx_by_nonce_Some:
  "find_unaudited_mint_tx_by_nonce n s = (Ok (Some m), s') \<Longrightarrow>
     s' = s \<and> m \<in> set (t_mint_txs (st_db s)) \<and> mt_nonce_hex m = n \<and> \<not> mint_is_audited (st_db s) m"
  unfolding find_unaudited_mint_tx_by_nonce_def by (auto dest!: first_row_Some)

lemma find_unaudited_burn_tx_out_by_public_key_Some:
  "find_unaudited_burn_tx_out_by_public_key k s = (Ok (Some b), s') \<Longrightarrow>
     s' = s \<and> b \<in> set (t_burn_tx_outs (st_db s)) \<and> bto_public_key_hex b = k \<and> \<not> burn_is_audited (st_db s) b"
  unfolding find_unaudited_burn_tx_out_by_public_key_def by (auto dest!: first_row_Some)

lemma no_retry_mint_tx_insert [no_retry_intros]:
  "no_retry (mint_tx_insert X m)" "no_retry (burn_tx_out_insert X b)"
  unfolding mint_tx_insert_def burn_tx_out_insert_def insert_into_mint_txs_def
    insert_into_burn_tx_outs_def
  by (intro no_retry_intros; simp)+

lemma from_core_mint_tx_Err: "from_core_mint_tx X i ts c tx = Err e \<Longrightarrow> \<not> should_retry e"
  by (auto simp: from_core_mint_tx_def rbind_def map_err_def split: res.splits)

lemma no_retry_insert_from_core_mint_tx [no_retry_intros]:
  "no_retry (insert_from_core_mint_tx X i ts c tx)"
  unfolding insert_from_core_mint_tx_def
  by (intro no_retry_intros) (auto dest: from_core_mint_tx_Err)

lemma keeps_mint_burn_queries [keeps_intros]:
  "keeps I find_unaudited_mint_txs" "keeps I (find_unaudited_mint_tx_by_nonce n)"
  "keeps I find_unaudited_burn_tx_outs" "keeps I (find_unaudited_burn_tx_out_by_public_key k)"
  unfolding find_unaudited_mint_txs_def find_unaudited_mint_tx_by_nonce_def
    find_unaudited_burn_tx_outs_def find_unaudited_burn_tx_out_by_public_key_def
  by (intro keeps_intros)+

lemma no_retry_mint_burn_queries [no_retry_intros]:
  "no_retry (find_unaudited_mint_tx_by_nonce n)" "no_retry (find_unaudited_burn_tx_out_by_public_key k)"
  unfolding find_unaudited_mint_tx_by_nonce_def find_unaudited_burn_tx_out_by_public_key_def
  by (intro no_retry_intros)+

text \<open>The values a stored mint or burn reports are those of the ledger object it was made from.\<close>

lemma from_core_mint_tx_values:
  "from_core_mint_tx X i ts c tx = Ok m \<Longrightarrow> mint_tx_amount m = mtp_amount (cmt_prefix tx)
     \<and> mint_tx_token_id m = mtp_token_id (cmt_prefix tx) \<and> mint_tx_block_index m = i
     \<and> mt_nonce_hex m = hex_encode X (mtp_nonce (cmt_prefix tx)) \<and> mt_id m = None
     \<and> mt_mint_config_id m = c \<and> mt_block_index m = as_i64 i"
  by (auto simp: from_core_mint_tx_def rbind_eq_Ok mint_tx_amount_def mint_tx_token_id_def
      mint_tx_block_index_def)

lemma from_core_tx_out_values:
  "from_core_tx_out X i ts t = Ok b \<Longrightarrow> \<exists>a. view_key_match_burn X t = Ok a
     \<and> burn_tx_out_amount b = amt_value a \<and> burn_tx_out_token_id b = amt_token_id a
     \<and> burn_tx_out_block_index b = i \<and> bto_public_key_hex b = hex_encode X (to_public_key t)
     \<and> bto_id b = None \<and> bto_block_index b = as_i64 i"
  by (auto simp: from_core_tx_out_def rbind_eq_Ok burn_tx_out_amount_def burn_tx_out_token_id_def
      burn_tx_out_block_index_def)

end
