(* ===== verification/Gnosis_Tables.thy ===== *)
theory Gnosis_Tables
  imports Mint_Burn_Tables
begin

text \<open>
  Safe transactions, deposits and withdrawals: \<open>src/db/models/gnosis_safe_tx.rs\<close>,
  \<open>src/db/models/gnosis_safe_deposit.rs\<close> and \<open>src/db/models/gnosis_safe_withdrawal.rs\<close>. A JSON
  value is the tree \<open>json\<close>; its text form and the typed decoding of \<open>serde_json\<close> are parameters of
  the operations that use them.
\<close>

section \<open>Raw transactions\<close>

datatype json = JNull | JBool bool | JNum string | JStr string | JArr "json list"
  | JObj "(string \<times> json) list"

text \<open>\<open>Value::get\<close> on a key, and \<open>Value::as_str\<close>.\<close>

fun json_get :: "string \<Rightarrow> json \<Rightarrow> json option" where
  "json_get k (JObj kvs) = map_of kvs k"
| "json_get k _ = None"

fun json_as_str :: "json \<Rightarrow> string option" where
  "json_as_str (JStr s) = Some s"
| "json_as_str _ = None"

record raw_gnosis_transaction =
  rgt_raw :: json

definition raw_from_json ::
  "(string \<Rightarrow> (string, json) res) \<Rightarrow> string \<Rightarrow> (gnosis_error, raw_gnosis_transaction) res" where
  "raw_from_json json_from_str src =
     rbind (map_err GnosisJson (json_from_str src)) (\<lambda>v. Ok \<lparr>rgt_raw = v\<rparr>)"

definition raw_to_json_string :: "(json \<Rightarrow> string) \<Rightarrow> raw_gnosis_transaction \<Rightarrow> string" where
  "raw_to_json_string json_to_string t = json_to_string (rgt_raw t)"

definition raw_tx_hash :: "ext \<Rightarrow> raw_gnosis_transaction \<Rightarrow> (gnosis_error, eth_tx_hash) res" where
  "raw_tx_hash X t =
     rbind (res_ok_or (GnosisOther ''GnosisSafeTransaction: missing transactionHash'')
       (Option.bind
          (case json_get ''transactionHash'' (rgt_raw t) of
             Some v \<Rightarrow> Some v | None \<Rightarrow> json_get ''txHash'' (rgt_raw t))
          json_as_str)) (\<lambda>hash_str.
     map_err (\<lambda>err. GnosisOther (''Failed parsing tx hash '' @ [CHR 0x27] @ hash_str @ [CHR 0x27]
         @ '': '' @ gnosis_error_display err))
       (eth_tx_hash_from_str X hash_str))"

section \<open>\<open>GnosisSafeTx\<close>\<close>

definition insert_into_gnosis_safe_txs :: "gnosis_safe_tx \<Rightarrow> unit dbm" where
  "insert_into_gnosis_safe_txs r = (\<lambda>s. let d = st_db s in
     if list_ex (\<lambda>x. gst_eth_tx_hash x = gst_eth_tx_hash r) (t_gnosis_safe_txs d)
     then (Err (unique_violation ''gnosis_safe_txs.eth_tx_hash''), s)
     else (Ok (), s\<lparr>st_db := d\<lparr>t_gnosis_safe_txs := t_gnosis_safe_txs d @ [r]\<rparr>\<rparr>))"

definition gnosis_safe_tx_insert ::
  "ext \<Rightarrow> (json \<Rightarrow> string) \<Rightarrow> raw_gnosis_transaction \<Rightarrow> unit dbm" where
  "gnosis_safe_tx_insert X json_to_string raw_tx =
     bnd (lift_res (map_err Gnosis (raw_tx_hash X raw_tx))) (\<lambda>h.
     insert_into_gnosis_safe_txs
       \<lparr>gst_eth_tx_hash = eth_tx_hash_display X h,
        gst_raw_tx_json = raw_to_json_string json_to_string raw_tx\<rparr>)"

definition gnosis_safe_tx_decode ::
  "(string \<Rightarrow> (string, json) res) \<Rightarrow> gnosis_safe_tx \<Rightarrow> (error, raw_gnosis_transaction) res" where
  "gnosis_safe_tx_decode json_from_str t = map_err Gnosis (raw_from_json json_from_str (gst_raw_tx_json t))"

section \<open>\<open>GnosisSafeDeposit\<close>\<close>

definition gnosis_safe_deposit_new ::
  "ext \<Rightarrow> i32 option \<Rightarrow> eth_tx_hash \<Rightarrow> datetime \<Rightarrow> eth_tx_value \<Rightarrow> u64 \<Rightarrow> eth_addr \<Rightarrow> eth_addr
   \<Rightarrow> eth_addr \<Rightarrow> u64 \<Rightarrow> gnosis_safe_deposit" where
  "gnosis_safe_deposit_new X i eth_tx_hash execution_date eth_tx_value eth_block_number safe_addr
     token_addr from_addr amount =
     \<lparr>gsd_id = i, gsd_eth_tx_hash = eth_tx_hash, gsd_execution_date = execution_date,
      gsd_eth_tx_value = eth_tx_value, gsd_eth_block_number = as_i64 eth_block_number,
      gsd_safe_addr = safe_addr, gsd_token_addr = token_addr, gsd_from_addr = from_addr,
      gsd_amount = as_i64 amount,
      gsd_expected_mc_mint_tx_nonce_hex =
        hex_encode X (mint_tx_nonce_to_bytes (EthereumGnosisDeposit eth_tx_hash))\<rparr>"

definition deposit_id :: "gnosis_safe_deposit \<Rightarrow> i32 option" where
  "deposit_id d = gsd_id d"

definition deposit_eth_tx_hash :: "gnosis_safe_deposit \<Rightarrow> eth_tx_hash" where
  "deposit_eth_tx_hash d = gsd_eth_tx_hash d"

definition deposit_execution_date :: "gnosis_safe_deposit \<Rightarrow> datetime" where
  "deposit_execution_date d = gsd_execution_date d"

definition deposit_eth_tx_value :: "gnosis_safe_deposit \<Rightarrow> eth_tx_value" where
  "deposit_eth_tx_value d = gsd_eth_tx_value d"

definition deposit_eth_block_number :: "gnosis_safe_deposit \<Rightarrow> u64" where
  "deposit_eth_block_number d = as_u64 (gsd_eth_block_number d)"

definition deposit_safe_addr :: "gnosis_safe_deposit \<Rightarrow> eth_addr" where
  "deposit_safe_addr d = gsd_safe_addr d"

definition deposit_token_addr :: "gnosis_safe_deposit \<Rightarrow> eth_addr" where
  "deposit_token_addr d = gsd_token_addr d"

definition deposit_from_addr :: "gnosis_safe_deposit \<Rightarrow> eth_addr" where
  "deposit_from_addr d = gsd_from_addr d"

definition deposit_amount :: "gnosis_safe_deposit \<Rightarrow> u64" where
  "deposit_amount d = as_u64 (gsd_amount d)"

definition expected_mc_mint_tx_nonce_hex :: "gnosis_safe_deposit \<Rightarrow> string" where
  "expected_mc_mint_tx_nonce_hex d = gsd_expected_mc_mint_tx_nonce_hex d"

definition deposit_insert :: "ext \<Rightarrow> gnosis_safe_deposit \<Rightarrow> gnosis_safe_deposit dbm" where
  "deposit_insert X self = (case gsd_id self of
      Some i \<Rightarrow> throw (AlreadyExists (''GnosisSafeDeposit already has an id ('' @ show_int i @ '')''))
    | None \<Rightarrow>
        bnd (insert_into_gnosis_safe_deposits X self) (\<lambda>_.
        bnd last_insert_rowid (\<lambda>i. ret (self\<lparr>gsd_id := Some i\<rparr>))))"

definition deposit_is_audited :: "database \<Rightarrow> gnosis_safe_deposit \<Rightarrow> bool" where
  "deposit_is_audited d x =
     list_ex (\<lambda>a. Some (am_gnosis_safe_deposit_id a) = gsd_id x) (t_audited_mints d)"

definition find_unaudited_deposits :: "gnosis_safe_deposit list dbm" where
  "find_unaudited_deposits =
     query (\<lambda>d. filter (\<lambda>x. \<not> deposit_is_audited d x) (t_gnosis_safe_deposits d))"

definition find_unaudited_deposit_by_nonce :: "string \<Rightarrow> gnosis_safe_deposit option dbm" where
  "find_unaudited_deposit_by_nonce nonce_hex =
     query (\<lambda>d. first_row (filter (\<lambda>x. gsd_expected_mc_mint_tx_nonce_hex x = nonce_hex
       \<and> \<not> deposit_is_audited d x) (t_gnosis_safe_deposits d)))"

section \<open>\<open>GnosisSafeWithdrawal\<close>\<close>

definition gnosis_safe_withdrawal_new ::
  "i32 option \<Rightarrow> eth_tx_hash \<Rightarrow> datetime \<Rightarrow> eth_tx_value \<Rightarrow> u64 \<Rightarrow> eth_addr \<Rightarrow> eth_addr
   \<Rightarrow> eth_addr \<Rightarrow> u64 \<Rightarrow> string \<Rightarrow> gnosis_safe_withdrawal" where
  "gnosis_safe_withdrawal_new i eth_tx_hash execution_date eth_tx_value eth_block_number safe_addr
     token_addr to_addr amount mc_tx_out_public_key_hex =
     \<lparr>gsw_id = i, gsw_eth_tx_hash = eth_tx_hash, gsw_execution_date = execution_date,
      gsw_eth_tx_value = eth_tx_value, gsw_eth_block_number = as_i64 eth_block_number,
      gsw_safe_addr = safe_addr, gsw_token_addr = token_addr, gsw_to_addr = to_addr,
      gsw_amount = as_i64 amount, gsw_mc_tx_out_public_key_hex = mc_tx_out_public_key_hex\<rparr>"

definition withdrawal_id :: "gnosis_safe_withdrawal \<Rightarrow> i32 option" where
  "withdrawal_id w = gsw_id w"

definition withdrawal_eth_tx_hash :: "gnosis_safe_withdrawal \<Rightarrow> eth_tx_hash" where
  "withdrawal_eth_tx_hash w = gsw_eth_tx_hash w"

definition withdrawal_execution_date :: "gnosis_safe_withdrawal \<Rightarrow> datetime" where
  "withdrawal_execution_date w = gsw_execution_date w"

definition withdrawal_eth_tx_value :: "gnosis_safe_withdrawal \<Rightarrow> eth_tx_value" where
  "withdrawal_eth_tx_value w = gsw_eth_tx_value w"

definition withdrawal_eth_block_number :: "gnosis_safe_withdrawal \<Rightarrow> u64" where
  "withdrawal_eth_block_number w = as_u64 (gsw_eth_block_number w)"

definition withdrawal_safe_addr :: "gnosis_safe_withdrawal \<Rightarrow> eth_addr" where
  "withdrawal_safe_addr w = gsw_safe_addr w"

definition withdrawal_token_addr :: "gnosis_safe_withdrawal \<Rightarrow> eth_addr" where
  "withdrawal_token_addr w = gsw_token_addr w"

definition withdrawal_to_addr :: "gnosis_safe_withdrawal \<Rightarrow> eth_addr" where
  "withdrawal_to_addr w = gsw_to_addr w"

definition withdrawal_amount :: "gnosis_safe_withdrawal \<Rightarrow> u64" where
  "withdrawal_amount w = as_u64 (gsw_amount w)"

definition withdrawal_mc_tx_out_public_key_hex :: "gnosis_safe_withdrawal \<Rightarrow> string" where
  "withdrawal_mc_tx_out_public_key_hex w = gsw_mc_tx_out_public_key_hex w"

text \<open>\<open>compressed\<close> is \<open>CompressedRistrettoPublic::try_from\<close>.\<close>

definition withdrawal_mc_tx_out_public_key ::
  "ext \<Rightarrow> (bytes \<Rightarrow> (string, bytes) res) \<Rightarrow> gnosis_safe_withdrawal \<Rightarrow> (error, bytes) res" where
  "withdrawal_mc_tx_out_public_key X compressed w =
     rbind (map_err HexParse (hex_decode X (gsw_mc_tx_out_public_key_hex w))) (\<lambda>key_bytes.
     map_err Key (compressed key_bytes))"

definition withdrawal_insert :: "ext \<Rightarrow> gnosis_safe_withdrawal \<Rightarrow> gnosis_safe_withdrawal dbm" where
  "withdrawal_insert X self = (case gsw_id self of
      Some i \<Rightarrow> throw (AlreadyExists (''GnosisSafeWithdrawal already has an id ('' @ show_int i @ '')''))
    | None \<Rightarrow>
        bnd (insert_into_gnosis_safe_withdrawals X self) (\<lambda>_.
        bnd last_insert_rowid (\<lambda>i. ret (self\<lparr>gsw_id := Some i\<rparr>))))"

definition withdrawal_is_audited :: "database \<Rightarrow> gnosis_safe_withdrawal \<Rightarrow> bool" where
  "withdrawal_is_audited d x =
     list_ex (\<lambda>a. Some (ab_gnosis_safe_withdrawal_id a) = gsw_id x) (t_audited_burns d)"

definition find_unaudited_withdrawals :: "gnosis_safe_withdrawal list dbm" where
  "find_unaudited_withdrawals =
     query (\<lambda>d. filter (\<lambda>x. \<not> withdrawal_is_audited d x) (t_gnosis_safe_withdrawals d))"

definition find_unaudited_withdrawal_by_public_key :: "string \<Rightarrow> gnosis_safe_withdrawal option dbm" where
  "find_unaudited_withdrawal_by_public_key public_key_hex =
     query (\<lambda>d. first_row (filter (\<lambda>x. gsw_mc_tx_out_public_key_hex x = public_key_hex
       \<and> \<not> withdrawal_is_audited d x) (t_gnosis_safe_withdrawals d)))"

section \<open>Lemmas\<close>

lemma insert_into_gnosis_safe_deposits_OkD:
  assumes "insert_into_gnosis_safe_deposits X x s = (Ok u, s')"
  shows "\<exists>i. s' = s\<lparr>st_db := (st_db s)\<lparr>t_gnosis_safe_deposits :=
        t_gnosis_safe_deposits (st_db s) @ [x\<lparr>gsd_id := Some i\<rparr>]\<rparr>, st_last_insert_rowid := i\<rparr>
    \<and> (\<forall>y \<in> set (t_gnosis_safe_deposits (st_db s)).
         eth_tx_hash_display X (gsd_eth_tx_hash y) \<noteq> eth_tx_hash_display X (gsd_eth_tx_hash x))"
  using gsd.insert_OkD [OF assms [unfolded insert_into_gnosis_safe_deposits_def]]
  by (fastforce simp: list_ex_iff sql_eth_tx_hash_to_sql_def split: if_splits)

lemma deposit_insert_OkD:
  assumes "deposit_insert X x s = (Ok x', s')"
  shows "gsd_id x = None \<and> insert_into_gnosis_safe_deposits X x s = (Ok (), s') \<and> (\<exists>i. x' = x\<lparr>gsd_id := Some i\<rparr>
    \<and> s' = s\<lparr>st_db := (st_db s)\<lparr>t_gnosis_safe_deposits := t_gnosis_safe_deposits (st_db s) @ [x']\<rparr>,
        st_last_insert_rowid := i\<rparr>)"
proof -
  have id: "gsd_id x = None"
    using assms by (auto simp: deposit_insert_def throw_def split: option.splits)
  with assms obtain u t where ins: "insert_into_gnosis_safe_deposits X x s = (Ok u, t)"
    and "bnd last_insert_rowid (\<lambda>i. ret (x\<lparr>gsd_id := Some i\<rparr>)) t = (Ok x', s')"
    unfolding deposit_insert_def by (auto elim!: bnd_eq_OkE)
  then have "s' = t" and "x' = x\<lparr>gsd_id := Some (st_last_insert_rowid t)\<rparr>"
    by (auto simp: ret_def)
  with insert_into_gnosis_safe_deposits_OkD [OF ins] ins id show ?thesis by auto
qed

lemma insert_into_gnosis_safe_withdrawals_OkD:
  assumes "insert_into_gnosis_safe_withdrawals X x s = (Ok u, s')"
  shows "\<exists>i. s' = s\<lparr>st_db := (st_db s)\<lparr>t_gnosis_safe_withdrawals :=
        t_gnosis_safe_withdrawals (st_db s) @ [x\<lparr>gsw_id := Some i\<rparr>]\<rparr>, st_last_insert_rowid := i\<rparr>
    \<and> (\<forall>y \<in> set (t_gnosis_safe_withdrawals (st_db s)).
         eth_tx_hash_display X (gsw_eth_tx_hash y) \<noteq> eth_tx_hash_display X (gsw_eth_tx_hash x))"
  using gsw.insert_OkD [OF assms [unfolded insert_into_gnosis_safe_withdrawals_def]]
  by (fastforce simp: list_ex_iff sql_eth_tx_hash_to_sql_def split: if_splits)

lemma withdrawal_insert_OkD:
  assumes "withdrawal_insert X x s = (Ok x', s')"
  shows "gsw_id x = None \<and> insert_into_gnosis_safe_withdrawals X x s = (Ok (), s') \<and> (\<exists>i. x' = x\<lparr>gsw_id := Some i\<rparr>
    \<and> s' = s\<lparr>st_db := (st_db s)\<lparr>t_gnosis_safe_withdrawals := t_gnosis_safe_withdrawals (st_db s) @ [x']\<rparr>,
        st_last_insert_rowid := i\<rparr>)"
proof -
  have id: "gsw_id x = None"
    using assms by (auto simp: withdrawal_insert_def throw_def split: option.splits)
  with assms obtain u t where ins: "insert_into_gnosis_safe_withdrawals X x s = (Ok u, t)"
    and "bnd last_insert_rowid (\<lambda>i. ret (x\<lparr>gsw_id := Some i\<rparr>)) t = (Ok x', s')"
    unfolding withdrawal_insert_def by (auto elim!: bnd_eq_OkE)
  then have "s' = t" and "x' = x\<lparr>gsw_id := Some (st_last_insert_rowid t)\<rparr>"
    by (auto simp: ret_def)
  with insert_into_gnosis_safe_withdrawals_OkD [OF ins] ins id show ?thesis by auto
qed

lemma find_unaudited_deposit_by_nonce_Some:
  "find_unaudited_deposit_by_nonce n s = (Ok (Some x), s') \<Longrightarrow>
     s' = s \<and> x \<in> set (t_gnosis_safe_deposits (st_db s)) \<and> gsd_expected_mc_mint_tx_nonce_hex x = n
     \<and> \<not> deposit_is_audited (st_db s) x"
  unfolding find_unaudited_deposit_by_nonce_def by (auto dest!: first_row_Some)

lemma find_unaudited_withdrawal_by_public_key_Some:
  "find_unaudited_withdrawal_by_public_key k s = (Ok (Some x), s') \<Longrightarrow>
     s' = s \<and> x \<in> set (t_gnosis_safe_withdrawals (st_db s)) \<and> gsw_mc_tx_out_public_key_hex x = k
     \<and> \<not> withdrawal_is_audited (st_db s) x"
  unfolding find_unaudited_withdrawal_by_public_key_def by (auto dest!: first_row_Some)

lemma no_retry_gnosis_inserts [no_retry_intros]:
  "no_retry (deposit_insert X x)" "no_retry (withdrawal_insert X w)"
  unfolding deposit_insert_def withdrawal_insert_def insert_into_gnosis_safe_deposits_def
    insert_into_gnosis_safe_withdrawals_def
  by (intro no_retry_intros; simp)+

lemma keeps_gnosis_queries [keeps_intros]:
  "keeps I find_unaudited_deposits" "keeps I (find_unaudited_deposit_by_nonce n)"
  "keeps I find_unaudited_withdrawals" "keeps I (find_unaudited_withdrawal_by_public_key k)"
  unfolding find_unaudited_deposits_def find_unaudited_deposit_by_nonce_def
    find_unaudited_withdrawals_def find_unaudited_withdrawal_by_public_key_def
  by (intro keeps_intros)+

lemma no_retry_gnosis_queries [no_retry_intros]:
  "no_retry (find_unaudited_deposit_by_nonce n)" "no_retry (find_unaudited_withdrawal_by_public_key k)"
  unfolding find_unaudited_deposit_by_nonce_def find_unaudited_withdrawal_by_public_key_def
  by (intro no_retry_intros)+

lemma gnosis_safe_tx_insert_OkD:
  assumes "gnosis_safe_tx_insert X js raw s = (Ok u, s')"
  shows "\<exists>h. raw_tx_hash X raw = Ok h
    \<and> (\<forall>x \<in> set (t_gnosis_safe_txs (st_db s)). gst_eth_tx_hash x \<noteq> eth_tx_hash_display X h)
    \<and> s' = s\<lparr>st_db := (st_db s)\<lparr>t_gnosis_safe_txs := t_gnosis_safe_txs (st_db s)
        @ [\<lparr>gst_eth_tx_hash = eth_tx_hash_display X h, gst_raw_tx_json = js (rgt_raw raw)\<rparr>]\<rparr>\<rparr>"
  using assms unfolding gnosis_safe_tx_insert_def
  by (elim bnd_eq_OkE) (auto simp: lift_res_def insert_into_gnosis_safe_txs_def raw_to_json_string_def
      Let_def list_ex_iff split: if_splits)

end
