(* ===== verification/Audit_Pairing.thy ===== *)
theory Audit_Pairing
  imports Gnosis_Tables
begin

text \<open>
  What the two audit tables have in common. An audit row links a ledger row (a mint or a burn) with
  a safe row (a deposit or a withdrawal). \<open>audits_ok\<close> is the promise both make: no ledger row and
  no safe row is linked twice, both ends of a link exist, and the two ends agree. \<open>links\<close> is the
  abstract view of the table, a partial function from ledger row ids to safe row ids. The locale
  \<open>pairing\<close> states what recording a link must do and proves, once for both tables, that a link
  between two unlinked rows that agree keeps the promise and updates the abstract view.

  \<open>count_errors\<close> is the shape of all four matching functions: the closure's result is inspected,
  an error is counted outside the transaction, and the result is returned.
\<close>

section \<open>Links\<close>

definition audits_ok ::
  "('l \<Rightarrow> i32 option) \<Rightarrow> ('g \<Rightarrow> i32 option) \<Rightarrow> ('a \<Rightarrow> i32) \<Rightarrow> ('a \<Rightarrow> i32) \<Rightarrow> ('l \<Rightarrow> 'g \<Rightarrow> bool)
   \<Rightarrow> 'l list \<Rightarrow> 'g list \<Rightarrow> 'a list \<Rightarrow> bool" where
  "audits_ok lid gid al ag ok ls gs as \<longleftrightarrow>
     distinct (map al as) \<and> distinct (map ag as) \<and>
     (\<forall>a \<in> set as. \<exists>l \<in> set ls. \<exists>g \<in> set gs. lid l = Some (al a) \<and> gid g = Some (ag a) \<and> ok l g)"

definition links :: "('a \<Rightarrow> i32) \<Rightarrow> ('a \<Rightarrow> i32) \<Rightarrow> 'a list \<Rightarrow> (i32 \<rightharpoonup> i32)" where
  "links al ag as = map_of (map (\<lambda>a. (al a, ag a)) as)"

definition audit_join ::
  "('l \<Rightarrow> i32 option) \<Rightarrow> ('g \<Rightarrow> i32 option) \<Rightarrow> ('a \<Rightarrow> i32) \<Rightarrow> ('a \<Rightarrow> i32)
   \<Rightarrow> 'l list \<Rightarrow> 'g list \<Rightarrow> 'a list \<Rightarrow> ('a \<times> 'l \<times> 'g) list" where
  "audit_join lid gid al ag ls gs as =
     [(a, l, g). a \<leftarrow> as, l \<leftarrow> ls, g \<leftarrow> gs, lid l = Some (al a), gid g = Some (ag a)]"

definition count_errors :: "(error \<Rightarrow> unit dbm) \<Rightarrow> 'a dbm \<Rightarrow> 'a dbm" where
  "count_errors count m =
     bnd (attempt m) (\<lambda>result.
     bnd (case result of Inl e \<Rightarrow> count e | Inr _ \<Rightarrow> ret ()) (\<lambda>_.
     case result of Inl e \<Rightarrow> throw e | Inr x \<Rightarrow> ret x))"

text \<open>\<open>.offset(o)\<close> and \<open>.limit(l)\<close> of SQLite: a negative offset skips nothing, a negative limit
  does not limit.\<close>

definition sql_offset_limit :: "u64 option \<Rightarrow> u64 option \<Rightarrow> 'r list \<Rightarrow> 'r list" where
  "sql_offset_limit off lim rows =
     (let skipped = (case off of None \<Rightarrow> rows | Some n \<Rightarrow> drop (nat (as_i64 n)) rows)
      in case lim of None \<Rightarrow> skipped
         | Some n \<Rightarrow> if as_i64 n < 0 then skipped else take (nat (as_i64 n)) skipped)"

section \<open>Lemmas\<close>

lemma count_errors_Ok [simp]:
  "m s = (Ok x, s') \<Longrightarrow> count_errors c m s = (Ok x, s')"
  by (simp add: count_errors_def bnd_def ret_def)

lemma count_errors_Panic [simp]:
  "m s = (Panic p, s') \<Longrightarrow> count_errors c m s = (Panic p, s')"
  by (simp add: count_errors_def)

lemma count_errors_Err [simp]:
  "m s = (Err e, s') \<Longrightarrow> c e s' = (Ok (), s'') \<Longrightarrow> count_errors c m s = (Err e, s'')"
  by (simp add: count_errors_def bnd_def throw_def)

lemma count_errors_OkD:
  "count_errors c m s = (Ok x, s') \<Longrightarrow> m s = (Ok x, s')"
  by (auto simp: count_errors_def bnd_def attempt_def throw_def ret_def split: prod.splits res.splits)

lemma count_errors_ErrD:
  assumes run: "count_errors c m s = (Err e, s')"
    and unch: "\<And>e t. m s = (Err e, t) \<Longrightarrow> st_db t = st_db s"
    and one: "t_counters (st_db s) = [k]"
    and count: "\<And>e t. t_counters (st_db t) = [k] \<Longrightarrow> c e t = (Ok (), set_counters (row e k) t)"
  shows "st_db s' = (st_db s)\<lparr>t_counters := [row e k]\<rparr>
    \<and> (st_gauges s')\<lparr>ctr_id := ctr_id (row e k)\<rparr> = row e k"
proof -
  obtain r t where m: "m s = (r, t)" by fastforce
  show ?thesis
  proof (cases r)
    case (Err e')
    have db: "st_db t = st_db s" using unch m Err by blast
    then have "t_counters (st_db t) = [k]" using one by simp
    note c = count [OF this, of e']
    have "count_errors c m s = (Err e', set_counters (row e' k) t)"
      using m Err c by simp
    then show ?thesis
      using run db by (auto simp: set_counters_def update_prometheus_def)
  qed (use m run in auto)
qed

lemma count_errors_db:
  assumes "count_errors c m s = (r, s')" and "\<And>r t. m s = (r, t) \<Longrightarrow> (\<And>x. r \<noteq> Ok x) \<Longrightarrow> st_db t = st_db s"
    and "\<And>x t. m s = (Ok x, t) \<Longrightarrow> I (st_db t)" and "\<And>e. keeps (\<lambda>s. I (st_db s)) (c e)" and "I (st_db s)"
  shows "I (st_db s')"
proof -
  obtain r1 t where m: "m s = (r1, t)" by fastforce
  show ?thesis
  proof (cases r1)
    case (Ok x)
    with m assms(1,3) show ?thesis by auto
  next
    case (Err e)
    then have "st_db t = st_db s" using assms(2) m by blast
    moreover have "s' = snd (c e t)"
      using assms(1) m Err by (auto simp: count_errors_def bnd_def throw_def split: prod.splits res.splits)
    ultimately show ?thesis using assms(4,5) by (simp add: keeps_def)
  next
    case (Panic p)
    then have "st_db t = st_db s" using assms(2) m by blast
    with m Panic assms(1,5) show ?thesis by auto
  qed
qed

lemma first_row_unique:
  assumes "distinct (map f xs)" and "x \<in> set xs" and "P x"
  shows "first_row (filter (\<lambda>y. f y = f x \<and> P y) xs) = Some x"
proof -
  have "x \<in> set (filter (\<lambda>y. f y = f x \<and> P y) xs)" using assms by simp
  then obtain y where y: "first_row (filter (\<lambda>y. f y = f x \<and> P y) xs) = Some y"
    by (cases "first_row (filter (\<lambda>y. f y = f x \<and> P y) xs)") (auto simp: filter_empty_conv)
  from first_row_Some [OF y] have "y \<in> set xs" "f y = f x" by auto
  with assms have "y = x" by (metis distinct_map inj_onD)
  with y show ?thesis by simp
qed

lemma first_row_only: "x \<in> set xs \<Longrightarrow> (\<And>y. y \<in> set xs \<Longrightarrow> y = x) \<Longrightarrow> first_row xs = Some x"
  by (metis first_row_None first_row_Some list.distinct(1) list.set_cases option.exhaust)

lemma keeps_count_errors [keeps_intros]:
  "keeps I m \<Longrightarrow> (\<And>e. keeps I (c e)) \<Longrightarrow> keeps I (count_errors c m)"
  unfolding count_errors_def by (intro keeps_intros)

lemma no_retry_count_errors [no_retry_intros]:
  "no_retry m \<Longrightarrow> (\<And>e. no_retry (c e)) \<Longrightarrow> no_retry (count_errors c m)"
  unfolding count_errors_def no_retry_def
  by (fastforce simp: bnd_def attempt_def throw_def ret_def split: prod.splits res.splits)

lemma audit_join_set:
  "(a, l, g) \<in> set (audit_join lid gid al ag ls gs as) \<longleftrightarrow>
     a \<in> set as \<and> l \<in> set ls \<and> g \<in> set gs \<and> lid l = Some (al a) \<and> gid g = Some (ag a)"
  unfolding audit_join_def by auto

lemma audits_ok_mono:
  "audits_ok lid gid al ag ok ls gs as \<Longrightarrow> set ls \<subseteq> set ls' \<Longrightarrow> set gs \<subseteq> set gs' \<Longrightarrow>
     audits_ok lid gid al ag ok ls' gs' as"
  unfolding audits_ok_def by (meson subsetD)

text \<open>Under the promise, a query of the join finds a link exactly when the table has it.\<close>

lemma audit_join_filter_None:
  assumes "audits_ok lid gid al ag ok ls gs as"
  shows "first_row (filter (\<lambda>(a, l, g). P a) (audit_join lid gid al ag ls gs as)) = None
    \<longleftrightarrow> (\<forall>a \<in> set as. \<not> P a)"
proof -
  have "\<exists>l g. (a, l, g) \<in> set (audit_join lid gid al ag ls gs as)" if "a \<in> set as" for a
    using assms that unfolding audits_ok_def audit_join_set by meson
  then have "(\<exists>x \<in> set (audit_join lid gid al ag ls gs as). case x of (a, l, g) \<Rightarrow> P a)
      \<longleftrightarrow> (\<exists>a \<in> set as. P a)"
    by (fastforce simp: audit_join_set)
  then show ?thesis by (simp only: first_row_None filter_empty_conv) blast
qed

lemma links_None: "links al ag as i = None \<longleftrightarrow> (\<forall>a \<in> set as. al a \<noteq> i)"
  by (force simp: links_def map_of_eq_None_iff)

lemma links_in: "a \<in> set as \<Longrightarrow> distinct (map al as) \<Longrightarrow> links al ag as (al a) = Some (ag a)"
  unfolding links_def by (intro map_of_is_SomeI) (auto simp: comp_def)

lemma links_SomeD: "links al ag as i = Some j \<Longrightarrow> \<exists>a \<in> set as. al a = i \<and> ag a = j"
  unfolding links_def by (drule map_of_SomeD) auto

lemma links_append:
  "\<forall>x \<in> set as. al x \<noteq> al a \<Longrightarrow> links al ag (as @ [a]) = (links al ag as)(al a \<mapsto> ag a)"
proof (rule ext)
  fix i assume new: "\<forall>x \<in> set as. al x \<noteq> al a"
  then have "links al ag as (al a) = None" by (simp add: links_None)
  then show "links al ag (as @ [a]) i = ((links al ag as)(al a \<mapsto> ag a)) i"
    by (auto simp: links_def map_add_def split: option.splits)
qed

lemma links_inj: "distinct (map ag as) \<Longrightarrow> inj_on (links al ag as) (dom (links al ag as))"
proof (rule inj_onI)
  fix i k assume d: "distinct (map ag as)" and i: "i \<in> dom (links al ag as)"
    and eq: "links al ag as i = links al ag as k"
  from i obtain j where j: "links al ag as i = Some j" by blast
  with eq obtain a b where "a \<in> set as" "al a = i" "ag a = j" "b \<in> set as" "al b = k" "ag b = j"
    using links_SomeD [OF j] links_SomeD [of al ag as k j] by auto
  with d show "i = k" by (metis distinct_map inj_onD)
qed

section \<open>The contract\<close>

locale pairing =
  fixes lid :: "'l \<Rightarrow> i32 option" and gid :: "'g \<Rightarrow> i32 option"
    and al :: "'a \<Rightarrow> i32" and ag :: "'a \<Rightarrow> i32" and ok :: "'l \<Rightarrow> 'g \<Rightarrow> bool"
    and ls :: "database \<Rightarrow> 'l list" and gs :: "database \<Rightarrow> 'g list" and as :: "database \<Rightarrow> 'a list"
    and associate :: "i32 \<Rightarrow> i32 \<Rightarrow> unit dbm"
  assumes associate_Ok: "associate g l s = (Ok u, s') \<Longrightarrow>
      (\<exists>a. al a = l \<and> ag a = g \<and> as (st_db s') = as (st_db s) @ [a])
      \<and> ls (st_db s') = ls (st_db s) \<and> gs (st_db s') = gs (st_db s)"
begin

lemma associate_keeps:
  assumes inv: "audits_ok lid gid al ag ok (ls (st_db s)) (gs (st_db s)) (as (st_db s))"
    and l: "l \<in> set (ls (st_db s))" "lid l = Some i" and g: "g \<in> set (gs (st_db s))" "gid g = Some j"
    and agree: "ok l g"
    and new_l: "\<forall>a \<in> set (as (st_db s)). al a \<noteq> i" and new_g: "\<forall>a \<in> set (as (st_db s)). ag a \<noteq> j"
    and run: "associate j i s = (Ok u, s')"
  shows "audits_ok lid gid al ag ok (ls (st_db s')) (gs (st_db s')) (as (st_db s'))"
    and "links al ag (as (st_db s')) = (links al ag (as (st_db s)))(i \<mapsto> j)"
    and "links al ag (as (st_db s)) i = None" and "j \<notin> ran (links al ag (as (st_db s)))"
proof -
  from associate_Ok [OF run] obtain a where a: "al a = i" "ag a = j"
    and as: "as (st_db s') = as (st_db s) @ [a]" and rest: "ls (st_db s') = ls (st_db s)"
    "gs (st_db s') = gs (st_db s)" by blast
  show "audits_ok lid gid al ag ok (ls (st_db s')) (gs (st_db s')) (as (st_db s'))"
    using inv new_l new_g l g agree a by (auto simp: audits_ok_def as rest)
  show "links al ag (as (st_db s')) = (links al ag (as (st_db s)))(i \<mapsto> j)"
    using links_append [of "as (st_db s)" al a ag] new_l a by (simp add: as)
  show "links al ag (as (st_db s)) i = None" using new_l by (simp add: links_None)
  show "j \<notin> ran (links al ag (as (st_db s)))"
    using new_g by (auto simp: ran_def dest!: links_SomeD)
qed

lemma links_one_to_one:
  assumes "audits_ok lid gid al ag ok (ls d) (gs d) (as d)"
  shows "inj_on (links al ag (as d)) (dom (links al ag (as d)))"
  using assms by (auto simp: audits_ok_def intro: links_inj)

lemma links_agree:
  assumes "audits_ok lid gid al ag ok (ls d) (gs d) (as d)" and "links al ag (as d) i = Some j"
  shows "\<exists>l \<in> set (ls d). \<exists>g \<in> set (gs d). lid l = Some i \<and> gid g = Some j \<and> ok l g"
  using links_SomeD [OF assms(2)] assms(1) by (fastforce simp: audits_ok_def)

end

end
