(* ===== verification/Audited_Mint.thy ===== *)
theory Audited_Mint
  imports Audit_Pairing
begin

text \<open>
  Matching deposits with mints, \<open>src/db/models/audited_mint.rs\<close>: the two entry points (from a new
  deposit, from a new mint), the verification both use, recording the match, and the paginated
  listing. The theorems: a success records exactly one verified link and keeps matches one to one;
  a failure changes nothing but one counter, which the error selects; an unmatched pair that agrees
  is matched; and it does not matter from which side the match is made.
\<close>

section \<open>Operations\<close>

definition mints_join :: "database \<Rightarrow> (audited_mint \<times> mint_tx \<times> gnosis_safe_deposit) list" where
  "mints_join d = audit_join mt_id gsd_id am_mint_tx_id am_gnosis_safe_deposit_id
     (t_mint_txs d) (t_gnosis_safe_deposits d) (t_audited_mints d)"

definition deposit_safe_mismatch :: "gnosis_safe_deposit \<Rightarrow> audited_safe_config \<Rightarrow> error" where
  "deposit_safe_mismatch deposit config =
     Other (''Gnosis safe deposit addr '' @ eth_addr_str (deposit_safe_addr deposit)
       @ '' does not match audited safe addr '' @ eth_addr_str (asc_safe_addr config))"

definition verify_mint_tx_matches_deposit ::
  "mint_tx \<Rightarrow> gnosis_safe_deposit \<Rightarrow> audited_safe_config \<Rightarrow> (error, unit) res" where
  "verify_mint_tx_matches_deposit mint_tx deposit config =
     (let nonce = expected_mc_mint_tx_nonce_hex deposit;
          token_check = rbind (res_ok_or (EthereumTokenNotAudited (deposit_token_addr deposit)
              (deposit_safe_addr deposit) (deposit_eth_tx_hash deposit))
              (get_token_by_eth_contract_addr config (deposit_token_addr deposit))) (\<lambda>audited_token.
            if at_token_id audited_token \<noteq> mint_tx_token_id mint_tx then
              Err (DepositAndMintMismatch (''MintTx token_id='' @ show_u64 (mint_tx_token_id mint_tx)
                @ '' does not match audited token_id='' @ show_u64 (at_token_id audited_token)
                @ '' (nonce='' @ nonce @ '')''))
            else Ok ())
      in if \<not> eth_addr_eq (deposit_safe_addr deposit) (asc_safe_addr config) then
           Err (deposit_safe_mismatch deposit config)
         else rbind token_check (\<lambda>_.
           if mint_tx_nonce_hex mint_tx \<noteq> nonce then
             Err (DepositAndMintMismatch (''MintTx nonce '' @ mint_tx_nonce_hex mint_tx
               @ '' does not match expected nonce '' @ nonce))
           else if mint_tx_amount mint_tx \<noteq> deposit_amount deposit then
             Err (DepositAndMintMismatch (''MintTx amount='' @ show_u64 (mint_tx_amount mint_tx)
               @ '' does not match GnosisSafeDeposit amount='' @ show_u64 (deposit_amount deposit)
               @ '' (nonce='' @ nonce @ '')''))
           else token_check))"

definition associate_deposit_with_mint :: "ext \<Rightarrow> i32 \<Rightarrow> i32 \<Rightarrow> unit dbm" where
  "associate_deposit_with_mint X gnosis_safe_deposit_id mint_tx_id' =
     insert_into_audited_mints X \<lparr>am_id = None, am_mint_tx_id = mint_tx_id',
       am_gnosis_safe_deposit_id = gnosis_safe_deposit_id\<rparr>"

text \<open>The closure passed to \<open>transaction\<close>, the outer closure, the counting of its errors, and the
  function.\<close>

definition match_deposit_tx ::
  "ext \<Rightarrow> gnosis_safe_deposit \<Rightarrow> audited_safe_config \<Rightarrow> i32 \<Rightarrow> mint_tx dbm" where
  "match_deposit_tx X deposit config the_deposit_id =
     bnd (query (\<lambda>d. first_row (filter (\<lambda>(a, m, x). am_gnosis_safe_deposit_id a = the_deposit_id)
            (mints_join d)))) (\<lambda>existing_match.
     bnd (case existing_match of
            Some (a, m, x) \<Rightarrow>
              bnd inc_num_unexpected_errors_matching_deposits_to_mints (\<lambda>_.
              throw (AlreadyExists (''GnosisSafeDeposit eth_tx_hash=''
                @ sql_eth_tx_hash_to_sql X (gsd_eth_tx_hash x)
                @ '' already matched with mint_tx nonce='' @ mt_nonce_hex m)))
          | None \<Rightarrow> ret ()) (\<lambda>_.
     bnd (find_unaudited_mint_tx_by_nonce (expected_mc_mint_tx_nonce_hex deposit)) (\<lambda>found.
     bnd (ok_or NotFound found) (\<lambda>mint_tx.
     bnd (lift_res (verify_mint_tx_matches_deposit mint_tx deposit config)) (\<lambda>_.
     bnd (expect_some ''got a MintTx without id but database auto-populates that field''
            (mint_tx_id mint_tx)) (\<lambda>the_mint_id.
     bnd (associate_deposit_with_mint X the_deposit_id the_mint_id) (\<lambda>_.
     ret mint_tx)))))))"

definition match_deposit_with_mint ::
  "ext \<Rightarrow> gnosis_safe_deposit \<Rightarrow> audited_safe_config \<Rightarrow> mint_tx dbm" where
  "match_deposit_with_mint X deposit config =
     bnd (ok_or ObjectNotSaved (deposit_id deposit)) (\<lambda>the_deposit_id.
     if \<not> eth_addr_eq (deposit_safe_addr deposit) (asc_safe_addr config)
     then throw (deposit_safe_mismatch deposit config)
     else transaction (match_deposit_tx X deposit config the_deposit_id))"

fun count_deposit_error :: "error \<Rightarrow> unit dbm" where
  "count_deposit_error (DepositAndMintMismatch _) = inc_num_mismatching_mints_and_deposits"
| "count_deposit_error (EthereumTokenNotAudited _ _ _) = inc_num_unknown_ethereum_token_deposits"
| "count_deposit_error _ = inc_num_unexpected_errors_matching_deposits_to_mints"

definition try_match_deposit_with_mint ::
  "ext \<Rightarrow> gnosis_safe_deposit \<Rightarrow> audited_safe_config \<Rightarrow> mint_tx dbm" where
  "try_match_deposit_with_mint X deposit config =
     count_errors count_deposit_error (match_deposit_with_mint X deposit config)"

definition match_mint_tx ::
  "ext \<Rightarrow> mint_tx \<Rightarrow> gnosis_safe_config \<Rightarrow> i32 \<Rightarrow> gnosis_safe_deposit dbm" where
  "match_mint_tx X mint_tx config the_mint_id =
     bnd (query (\<lambda>d. first_row (filter (\<lambda>(a, m, x). am_mint_tx_id a = the_mint_id)
            (mints_join d)))) (\<lambda>existing_match.
     bnd (case existing_match of
            Some (a, m, x) \<Rightarrow>
              throw (AlreadyExists (''MintTx nonce='' @ mt_nonce_hex m
                @ '' already matched with GnosisSafeDeposit eth_tx_hash=''
                @ sql_eth_tx_hash_to_sql X (gsd_eth_tx_hash x)))
          | None \<Rightarrow> ret ()) (\<lambda>_.
     bnd (find_unaudited_deposit_by_nonce (mint_tx_nonce_hex mint_tx)) (\<lambda>found.
     bnd (ok_or NotFound found) (\<lambda>deposit.
     bnd (ok_or (GnosisSafeNotAudited (deposit_safe_addr deposit))
            (get_audited_safe_config_by_safe_addr config (deposit_safe_addr deposit)))
       (\<lambda>audited_safe_config.
     bnd (lift_res (verify_mint_tx_matches_deposit mint_tx deposit audited_safe_config)) (\<lambda>_.
     bnd (expect_some ''got a GnosisSafeDeposit without id but database auto-populates that field''
            (deposit_id deposit)) (\<lambda>the_deposit_id.
     bnd (associate_deposit_with_mint X the_deposit_id the_mint_id) (\<lambda>_.
     ret deposit))))))))"

definition match_mint_with_deposit ::
  "ext \<Rightarrow> mint_tx \<Rightarrow> gnosis_safe_config \<Rightarrow> gnosis_safe_deposit dbm" where
  "match_mint_with_deposit X mint_tx config =
     bnd (ok_or ObjectNotSaved (mint_tx_id mint_tx)) (\<lambda>the_mint_id.
     transaction (match_mint_tx X mint_tx config the_mint_id))"

fun count_mint_error :: "error \<Rightarrow> unit dbm" where
  "count_mint_error (GnosisSafeNotAudited _) = inc_num_mints_to_unknown_safe"
| "count_mint_error (DepositAndMintMismatch _) = inc_num_mismatching_mints_and_deposits"
| "count_mint_error (EthereumTokenNotAudited _ _ _) = inc_num_unknown_ethereum_token_deposits"
| "count_mint_error _ = inc_num_unexpected_errors_matching_mints_to_deposits"

definition try_match_mint_with_deposit ::
  "ext \<Rightarrow> mint_tx \<Rightarrow> gnosis_safe_config \<Rightarrow> gnosis_safe_deposit dbm" where
  "try_match_mint_with_deposit X mint_tx config =
     count_errors count_mint_error (match_mint_with_deposit X mint_tx config)"

definition list_with_mint_and_deposit ::
  "u64 option \<Rightarrow> u64 option \<Rightarrow> (audited_mint \<times> mint_tx \<times> gnosis_safe_deposit) list dbm" where
  "list_with_mint_and_deposit offset limit =
     query (\<lambda>d. sql_offset_limit offset limit
       (sort_key (\<lambda>(a, m, x). id_or_default (am_id a)) (mints_join d)))"

section \<open>Verification\<close>

text \<open>When a mint and a deposit agree: same nonce, same amount, and the deposit's token is audited
  in the deposit's safe as the mint's token.\<close>

definition mint_deposit_agree :: "gnosis_safe_config \<Rightarrow> mint_tx \<Rightarrow> gnosis_safe_deposit \<Rightarrow> bool" where
  "mint_deposit_agree cfg m x \<longleftrightarrow> mt_nonce_hex m = gsd_expected_mc_mint_tx_nonce_hex x
     \<and> mint_tx_amount m = deposit_amount x
     \<and> (\<exists>c \<in> set (gsc_safes cfg). eth_addr_eq (gsd_safe_addr x) (asc_safe_addr c)
          \<and> (\<exists>tok. get_token_by_eth_contract_addr c (gsd_token_addr x) = Some tok
               \<and> at_token_id tok = mint_tx_token_id m))"

lemmas deposit_getters = deposit_id_def deposit_eth_tx_hash_def deposit_safe_addr_def
  deposit_token_addr_def expected_mc_mint_tx_nonce_hex_def

lemma verify_mint_Ok:
  "verify_mint_tx_matches_deposit m x c = Ok () \<longleftrightarrow>
     eth_addr_eq (gsd_safe_addr x) (asc_safe_addr c)
     \<and> (\<exists>tok. get_token_by_eth_contract_addr c (gsd_token_addr x) = Some tok
          \<and> at_token_id tok = mint_tx_token_id m)
     \<and> mt_nonce_hex m = gsd_expected_mc_mint_tx_nonce_hex x \<and> mint_tx_amount m = deposit_amount x"
  by (cases "get_token_by_eth_contract_addr c (gsd_token_addr x)")
    (simp_all add: verify_mint_tx_matches_deposit_def Let_def deposit_getters mint_tx_nonce_hex_def
      res_ok_or_def)

lemma verify_mint_agree:
  "verify_mint_tx_matches_deposit m x c = Ok () \<Longrightarrow> c \<in> set (gsc_safes cfg) \<Longrightarrow>
     mint_deposit_agree cfg m x"
  unfolding verify_mint_Ok mint_deposit_agree_def by blast

lemma verify_mint_outcomes:
  "(verify_mint_tx_matches_deposit m x c = Ok ()) \<or>
   (\<exists>e. verify_mint_tx_matches_deposit m x c = Err e \<and> \<not> should_retry e)"
  unfolding verify_mint_tx_matches_deposit_def Let_def deposit_safe_mismatch_def
  by (auto simp: rbind_def res_ok_or_def split: option.split)

lemma verify_mint_no_retry: "verify_mint_tx_matches_deposit m x c = Err e \<Longrightarrow> \<not> should_retry e"
  using verify_mint_outcomes [of m x c] by auto

section \<open>The invariant and recording a match\<close>

definition audited_mints_ok :: "gnosis_safe_config \<Rightarrow> database \<Rightarrow> bool" where
  "audited_mints_ok cfg d \<longleftrightarrow> audits_ok mt_id gsd_id am_mint_tx_id am_gnosis_safe_deposit_id
     (mint_deposit_agree cfg) (t_mint_txs d) (t_gnosis_safe_deposits d) (t_audited_mints d)"

definition mint_links :: "database \<Rightarrow> (i32 \<rightharpoonup> i32)" where
  "mint_links d = links am_mint_tx_id am_gnosis_safe_deposit_id (t_audited_mints d)"

lemma associate_deposit_with_mint_OkD:
  assumes "associate_deposit_with_mint X j i s = (Ok u, s')"
  shows "\<exists>k. s' = s\<lparr>st_db := (st_db s)\<lparr>t_audited_mints := t_audited_mints (st_db s)
      @ [\<lparr>am_id = Some k, am_mint_tx_id = i, am_gnosis_safe_deposit_id = j\<rparr>]\<rparr>, st_last_insert_rowid := k\<rparr>"
  using assms unfolding associate_deposit_with_mint_def insert_into_audited_mints_def
  by (rule am.insert_OkE) auto

interpretation mint_pairing: pairing mt_id gsd_id am_mint_tx_id am_gnosis_safe_deposit_id
  "mint_deposit_agree cfg" t_mint_txs t_gnosis_safe_deposits t_audited_mints
  "associate_deposit_with_mint X" for cfg X
proof
  fix g l s u s' assume "associate_deposit_with_mint X g l s = (Ok u, s')"
  from associate_deposit_with_mint_OkD [OF this]
  show "(\<exists>a. am_mint_tx_id a = l \<and> am_gnosis_safe_deposit_id a = g
        \<and> t_audited_mints (st_db s') = t_audited_mints (st_db s) @ [a])
    \<and> t_mint_txs (st_db s') = t_mint_txs (st_db s)
    \<and> t_gnosis_safe_deposits (st_db s') = t_gnosis_safe_deposits (st_db s)"
    by auto
qed

lemma no_retry_associate_deposit [no_retry_intros]: "no_retry (associate_deposit_with_mint X j i)"
  unfolding associate_deposit_with_mint_def insert_into_audited_mints_def by (intro no_retry_intros)

lemma mints_join_None:
  assumes "audited_mints_ok cfg d"
  shows "first_row (filter (\<lambda>(a, m, x). P a) (mints_join d)) = None \<longleftrightarrow>
    (\<forall>a \<in> set (t_audited_mints d). \<not> P a)"
  using assms unfolding audited_mints_ok_def mints_join_def by (rule audit_join_filter_None)

lemma mint_is_audited_iff:
  "mt_id m = Some i \<Longrightarrow> mint_is_audited d m \<longleftrightarrow> mint_links d i \<noteq> None"
  by (auto simp: mint_is_audited_def list_ex_iff mint_links_def links_None)

lemma deposit_is_audited_iff:
  "gsd_id x = Some j \<Longrightarrow> deposit_is_audited d x \<longleftrightarrow>
     (\<exists>a \<in> set (t_audited_mints d). am_gnosis_safe_deposit_id a = j)"
  by (auto simp: deposit_is_audited_def list_ex_iff)

section \<open>The closures\<close>

lemma no_retry_match_tx [no_retry_intros]:
  "no_retry (match_deposit_tx X x c j)" "no_retry (match_mint_tx X m cfg i)"
  unfolding match_deposit_tx_def match_mint_tx_def inc_defs
  by (intro no_retry_intros; simp add: verify_mint_no_retry)+

lemma match_deposit_tx_OkD:
  assumes "match_deposit_tx X x c j s = (Ok m, s')"
  shows "m \<in> set (t_mint_txs (st_db s)) \<and> \<not> mint_is_audited (st_db s) m
    \<and> verify_mint_tx_matches_deposit m x c = Ok ()
    \<and> first_row (filter (\<lambda>(a, m, x). am_gnosis_safe_deposit_id a = j) (mints_join (st_db s))) = None
    \<and> (\<exists>i. mt_id m = Some i \<and> associate_deposit_with_mint X j i s = (Ok (), s'))"
  using assms unfolding match_deposit_tx_def
  by (elim bnd_eq_OkE) (auto simp: comp_defs bnd_def mint_tx_id_def
      split: option.splits prod.splits res.splits dest!: find_unaudited_mint_tx_by_nonce_Some)

lemma match_mint_tx_OkD:
  assumes "match_mint_tx X m cfg i s = (Ok x, s')"
  shows "x \<in> set (t_gnosis_safe_deposits (st_db s)) \<and> \<not> deposit_is_audited (st_db s) x
    \<and> (\<exists>c. get_audited_safe_config_by_safe_addr cfg (gsd_safe_addr x) = Some c
         \<and> verify_mint_tx_matches_deposit m x c = Ok ())
    \<and> first_row (filter (\<lambda>(a, m, x). am_mint_tx_id a = i) (mints_join (st_db s))) = None
    \<and> (\<exists>j. gsd_id x = Some j \<and> associate_deposit_with_mint X j i s = (Ok (), s'))"
  using assms unfolding match_mint_tx_def
  by (elim bnd_eq_OkE) (auto simp: comp_defs bnd_def deposit_getters
      split: option.splits prod.splits res.splits dest!: find_unaudited_deposit_by_nonce_Some)

lemma match_deposit_with_mint_OkD:
  assumes "match_deposit_with_mint X x c s = (Ok m, s')"
  shows "\<exists>j. gsd_id x = Some j \<and> match_deposit_tx X x c j s = (Ok m, s')"
  using assms unfolding match_deposit_with_mint_def
  by (auto simp: comp_defs deposit_getters bnd_def transaction_no_retry [OF no_retry_match_tx(1)]
      conn_transaction_Ok split: option.splits if_splits)

lemma match_mint_with_deposit_OkD:
  assumes "match_mint_with_deposit X m cfg s = (Ok x, s')"
  shows "\<exists>i. mt_id m = Some i \<and> match_mint_tx X m cfg i s = (Ok x, s')"
  using assms unfolding match_mint_with_deposit_def
  by (auto simp: comp_defs mint_tx_id_def bnd_def transaction_no_retry [OF no_retry_match_tx(2)]
      conn_transaction_Ok split: option.splits if_splits)

text \<open>Whatever else a closure does, the database is unchanged unless it returns a value.\<close>

lemma match_deposit_with_mint_unchanged:
  assumes "match_deposit_with_mint X x c s = (r, s')" and "\<And>m. r \<noteq> Ok m"
  shows "st_db s' = st_db s"
proof -
  have "st_db t' = st_db s" if "transaction f s = (r, t')" for f :: "mint_tx dbm" and t'
    using transaction_atomic [OF that] assms(2) by auto
  then show ?thesis
    using assms(1) unfolding match_deposit_with_mint_def
    by (auto simp: comp_defs bnd_def split: option.splits if_splits)
qed

lemma match_mint_with_deposit_unchanged:
  assumes "match_mint_with_deposit X m cfg s = (r, s')" and "\<And>x. r \<noteq> Ok x"
  shows "st_db s' = st_db s"
proof -
  have "st_db t' = st_db s" if "transaction f s = (r, t')" for f :: "gnosis_safe_deposit dbm" and t'
    using transaction_atomic [OF that] assms(2) by auto
  then show ?thesis
    using assms(1) unfolding match_mint_with_deposit_def
    by (auto simp: comp_defs bnd_def split: option.splits if_splits)
qed

lemmas match_unchanged_on_Err =
  match_deposit_with_mint_unchanged [OF _ res.distinct(2)]
  match_mint_with_deposit_unchanged [OF _ res.distinct(2)]

section \<open>Successful matches\<close>

text \<open>The invariant of the mint side of the database.\<close>

definition mint_tables_ok :: "gnosis_safe_config \<Rightarrow> database \<Rightarrow> bool" where
  "mint_tables_ok cfg d \<longleftrightarrow> audited_mints_ok cfg d
     \<and> ids_ok mt_id (t_mint_txs d) \<and> ids_ok gsd_id (t_gnosis_safe_deposits d)
     \<and> ids_ok am_id (t_audited_mints d)
     \<and> distinct (map mt_nonce_hex (t_mint_txs d))
     \<and> distinct (map gsd_expected_mc_mint_tx_nonce_hex (t_gnosis_safe_deposits d))"

definition linked_by :: "gnosis_safe_config \<Rightarrow> mint_tx \<Rightarrow> gnosis_safe_deposit \<Rightarrow> database \<Rightarrow> database \<Rightarrow> bool"
  where "linked_by cfg m x d d' \<longleftrightarrow> (\<exists>i j. mt_id m = Some i \<and> gsd_id x = Some j
     \<and> m \<in> set (t_mint_txs d) \<and> x \<in> set (t_gnosis_safe_deposits d) \<and> mint_deposit_agree cfg m x
     \<and> mint_links d i = None \<and> j \<notin> ran (mint_links d) \<and> mint_links d' = (mint_links d)(i \<mapsto> j)
     \<and> d' = d\<lparr>t_audited_mints := t_audited_mints d'\<rparr>)"

lemma associate_deposit_links:
  assumes inv: "mint_tables_ok cfg (st_db s)" and X: "rowid_alloc (new_rowid X)"
    and m: "m \<in> set (t_mint_txs (st_db s))" "mt_id m = Some i"
    and x: "x \<in> set (t_gnosis_safe_deposits (st_db s))" "gsd_id x = Some j"
    and agree: "mint_deposit_agree cfg m x"
    and new: "\<forall>a \<in> set (t_audited_mints (st_db s)). am_mint_tx_id a \<noteq> i"
      "\<forall>a \<in> set (t_audited_mints (st_db s)). am_gnosis_safe_deposit_id a \<noteq> j"
    and run: "associate_deposit_with_mint X j i s = (Ok u, s')"
  shows "linked_by cfg m x (st_db s) (st_db s')" and "mint_tables_ok cfg (st_db s')"
proof -
  have aok: "audits_ok mt_id gsd_id am_mint_tx_id am_gnosis_safe_deposit_id (mint_deposit_agree cfg)
      (t_mint_txs (st_db s)) (t_gnosis_safe_deposits (st_db s)) (t_audited_mints (st_db s))"
    using inv by (simp add: mint_tables_ok_def audited_mints_ok_def)
  note keep = mint_pairing.associate_keeps [OF aok m x agree new run]
  obtain k where s': "s' = s\<lparr>st_db := (st_db s)\<lparr>t_audited_mints := t_audited_mints (st_db s)
      @ [\<lparr>am_id = Some k, am_mint_tx_id = i, am_gnosis_safe_deposit_id = j\<rparr>]\<rparr>, st_last_insert_rowid := k\<rparr>"
    using associate_deposit_with_mint_OkD [OF run] by blast
  show "linked_by cfg m x (st_db s) (st_db s')"
    using keep m x agree unfolding linked_by_def mint_links_def
    by (intro exI [of _ i] exI [of _ j]) (simp add: s')
  have "ids_ok am_id (t_audited_mints (st_db s'))"
    by (rule am.insert_ids_ok [OF X _ _ run [unfolded associate_deposit_with_mint_def
          insert_into_audited_mints_def]])
      (use inv in \<open>simp_all add: mint_tables_ok_def\<close>)
  then show "mint_tables_ok cfg (st_db s')"
    using inv keep(1) by (simp add: mint_tables_ok_def audited_mints_ok_def s')
qed

lemma mint_not_audited: "\<not> mint_is_audited d m \<Longrightarrow> mt_id m = Some i \<Longrightarrow>
    \<forall>a \<in> set (t_audited_mints d). am_mint_tx_id a \<noteq> i"
  by (auto simp: mint_is_audited_def list_ex_iff)

lemma deposit_not_audited: "\<not> deposit_is_audited d x \<Longrightarrow> gsd_id x = Some j \<Longrightarrow>
    \<forall>a \<in> set (t_audited_mints d). am_gnosis_safe_deposit_id a \<noteq> j"
  by (auto simp: deposit_is_audited_def list_ex_iff)

lemma match_deposit_links:
  assumes "mint_tables_ok cfg (st_db s)" and "rowid_alloc (new_rowid X)"
    and "x \<in> set (t_gnosis_safe_deposits (st_db s))" and "c \<in> set (gsc_safes cfg)"
    and "try_match_deposit_with_mint X x c s = (Ok m, s')"
  shows "linked_by cfg m x (st_db s) (st_db s') \<and> mint_tables_ok cfg (st_db s')
    \<and> inj_on (mint_links (st_db s')) (dom (mint_links (st_db s')))"
proof -
  have "match_deposit_with_mint X x c s = (Ok m, s')"
    using assms(5) unfolding try_match_deposit_with_mint_def by (rule count_errors_OkD)
  from match_deposit_with_mint_OkD [OF this] obtain j where j: "gsd_id x = Some j"
    and run: "match_deposit_tx X x c j s = (Ok m, s')" by blast
  from match_deposit_tx_OkD [OF run] obtain i where i: "mt_id m = Some i"
    and m: "m \<in> set (t_mint_txs (st_db s))" "\<not> mint_is_audited (st_db s) m"
    and v: "verify_mint_tx_matches_deposit m x c = Ok ()"
    and none: "first_row (filter (\<lambda>(a, m, x). am_gnosis_safe_deposit_id a = j) (mints_join (st_db s))) = None"
    and a: "associate_deposit_with_mint X j i s = (Ok (), s')" by blast
  have "\<forall>a \<in> set (t_audited_mints (st_db s)). am_gnosis_safe_deposit_id a \<noteq> j"
    using mints_join_None [THEN iffD1, OF _ none] assms(1) by (auto simp: mint_tables_ok_def)
  note res = associate_deposit_links [OF assms(1,2) m(1) i assms(3) j
      verify_mint_agree [OF v assms(4)] mint_not_audited [OF m(2) i] this a]
  with mint_pairing.links_one_to_one show ?thesis
    unfolding mint_tables_ok_def audited_mints_ok_def mint_links_def by blast
qed

text \<open>C5: when a deposit of the database is matched with a mint, the mint returned is one of the
  database with the deposit's nonce and amount whose token is audited for the deposit's contract;
  neither was linked before, the link between the two is all that changes in the database, and
  matches stay one to one with all table invariants kept.\<close>

theorem match_deposit_success:
  assumes "mint_tables_ok cfg (st_db s)" and "rowid_alloc (new_rowid X)"
    and "x \<in> set (t_gnosis_safe_deposits (st_db s))" and "c \<in> set (gsc_safes cfg)"
    and "try_match_deposit_with_mint X x c s = (Ok m, s')"
  shows "linked_by cfg m x (st_db s) (st_db s') \<and> mint_tables_ok cfg (st_db s')
    \<and> inj_on (mint_links (st_db s')) (dom (mint_links (st_db s')))"
  using assms by (rule match_deposit_links)

lemma match_mint_links:
  assumes "mint_tables_ok cfg (st_db s)" and "rowid_alloc (new_rowid X)"
    and "m \<in> set (t_mint_txs (st_db s))"
    and "try_match_mint_with_deposit X m cfg s = (Ok x, s')"
  shows "linked_by cfg m x (st_db s) (st_db s') \<and> mint_tables_ok cfg (st_db s')
    \<and> inj_on (mint_links (st_db s')) (dom (mint_links (st_db s')))"
proof -
  have "match_mint_with_deposit X m cfg s = (Ok x, s')"
    using assms(4) unfolding try_match_mint_with_deposit_def by (rule count_errors_OkD)
  from match_mint_with_deposit_OkD [OF this] obtain i where i: "mt_id m = Some i"
    and run: "match_mint_tx X m cfg i s = (Ok x, s')" by blast
  from match_mint_tx_OkD [OF run] obtain j c where j: "gsd_id x = Some j"
    and x: "x \<in> set (t_gnosis_safe_deposits (st_db s))" "\<not> deposit_is_audited (st_db s) x"
    and c: "get_audited_safe_config_by_safe_addr cfg (gsd_safe_addr x) = Some c"
    and v: "verify_mint_tx_matches_deposit m x c = Ok ()"
    and none: "first_row (filter (\<lambda>(a, m, x). am_mint_tx_id a = i) (mints_join (st_db s))) = None"
    and a: "associate_deposit_with_mint X j i s = (Ok (), s')" by blast
  have "\<forall>a \<in> set (t_audited_mints (st_db s)). am_mint_tx_id a \<noteq> i"
    using mints_join_None [THEN iffD1, OF _ none] assms(1) by (auto simp: mint_tables_ok_def)
  moreover have "c \<in> set (gsc_safes cfg)"
    using get_audited_safe_config_by_safe_addr_Some [OF c] by simp
  ultimately have "linked_by cfg m x (st_db s) (st_db s') \<and> mint_tables_ok cfg (st_db s')"
    using associate_deposit_links [OF assms(1,2,3) i x(1) j _ _ deposit_not_audited [OF x(2) j] a]
      verify_mint_agree [OF v] by blast
  with mint_pairing.links_one_to_one show ?thesis
    unfolding mint_tables_ok_def audited_mints_ok_def mint_links_def by blast
qed

text \<open>C16: the same when a mint of the database is matched with a deposit, whose safe then is one of
  the audited ones.\<close>

theorem match_mint_success:
  assumes "mint_tables_ok cfg (st_db s)" and "rowid_alloc (new_rowid X)"
    and "m \<in> set (t_mint_txs (st_db s))"
    and "try_match_mint_with_deposit X m cfg s = (Ok x, s')"
  shows "linked_by cfg m x (st_db s) (st_db s') \<and> mint_tables_ok cfg (st_db s')
    \<and> inj_on (mint_links (st_db s')) (dom (mint_links (st_db s')))"
  using assms by (rule match_mint_links)

section \<open>Errors\<close>

text \<open>The counter an error selects, on each side.\<close>

fun deposit_error_row :: "error \<Rightarrow> counters \<Rightarrow> counters" where
  "deposit_error_row (DepositAndMintMismatch _) k =
     k\<lparr>num_mismatching_mints_and_deposits := num_mismatching_mints_and_deposits k + 1\<rparr>"
| "deposit_error_row (EthereumTokenNotAudited _ _ _) k =
     k\<lparr>num_unknown_ethereum_token_deposits := num_unknown_ethereum_token_deposits k + 1\<rparr>"
| "deposit_error_row _ k = k\<lparr>num_unexpected_errors_matching_deposits_to_mints :=
     num_unexpected_errors_matching_deposits_to_mints k + 1\<rparr>"

fun mint_error_row :: "error \<Rightarrow> counters \<Rightarrow> counters" where
  "mint_error_row (GnosisSafeNotAudited _) k =
     k\<lparr>num_mints_to_unknown_safe := num_mints_to_unknown_safe k + 1\<rparr>"
| "mint_error_row (DepositAndMintMismatch _) k =
     k\<lparr>num_mismatching_mints_and_deposits := num_mismatching_mints_and_deposits k + 1\<rparr>"
| "mint_error_row (EthereumTokenNotAudited _ _ _) k =
     k\<lparr>num_unknown_ethereum_token_deposits := num_unknown_ethereum_token_deposits k + 1\<rparr>"
| "mint_error_row _ k = k\<lparr>num_unexpected_errors_matching_mints_to_deposits :=
     num_unexpected_errors_matching_mints_to_deposits k + 1\<rparr>"

lemma count_deposit_error_one:
  "t_counters (st_db s) = [k] \<Longrightarrow>
     count_deposit_error e s = (Ok (), set_counters (deposit_error_row e k) s)"
  by (cases k; cases e) (simp_all add: inc_defs)

lemma count_mint_error_one:
  "t_counters (st_db s) = [k] \<Longrightarrow>
     count_mint_error e s = (Ok (), set_counters (mint_error_row e k) s)"
  by (cases k; cases e) (simp_all add: inc_defs)

text \<open>C25: a failed match changes no table but the counters, where exactly one counter goes up by one,
  selected by the error: mismatches, unaudited tokens and (from the mint side) unaudited safes have
  their own, every other error is an unexpected one of its direction. The Prometheus gauges show
  the new row.\<close>

theorem match_errors_counted:
  assumes "t_counters (st_db s) = [k]"
  shows "(try_match_deposit_with_mint X x c s = (Err e, s') \<longrightarrow>
      st_db s' = (st_db s)\<lparr>t_counters := [deposit_error_row e k]\<rparr>
      \<and> (st_gauges s')\<lparr>ctr_id := ctr_id (deposit_error_row e k)\<rparr> = deposit_error_row e k)
    \<and> (try_match_mint_with_deposit X m cfg s = (Err e, s') \<longrightarrow>
      st_db s' = (st_db s)\<lparr>t_counters := [mint_error_row e k]\<rparr>
      \<and> (st_gauges s')\<lparr>ctr_id := ctr_id (mint_error_row e k)\<rparr> = mint_error_row e k)"
  unfolding try_match_deposit_with_mint_def try_match_mint_with_deposit_def
proof (intro conjI [OF impI impI])
  assume "count_errors count_deposit_error (match_deposit_with_mint X x c) s = (Err e, s')"
  then show "st_db s' = (st_db s)\<lparr>t_counters := [deposit_error_row e k]\<rparr>
      \<and> (st_gauges s')\<lparr>ctr_id := ctr_id (deposit_error_row e k)\<rparr> = deposit_error_row e k"
    by (rule count_errors_ErrD [OF _ match_unchanged_on_Err(1) assms count_deposit_error_one])
next
  assume "count_errors count_mint_error (match_mint_with_deposit X m cfg) s = (Err e, s')"
  then show "st_db s' = (st_db s)\<lparr>t_counters := [mint_error_row e k]\<rparr>
      \<and> (st_gauges s')\<lparr>ctr_id := ctr_id (mint_error_row e k)\<rparr> = mint_error_row e k"
    by (rule count_errors_ErrD [OF _ match_unchanged_on_Err(2) assms count_mint_error_one])
qed

section \<open>Matching from either side\<close>

lemma match_deposit_tx_run:
  assumes "mint_tables_ok cfg (st_db s)" and "m \<in> set (t_mint_txs (st_db s))" "mt_id m = Some i"
    and "\<not> mint_is_audited (st_db s) m" "verify_mint_tx_matches_deposit m x c = Ok ()"
    and "gsd_id x = Some j" "\<not> deposit_is_audited (st_db s) x"
  shows "match_deposit_tx X x c j s = bnd (associate_deposit_with_mint X j i) (\<lambda>_. ret m) s"
proof -
  have "first_row (filter (\<lambda>(a, m, x). am_gnosis_safe_deposit_id a = j) (mints_join (st_db s))) = None"
    by (rule mints_join_None [THEN iffD2, of cfg])
      (use assms in \<open>auto simp: mint_tables_ok_def deposit_is_audited_iff\<close>)
  moreover have "find_unaudited_mint_tx_by_nonce (gsd_expected_mc_mint_tx_nonce_hex x) s = (Ok (Some m), s)"
    using first_row_unique [of mt_nonce_hex "t_mint_txs (st_db s)" m "\<lambda>m. \<not> mint_is_audited (st_db s) m"] assms
    by (simp add: find_unaudited_mint_tx_by_nonce_def mint_tables_ok_def verify_mint_Ok)
  ultimately show ?thesis
    using assms by (simp add: match_deposit_tx_def comp_defs deposit_getters mint_tx_id_def bnd_def)
qed

lemma match_mint_tx_run:
  assumes "mint_tables_ok cfg' (st_db s)" and "x \<in> set (t_gnosis_safe_deposits (st_db s))" "gsd_id x = Some j"
    and "\<not> deposit_is_audited (st_db s) x" "verify_mint_tx_matches_deposit m x c = Ok ()"
    and "get_audited_safe_config_by_safe_addr cfg (gsd_safe_addr x) = Some c"
    and "mt_id m = Some i" "\<not> mint_is_audited (st_db s) m"
  shows "match_mint_tx X m cfg i s = bnd (associate_deposit_with_mint X j i) (\<lambda>_. ret x) s"
proof -
  have "first_row (filter (\<lambda>(a, m, x). am_mint_tx_id a = i) (mints_join (st_db s))) = None"
    by (rule mints_join_None [THEN iffD2, of cfg'])
      (use assms mint_not_audited in \<open>auto simp: mint_tables_ok_def\<close>)
  moreover have "find_unaudited_deposit_by_nonce (mt_nonce_hex m) s = (Ok (Some x), s)"
    using first_row_unique [of gsd_expected_mc_mint_tx_nonce_hex "t_gnosis_safe_deposits (st_db s)" x
        "\<lambda>x. \<not> deposit_is_audited (st_db s) x"] assms
    by (simp add: find_unaudited_deposit_by_nonce_def mint_tables_ok_def verify_mint_Ok)
  ultimately show ?thesis
    using assms by (simp add: match_mint_tx_def comp_defs deposit_getters mint_tx_nonce_hex_def bnd_def)
qed

lemma associate_deposit_with_mint_run:
  assumes "rowid_alloc (new_rowid X)" and "ids_ok am_id (t_audited_mints (st_db s))"
    and "m \<in> set (t_mint_txs (st_db s))" "mt_id m = Some i"
    and "x \<in> set (t_gnosis_safe_deposits (st_db s))" "gsd_id x = Some j"
  shows "\<exists>s'. associate_deposit_with_mint X j i s = (Ok (), s')"
  unfolding associate_deposit_with_mint_def insert_into_audited_mints_def
  using am.insert_new [OF assms(1,2), of "\<lparr>am_id = None, am_mint_tx_id = i, am_gnosis_safe_deposit_id = j\<rparr>"
      "\<lambda>d r. None" "\<lambda>d r. list_ex (\<lambda>x. mt_id x = Some (am_mint_tx_id r)) (t_mint_txs d)
        \<and> list_ex (\<lambda>x. gsd_id x = Some (am_gnosis_safe_deposit_id r)) (t_gnosis_safe_deposits d)"] assms(3-6)
  by (auto simp: list_ex_iff)

lemma match_pair_run:
  assumes "mint_tables_ok cfg (st_db s)" and "rowid_alloc (new_rowid X)"
    and "m \<in> set (t_mint_txs (st_db s))" "\<not> mint_is_audited (st_db s) m"
    and "x \<in> set (t_gnosis_safe_deposits (st_db s))" "\<not> deposit_is_audited (st_db s) x"
    and "get_audited_safe_config_by_safe_addr cfg (gsd_safe_addr x) = Some c"
    and "verify_mint_tx_matches_deposit m x c = Ok ()"
  shows "\<exists>s'. try_match_deposit_with_mint X x c s = (Ok m, s')
    \<and> try_match_mint_with_deposit X m cfg s = (Ok x, s') \<and> linked_by cfg m x (st_db s) (st_db s')"
proof -
  obtain i j where i: "mt_id m = Some i" and j: "gsd_id x = Some j"
    using assms(1,3,5) unfolding mint_tables_ok_def ids_ok_def by blast
  obtain s' where a: "associate_deposit_with_mint X j i s = (Ok (), s')"
    using associate_deposit_with_mint_run [OF assms(2) _ assms(3) i assms(5) j] assms(1)
    by (auto simp: mint_tables_ok_def)
  have "match_deposit_tx X x c j s = (Ok m, s')"
    using match_deposit_tx_run [OF assms(1,3) i assms(4,8) j assms(6)] a by (simp add: ret_def)
  then have "match_deposit_with_mint X x c s = (Ok m, s')"
    using assms(8) j by (simp add: match_deposit_with_mint_def deposit_getters comp_defs bnd_def verify_mint_Ok)
  moreover have "match_mint_tx X m cfg i s = (Ok x, s')"
    using match_mint_tx_run [OF assms(1,5) j assms(6,8,7) i assms(4)] a by (simp add: ret_def)
  then have "match_mint_with_deposit X m cfg s = (Ok x, s')"
    using i by (simp add: match_mint_with_deposit_def mint_tx_id_def comp_defs bnd_def)
  moreover have "c \<in> set (gsc_safes cfg)"
    using get_audited_safe_config_by_safe_addr_Some [OF assms(7)] by simp
  then have "linked_by cfg m x (st_db s) (st_db s')"
    by (intro associate_deposit_links(1) [OF assms(1-3) i assms(5) j _ mint_not_audited [OF assms(4) i]
          deposit_not_audited [OF assms(6) j] a] verify_mint_agree [OF assms(8)])
  ultimately show ?thesis
    by (auto simp: try_match_deposit_with_mint_def try_match_mint_with_deposit_def)
qed

text \<open>A deposit and a mint of the database that verify against the configuration of the deposit's
  safe and are both unmatched are matched from whichever side the audit starts, with the same
  resulting state: the deposit side returns the mint, the mint side returns the deposit.\<close>

lemma match_order_irrelevant:
  assumes "mint_tables_ok cfg (st_db s)" and "rowid_alloc (new_rowid X)"
    and "m \<in> set (t_mint_txs (st_db s))" "\<not> mint_is_audited (st_db s) m"
    and "x \<in> set (t_gnosis_safe_deposits (st_db s))" "\<not> deposit_is_audited (st_db s) x"
    and "get_audited_safe_config_by_safe_addr cfg (gsd_safe_addr x) = Some c"
    and "verify_mint_tx_matches_deposit m x c = Ok ()"
  shows "\<exists>s'. try_match_deposit_with_mint X x c s = (Ok m, s')
    \<and> try_match_mint_with_deposit X m cfg s = (Ok x, s') \<and> linked_by cfg m x (st_db s) (st_db s')"
  using assms by (rule match_pair_run)

section \<open>Matched objects stay matched\<close>

lemma mints_join_Some:
  assumes "audited_mints_ok cfg d" and "a \<in> set (t_audited_mints d)" and "P a"
  shows "\<exists>a m x. first_row (filter (\<lambda>(a, m, x). P a) (mints_join d)) = Some (a, m, x)"
  using mints_join_None [OF assms(1), of P] assms(2,3)
  by (cases "first_row (filter (\<lambda>(a, m, x). P a) (mints_join d))") auto

lemma match_deposit_tx_again:
  assumes "mint_tables_ok cfg (st_db s)" and "gsd_id x = Some j" "deposit_is_audited (st_db s) x"
    and "t_counters (st_db s) = [k]"
  shows "\<exists>msg t. match_deposit_tx X x c j s = (Err (AlreadyExists msg), t)"
proof -
  obtain a where "a \<in> set (t_audited_mints (st_db s))" "am_gnosis_safe_deposit_id a = j"
    using assms(2,3) by (auto simp: deposit_is_audited_iff)
  then obtain a' m' x' where
    "first_row (filter (\<lambda>(a, m, x). am_gnosis_safe_deposit_id a = j) (mints_join (st_db s))) = Some (a', m', x')"
    using mints_join_Some [of cfg "st_db s" a "\<lambda>a. am_gnosis_safe_deposit_id a = j"] assms(1)
    by (auto simp: mint_tables_ok_def)
  then show ?thesis
    using assms(4) by (simp add: match_deposit_tx_def inc_defs throw_def bnd_def)
qed

lemma match_mint_tx_again:
  assumes "mint_tables_ok cfg' (st_db s)" and "mt_id m = Some i" "mint_is_audited (st_db s) m"
  shows "\<exists>msg. match_mint_tx X m cfg i s = (Err (AlreadyExists msg), s)"
proof -
  obtain a where "a \<in> set (t_audited_mints (st_db s))" "am_mint_tx_id a = i"
    using assms(2,3) by (auto simp: mint_is_audited_def list_ex_iff)
  then obtain a' m' x' where
    "first_row (filter (\<lambda>(a, m, x). am_mint_tx_id a = i) (mints_join (st_db s))) = Some (a', m', x')"
    using mints_join_Some [of cfg' "st_db s" a "\<lambda>a. am_mint_tx_id a = i"] assms(1)
    by (auto simp: mint_tables_ok_def)
  then show ?thesis
    by (simp add: match_mint_tx_def throw_def bnd_def)
qed

text \<open>C26: in a database that satisfies the invariant of the mint tables (as every reachable one does) and has
  its counters row, matching a stored object that is already matched fails with \<open>AlreadyExists\<close>: from
  the deposit side when the deposit's safe address is that of the safe it is matched for (for another safe
  the code fails earlier with another error), from the mint side with any configuration. The failure is
  counted once as an unexpected error of its direction (the increment inside the deposit side's
  transaction is rolled back with it), and nothing else in the database changes.\<close>

theorem match_again_fails:
  assumes "mint_tables_ok cfg (st_db s)" and "t_counters (st_db s) = [k]"
  shows "(gsd_id x = Some j \<and> deposit_is_audited (st_db s) x
      \<and> eth_addr_eq (gsd_safe_addr x) (asc_safe_addr c) \<longrightarrow>
      (\<exists>msg s'. try_match_deposit_with_mint X x c s = (Err (AlreadyExists msg), s')
        \<and> st_db s' = (st_db s)\<lparr>t_counters := [k\<lparr>num_unexpected_errors_matching_deposits_to_mints :=
             num_unexpected_errors_matching_deposits_to_mints k + 1\<rparr>]\<rparr>))
    \<and> (mt_id m = Some i \<and> mint_is_audited (st_db s) m \<longrightarrow>
      (\<exists>msg s'. try_match_mint_with_deposit X m cfg' s = (Err (AlreadyExists msg), s')
        \<and> st_db s' = (st_db s)\<lparr>t_counters := [k\<lparr>num_unexpected_errors_matching_mints_to_deposits :=
             num_unexpected_errors_matching_mints_to_deposits k + 1\<rparr>]\<rparr>))"
proof (intro conjI [OF impI impI]; elim conjE)
  assume j: "gsd_id x = Some j" "deposit_is_audited (st_db s) x"
    and safe: "eth_addr_eq (gsd_safe_addr x) (asc_safe_addr c)"
  obtain msg t where "match_deposit_tx X x c j s = (Err (AlreadyExists msg), t)"
    using match_deposit_tx_again [OF assms(1) j assms(2)] by blast
  then have m: "match_deposit_with_mint X x c s = (Err (AlreadyExists msg), rollback s t)"
    using j safe by (simp add: match_deposit_with_mint_def deposit_getters comp_defs bnd_def)
  have "t_counters (st_db (rollback s t)) = [k]" using assms(2) by simp
  note count_deposit_error_one [OF this, of "AlreadyExists msg"]
  then show "\<exists>msg s'. try_match_deposit_with_mint X x c s = (Err (AlreadyExists msg), s')
        \<and> st_db s' = (st_db s)\<lparr>t_counters := [k\<lparr>num_unexpected_errors_matching_deposits_to_mints :=
             num_unexpected_errors_matching_deposits_to_mints k + 1\<rparr>]\<rparr>"
    using count_errors_Err [of "match_deposit_with_mint X x c" s, OF m] by (simp add: try_match_deposit_with_mint_def)
next
  assume i: "mt_id m = Some i" "mint_is_audited (st_db s) m"
  obtain msg where "match_mint_tx X m cfg' i s = (Err (AlreadyExists msg), s)"
    using match_mint_tx_again [OF assms(1) i] by blast
  then have m: "match_mint_with_deposit X m cfg' s = (Err (AlreadyExists msg), s)"
    using i by (simp add: match_mint_with_deposit_def mint_tx_id_def comp_defs bnd_def)
  show "\<exists>msg s'. try_match_mint_with_deposit X m cfg' s = (Err (AlreadyExists msg), s')
        \<and> st_db s' = (st_db s)\<lparr>t_counters := [k\<lparr>num_unexpected_errors_matching_mints_to_deposits :=
             num_unexpected_errors_matching_mints_to_deposits k + 1\<rparr>]\<rparr>"
    using count_errors_Err [of "match_mint_with_deposit X m cfg'" s, OF m, of count_mint_error,
        OF count_mint_error_one [OF assms(2)]]
    by (simp add: try_match_mint_with_deposit_def)
qed

lemma mint_tables_ok_counters [simp]: "mint_tables_ok cfg (d\<lparr>t_counters := c\<rparr>) = mint_tables_ok cfg d"
  by (simp add: mint_tables_ok_def audited_mints_ok_def)

section \<open>The invariant is kept on every outcome\<close>

lemma keeps_count_mint_errors:
  assumes "\<And>d c. I (d\<lparr>t_counters := c\<rparr>) = I d"
  shows "keeps (\<lambda>s. I (st_db s)) (count_deposit_error e)" "keeps (\<lambda>s. I (st_db s)) (count_mint_error e)"
  by (cases e; simp add: inc_defs; rule keeps_impl_inc; rule assms)+

lemma try_match_deposit_tables:
  assumes "mint_tables_ok cfg (st_db s)" and "rowid_alloc (new_rowid X)"
    and "x \<in> set (t_gnosis_safe_deposits (st_db s))" and "c \<in> set (gsc_safes cfg)"
    and run: "try_match_deposit_with_mint X x c s = (r, s')"
  shows "mint_tables_ok cfg (st_db s')"
proof (rule count_errors_db [OF run [unfolded try_match_deposit_with_mint_def]])
  show "st_db t = st_db s" if "match_deposit_with_mint X x c s = (r, t)" "\<And>x. r \<noteq> Ok x" for r t
    using that by (rule match_deposit_with_mint_unchanged)
  show "mint_tables_ok cfg (st_db t)" if "match_deposit_with_mint X x c s = (Ok m, t)" for m t
  proof -
    from that have "try_match_deposit_with_mint X x c s = (Ok m, t)"
      by (simp add: try_match_deposit_with_mint_def)
    from match_deposit_links [OF assms(1-4) this] show ?thesis by blast
  qed
  show "keeps (\<lambda>s. mint_tables_ok cfg (st_db s)) (count_deposit_error e)" for e
    by (rule keeps_count_mint_errors) simp
qed fact

lemma try_match_mint_tables:
  assumes "mint_tables_ok cfg (st_db s)" and "rowid_alloc (new_rowid X)"
    and "m \<in> set (t_mint_txs (st_db s))"
    and run: "try_match_mint_with_deposit X m cfg s = (r, s')"
  shows "mint_tables_ok cfg (st_db s')"
proof (rule count_errors_db [OF run [unfolded try_match_mint_with_deposit_def]])
  show "st_db t = st_db s" if "match_mint_with_deposit X m cfg s = (r, t)" "\<And>x. r \<noteq> Ok x" for r t
    using that by (rule match_mint_with_deposit_unchanged)
  show "mint_tables_ok cfg (st_db t)" if "match_mint_with_deposit X m cfg s = (Ok x, t)" for x t
  proof -
    from that have "try_match_mint_with_deposit X m cfg s = (Ok x, t)"
      by (simp add: try_match_mint_with_deposit_def)
    from match_mint_links [OF assms(1-3) this] show ?thesis by blast
  qed
  show "keeps (\<lambda>s. mint_tables_ok cfg (st_db s)) (count_mint_error e)" for e
    by (rule keeps_count_mint_errors) simp
qed fact

end
