(* ===== verification/Audited_Burn.thy ===== *)
theory Audited_Burn
  imports Audited_Mint
begin

text \<open>
  Matching withdrawals with burns, \<open>src/db/models/audited_burn.rs\<close>: the two entry points (from a new
  withdrawal, from a new burn), the verification both use, recording the match, and the paginated
  listing. The theorems: a success records exactly one verified link and keeps matches one to one;
  a failure changes nothing but one counter, which the error selects; an unmatched pair that agrees
  is matched; and it does not matter from which side the match is made.
\<close>

section \<open>Operations\<close>

definition burns_join :: "database \<Rightarrow> (audited_burn \<times> burn_tx_out \<times> gnosis_safe_withdrawal) list" where
  "burns_join d = audit_join bto_id gsw_id ab_burn_tx_out_id ab_gnosis_safe_withdrawal_id
     (t_burn_tx_outs d) (t_gnosis_safe_withdrawals d) (t_audited_burns d)"

definition withdrawal_safe_mismatch :: "gnosis_safe_withdrawal \<Rightarrow> audited_safe_config \<Rightarrow> error" where
  "withdrawal_safe_mismatch withdrawal config =
     Other (''Gnosis safe withdrawal addr '' @ eth_addr_str (withdrawal_safe_addr withdrawal)
       @ '' does not match audited safe addr '' @ eth_addr_str (asc_safe_addr config))"

definition verify_burn_tx_out_matches_withdrawal ::
  "burn_tx_out \<Rightarrow> gnosis_safe_withdrawal \<Rightarrow> audited_safe_config \<Rightarrow> (error, unit) res" where
  "verify_burn_tx_out_matches_withdrawal burn_tx_out withdrawal config =
     (let pubkey = withdrawal_mc_tx_out_public_key_hex withdrawal
      in if \<not> eth_addr_eq (withdrawal_safe_addr withdrawal) (asc_safe_addr config) then
           Err (withdrawal_safe_mismatch withdrawal config)
         else rbind (res_ok_or (EthereumTokenNotAudited (withdrawal_token_addr withdrawal)
              (withdrawal_safe_addr withdrawal) (withdrawal_eth_tx_hash withdrawal))
              (get_token_by_eth_contract_addr config (withdrawal_token_addr withdrawal))) (\<lambda>audited_token.
           if at_token_id audited_token \<noteq> burn_tx_out_token_id burn_tx_out then
             Err (WithdrawalAndBurnMismatch (''BurnTxOut token_id='' @ show_u64 (burn_tx_out_token_id burn_tx_out)
               @ '' does not match audited token_id='' @ show_u64 (at_token_id audited_token)
               @ '' (pubkey='' @ pubkey @ '')''))
           else if burn_tx_out_public_key_hex burn_tx_out \<noteq> pubkey then
             Err (WithdrawalAndBurnMismatch (''BurnTxOut pubkey '' @ burn_tx_out_public_key_hex burn_tx_out
               @ '' does not match expected pubkey '' @ pubkey))
           else if burn_tx_out_amount burn_tx_out \<noteq> withdrawal_amount withdrawal then
             Err (WithdrawalAndBurnMismatch (''BurnTxOut amount='' @ show_u64 (burn_tx_out_amount burn_tx_out)
               @ '' does not match GnosisSafewithdrawal amount='' @ show_u64 (withdrawal_amount withdrawal)
               @ '' (pubkey='' @ pubkey @ '')''))
           else Ok ()))"

definition associate_withdrawal_with_burn :: "ext \<Rightarrow> i32 \<Rightarrow> i32 \<Rightarrow> unit dbm" where
  "associate_withdrawal_with_burn X gnosis_safe_withdrawal_id burn_tx_out_id' =
     insert_into_audited_burns X \<lparr>ab_id = None, ab_burn_tx_out_id = burn_tx_out_id',
       ab_gnosis_safe_withdrawal_id = gnosis_safe_withdrawal_id\<rparr>"

text \<open>The closure passed to \<open>transaction\<close>, the outer closure, the counting of its errors, and the
  function.\<close>

definition match_withdrawal_tx ::
  "ext \<Rightarrow> gnosis_safe_withdrawal \<Rightarrow> audited_safe_config \<Rightarrow> i32 \<Rightarrow> burn_tx_out dbm" where
  "match_withdrawal_tx X withdrawal config the_withdrawal_id =
     bnd (query (\<lambda>d. first_row (filter (\<lambda>(a, m, x). ab_gnosis_safe_withdrawal_id a = the_withdrawal_id)
            (burns_join d)))) (\<lambda>existing_match.
     bnd (case existing_match of
            Some (a, m, x) \<Rightarrow>
              throw (AlreadyExists (''GnosisSafeWithdrawal eth_tx_hash=''
                @ sql_eth_tx_hash_to_sql X (gsw_eth_tx_hash x)
                @ '' already matched with BurnTxOut pub_key='' @ bto_public_key_hex m))
          | None \<Rightarrow> ret ()) (\<lambda>_.
     bnd (find_unaudited_burn_tx_out_by_public_key (withdrawal_mc_tx_out_public_key_hex withdrawal)) (\<lambda>found.
     bnd (ok_or NotFound found) (\<lambda>burn_tx_out.
     bnd (lift_res (verify_burn_tx_out_matches_withdrawal burn_tx_out withdrawal config)) (\<lambda>_.
     bnd (expect_some ''got a BurnTxOut without id but database auto-populates that field''
            (burn_tx_out_id burn_tx_out)) (\<lambda>the_burn_id.
     bnd (associate_withdrawal_with_burn X the_withdrawal_id the_burn_id) (\<lambda>_.
     ret burn_tx_out)))))))"

definition match_withdrawal_with_burn ::
  "ext \<Rightarrow> gnosis_safe_withdrawal \<Rightarrow> audited_safe_config \<Rightarrow> burn_tx_out dbm" where
  "match_withdrawal_with_burn X withdrawal config =
     bnd (ok_or ObjectNotSaved (withdrawal_id withdrawal)) (\<lambda>the_withdrawal_id.
     if \<not> eth_addr_eq (withdrawal_safe_addr withdrawal) (asc_safe_addr config)
     then throw (withdrawal_safe_mismatch withdrawal config)
     else transaction (match_withdrawal_tx X withdrawal config the_withdrawal_id))"

fun count_withdrawal_error :: "error \<Rightarrow> unit dbm" where
  "count_withdrawal_error (WithdrawalAndBurnMismatch _) = inc_num_mismatching_burns_and_withdrawals"
| "count_withdrawal_error (EthereumTokenNotAudited _ _ _) = inc_num_unknown_ethereum_token_withdrawals"
| "count_withdrawal_error _ = inc_num_unexpected_errors_matching_withdrawals_to_burns"

definition try_match_withdrawal_with_burn ::
  "ext \<Rightarrow> gnosis_safe_withdrawal \<Rightarrow> audited_safe_config \<Rightarrow> burn_tx_out dbm" where
  "try_match_withdrawal_with_burn X withdrawal config =
     count_errors count_withdrawal_error (match_withdrawal_with_burn X withdrawal config)"

definition match_burn_tx_out ::
  "ext \<Rightarrow> burn_tx_out \<Rightarrow> gnosis_safe_config \<Rightarrow> i32 \<Rightarrow> gnosis_safe_withdrawal dbm" where
  "match_burn_tx_out X burn_tx_out config the_burn_id =
     bnd (query (\<lambda>d. first_row (filter (\<lambda>(a, m, x). ab_burn_tx_out_id a = the_burn_id)
            (burns_join d)))) (\<lambda>existing_match.
     bnd (case existing_match of
            Some (a, m, x) \<Rightarrow>
              throw (AlreadyExists (''BurnTxOut pub_key='' @ bto_public_key_hex m
                @ '' already matched with GnosisSafeDeposit eth_tx_hash=''
                @ sql_eth_tx_hash_to_sql X (gsw_eth_tx_hash x)))
          | None \<Rightarrow> ret ()) (\<lambda>_.
     bnd (find_unaudited_withdrawal_by_public_key (burn_tx_out_public_key_hex burn_tx_out)) (\<lambda>found.
     bnd (ok_or NotFound found) (\<lambda>withdrawal.
     bnd (ok_or (GnosisSafeNotAudited (withdrawal_safe_addr withdrawal))
            (get_audited_safe_config_by_safe_addr config (withdrawal_safe_addr withdrawal)))
       (\<lambda>audited_safe_config.
     bnd (lift_res (verify_burn_tx_out_matches_withdrawal burn_tx_out withdrawal audited_safe_config)) (\<lambda>_.
     bnd (expect_some ''got a GnosisSafeWithdrawal without id but database auto-populates that field''
            (withdrawal_id withdrawal)) (\<lambda>the_withdrawal_id.
     bnd (associate_withdrawal_with_burn X the_withdrawal_id the_burn_id) (\<lambda>_.
     ret withdrawal))))))))"

definition match_burn_with_withdrawal ::
  "ext \<Rightarrow> burn_tx_out \<Rightarrow> gnosis_safe_config \<Rightarrow> gnosis_safe_withdrawal dbm" where
  "match_burn_with_withdrawal X burn_tx_out config =
     bnd (ok_or ObjectNotSaved (burn_tx_out_id burn_tx_out)) (\<lambda>the_burn_id.
     transaction (match_burn_tx_out X burn_tx_out config the_burn_id))"

fun count_burn_error :: "error \<Rightarrow> unit dbm" where
  "count_burn_error (GnosisSafeNotAudited _) = inc_num_burns_from_unknown_safe"
| "count_burn_error (WithdrawalAndBurnMismatch _) = inc_num_mismatching_burns_and_withdrawals"
| "count_burn_error (EthereumTokenNotAudited _ _ _) = inc_num_unknown_ethereum_token_withdrawals"
| "count_burn_error _ = inc_num_unexpected_errors_matching_burns_to_withdrawals"

definition try_match_burn_with_withdrawal ::
  "ext \<Rightarrow> burn_tx_out \<Rightarrow> gnosis_safe_config \<Rightarrow> gnosis_safe_withdrawal dbm" where
  "try_match_burn_with_withdrawal X burn_tx_out config =
     count_errors count_burn_error (match_burn_with_withdrawal X burn_tx_out config)"

definition list_with_burn_and_withdrawal ::
  "u64 option \<Rightarrow> u64 option \<Rightarrow> (audited_burn \<times> burn_tx_out \<times> gnosis_safe_withdrawal) list dbm" where
  "list_with_burn_and_withdrawal offset limit =
     query (\<lambda>d. sql_offset_limit offset limit
       (sort_key (\<lambda>(a, m, x). id_or_default (ab_id a)) (burns_join d)))"

section \<open>Verification\<close>

text \<open>When a burn and a withdrawal agree: same public key, same amount, and the withdrawal's token is audited
  in the withdrawal's safe as the burn's token.\<close>

definition burn_withdrawal_agree :: "gnosis_safe_config \<Rightarrow> burn_tx_out \<Rightarrow> gnosis_safe_withdrawal \<Rightarrow> bool" where
  "burn_withdrawal_agree cfg m x \<longleftrightarrow> bto_public_key_hex m = gsw_mc_tx_out_public_key_hex x
     \<and> burn_tx_out_amount m = withdrawal_amount x
     \<and> (\<exists>c \<in> set (gsc_safes cfg). eth_addr_eq (gsw_safe_addr x) (asc_safe_addr c)
          \<and> (\<exists>tok. get_token_by_eth_contract_addr c (gsw_token_addr x) = Some tok
               \<and> at_token_id tok = burn_tx_out_token_id m))"

lemmas withdrawal_getters = withdrawal_id_def withdrawal_eth_tx_hash_def withdrawal_safe_addr_def
  withdrawal_token_addr_def withdrawal_mc_tx_out_public_key_hex_def

lemma verify_burn_Ok:
  "verify_burn_tx_out_matches_withdrawal m x c = Ok () \<longleftrightarrow>
     eth_addr_eq (gsw_safe_addr x) (asc_safe_addr c)
     \<and> (\<exists>tok. get_token_by_eth_contract_addr c (gsw_token_addr x) = Some tok
          \<and> at_token_id tok = burn_tx_out_token_id m)
     \<and> bto_public_key_hex m = gsw_mc_tx_out_public_key_hex x \<and> burn_tx_out_amount m = withdrawal_amount x"
  by (cases "get_token_by_eth_contract_addr c (gsw_token_addr x)")
    (simp_all add: verify_burn_tx_out_matches_withdrawal_def Let_def withdrawal_getters burn_tx_out_public_key_hex_def
      res_ok_or_def)

lemma verify_burn_agree:
  "verify_burn_tx_out_matches_withdrawal m x c = Ok () \<Longrightarrow> c \<in> set (gsc_safes cfg) \<Longrightarrow>
     burn_withdrawal_agree cfg m x"
  unfolding verify_burn_Ok burn_withdrawal_agree_def by blast

lemma verify_burn_outcomes:
  "(verify_burn_tx_out_matches_withdrawal m x c = Ok ()) \<or>
   (\<exists>e. verify_burn_tx_out_matches_withdrawal m x c = Err e \<and> \<not> should_retry e)"
  unfolding verify_burn_tx_out_matches_withdrawal_def Let_def withdrawal_safe_mismatch_def
  by (auto simp: rbind_def res_ok_or_def split: option.split)

lemma verify_burn_no_retry: "verify_burn_tx_out_matches_withdrawal m x c = Err e \<Longrightarrow> \<not> should_retry e"
  using verify_burn_outcomes [of m x c] by auto

section \<open>The invariant and recording a match\<close>

definition audited_burns_ok :: "gnosis_safe_config \<Rightarrow> database \<Rightarrow> bool" where
  "audited_burns_ok cfg d \<longleftrightarrow> audits_ok bto_id gsw_id ab_burn_tx_out_id ab_gnosis_safe_withdrawal_id
     (burn_withdrawal_agree cfg) (t_burn_tx_outs d) (t_gnosis_safe_withdrawals d) (t_audited_burns d)"

definition burn_links :: "database \<Rightarrow> (i32 \<rightharpoonup> i32)" where
  "burn_links d = links ab_burn_tx_out_id ab_gnosis_safe_withdrawal_id (t_audited_burns d)"

lemma associate_withdrawal_with_burn_OkD:
  assumes "associate_withdrawal_with_burn X j i s = (Ok u, s')"
  shows "\<exists>k. s' = s\<lparr>st_db := (st_db s)\<lparr>t_audited_burns := t_audited_burns (st_db s)
      @ [\<lparr>ab_id = Some k, ab_burn_tx_out_id = i, ab_gnosis_safe_withdrawal_id = j\<rparr>]\<rparr>, st_last_insert_rowid := k\<rparr>"
  using assms unfolding associate_withdrawal_with_burn_def insert_into_audited_burns_def
  by (rule ab.insert_OkE) auto

interpretation burn_pairing: pairing bto_id gsw_id ab_burn_tx_out_id ab_gnosis_safe_withdrawal_id
  "burn_withdrawal_agree cfg" t_burn_tx_outs t_gnosis_safe_withdrawals t_audited_burns
  "associate_withdrawal_with_burn X" for cfg X
proof
  fix g l s u s' assume "associate_withdrawal_with_burn X g l s = (Ok u, s')"
  from associate_withdrawal_with_burn_OkD [OF this]
  show "(\<exists>a. ab_burn_tx_out_id a = l \<and> ab_gnosis_safe_withdrawal_id a = g
        \<and> t_audited_burns (st_db s') = t_audited_burns (st_db s) @ [a])
    \<and> t_burn_tx_outs (st_db s') = t_burn_tx_outs (st_db s)
    \<and> t_gnosis_safe_withdrawals (st_db s') = t_gnosis_safe_withdrawals (st_db s)"
    by auto
qed

lemma no_retry_associate_withdrawal [no_retry_intros]: "no_retry (associate_withdrawal_with_burn X j i)"
  unfolding associate_withdrawal_with_burn_def insert_into_audited_burns_def by (intro no_retry_intros)

lemma burns_join_None:
  assumes "audited_burns_ok cfg d"
  shows "first_row (filter (\<lambda>(a, m, x). P a) (burns_join d)) = None \<longleftrightarrow>
    (\<forall>a \<in> set (t_audited_burns d). \<not> P a)"
  using assms unfolding audited_burns_ok_def burns_join_def by (rule audit_join_filter_None)

lemma burn_is_audited_iff:
  "bto_id m = Some i \<Longrightarrow> burn_is_audited d m \<longleftrightarrow> burn_links d i \<noteq> None"
  by (auto simp: burn_is_audited_def list_ex_iff burn_links_def links_None)

lemma withdrawal_is_audited_iff:
  "gsw_id x = Some j \<Longrightarrow> withdrawal_is_audited d x \<longleftrightarrow>
     (\<exists>a \<in> set (t_audited_burns d). ab_gnosis_safe_withdrawal_id a = j)"
  by (auto simp: withdrawal_is_audited_def list_ex_iff)

section \<open>The closures\<close>

lemma no_retry_match_burn_txs [no_retry_intros]:
  "no_retry (match_withdrawal_tx X x c j)" "no_retry (match_burn_tx_out X m cfg i)"
  unfolding match_withdrawal_tx_def match_burn_tx_out_def inc_defs
  by (intro no_retry_intros; simp add: verify_burn_no_retry)+

lemma match_withdrawal_tx_OkD:
  assumes "match_withdrawal_tx X x c j s = (Ok m, s')"
  shows "m \<in> set (t_burn_tx_outs (st_db s)) \<and> \<not> burn_is_audited (st_db s) m
    \<and> verify_burn_tx_out_matches_withdrawal m x c = Ok ()
    \<and> first_row (filter (\<lambda>(a, m, x). ab_gnosis_safe_withdrawal_id a = j) (burns_join (st_db s))) = None
    \<and> (\<exists>i. bto_id m = Some i \<and> associate_withdrawal_with_burn X j i s = (Ok (), s'))"
  using assms unfolding match_withdrawal_tx_def
  by (elim bnd_eq_OkE) (auto simp: comp_defs bnd_def burn_tx_out_id_def
      split: option.splits prod.splits res.splits dest!: find_unaudited_burn_tx_out_by_public_key_Some)

lemma match_burn_tx_out_OkD:
  assumes "match_burn_tx_out X m cfg i s = (Ok x, s')"
  shows "x \<in> set (t_gnosis_safe_withdrawals (st_db s)) \<and> \<not> withdrawal_is_audited (st_db s) x
    \<and> (\<exists>c. get_audited_safe_config_by_safe_addr cfg (gsw_safe_addr x) = Some c
         \<and> verify_burn_tx_out_matches_withdrawal m x c = Ok ())
    \<and> first_row (filter (\<lambda>(a, m, x). ab_burn_tx_out_id a = i) (burns_join (st_db s))) = None
    \<and> (\<exists>j. gsw_id x = Some j \<and> associate_withdrawal_with_burn X j i s = (Ok (), s'))"
  using assms unfolding match_burn_tx_out_def
  by (elim bnd_eq_OkE) (auto simp: comp_defs bnd_def withdrawal_getters
      split: option.splits prod.splits res.splits dest!: find_unaudited_withdrawal_by_public_key_Some)

lemma match_withdrawal_with_burn_OkD:
  assumes "match_withdrawal_with_burn X x c s = (Ok m, s')"
  shows "\<exists>j. gsw_id x = Some j \<and> match_withdrawal_tx X x c j s = (Ok m, s')"
  using assms unfolding match_withdrawal_with_burn_def
  by (auto simp: comp_defs withdrawal_getters bnd_def transaction_no_retry [OF no_retry_match_burn_txs(1)]
      conn_transaction_Ok split: option.splits if_splits)

lemma match_burn_with_withdrawal_OkD:
  assumes "match_burn_with_withdrawal X m cfg s = (Ok x, s')"
  shows "\<exists>i. bto_id m = Some i \<and> match_burn_tx_out X m cfg i s = (Ok x, s')"
  using assms unfolding match_burn_with_withdrawal_def
  by (auto simp: comp_defs burn_tx_out_id_def bnd_def transaction_no_retry [OF no_retry_match_burn_txs(2)]
      conn_transaction_Ok split: option.splits if_splits)

text \<open>Whatever else a closure does, the database is unchanged unless it returns a value.\<close>

lemma match_withdrawal_with_burn_unchanged:
  assumes "match_withdrawal_with_burn X x c s = (r, s')" and "\<And>m. r \<noteq> Ok m"
  shows "st_db s' = st_db s"
proof -
  have "st_db t' = st_db s" if "transaction f s = (r, t')" for f :: "burn_tx_out dbm" and t'
    using transaction_atomic [OF that] assms(2) by auto
  then show ?thesis
    using assms(1) unfolding match_withdrawal_with_burn_def
    by (auto simp: comp_defs bnd_def split: option.splits if_splits)
qed

lemma match_burn_with_withdrawal_unchanged:
  assumes "match_burn_with_withdrawal X m cfg s = (r, s')" and "\<And>x. r \<noteq> Ok x"
  shows "st_db s' = st_db s"
proof -
  have "st_db t' = st_db s" if "transaction f s = (r, t')" for f :: "gnosis_safe_withdrawal dbm" and t'
    using transaction_atomic [OF that] assms(2) by auto
  then show ?thesis
    using assms(1) unfolding match_burn_with_withdrawal_def
    by (auto simp: comp_defs bnd_def split: option.splits if_splits)
qed

lemmas match_burn_unchanged_on_Err =
  match_withdrawal_with_burn_unchanged [OF _ res.distinct(2)]
  match_burn_with_withdrawal_unchanged [OF _ res.distinct(2)]

section \<open>Successful matches\<close>

text \<open>The invariant of the burn side of the database.\<close>

definition burn_tables_ok :: "gnosis_safe_config \<Rightarrow> database \<Rightarrow> bool" where
  "burn_tables_ok cfg d \<longleftrightarrow> audited_burns_ok cfg d
     \<and> ids_ok bto_id (t_burn_tx_outs d) \<and> ids_ok gsw_id (t_gnosis_safe_withdrawals d)
     \<and> ids_ok ab_id (t_audited_burns d)
     \<and> distinct (map bto_public_key_hex (t_burn_tx_outs d))"

definition burn_linked_by :: "gnosis_safe_config \<Rightarrow> burn_tx_out \<Rightarrow> gnosis_safe_withdrawal \<Rightarrow> database \<Rightarrow> database \<Rightarrow> bool"
  where "burn_linked_by cfg m x d d' \<longleftrightarrow> (\<exists>i j. bto_id m = Some i \<and> gsw_id x = Some j
     \<and> m \<in> set (t_burn_tx_outs d) \<and> x \<in> set (t_gnosis_safe_withdrawals d) \<and> burn_withdrawal_agree cfg m x
     \<and> burn_links d i = None \<and> j \<notin> ran (burn_links d) \<and> burn_links d' = (burn_links d)(i \<mapsto> j)
     \<and> d' = d\<lparr>t_audited_burns := t_audited_burns d'\<rparr>)"

lemma associate_withdrawal_links:
  assumes inv: "burn_tables_ok cfg (st_db s)" and X: "rowid_alloc (new_rowid X)"
    and m: "m \<in> set (t_burn_tx_outs (st_db s))" "bto_id m = Some i"
    and x: "x \<in> set (t_gnosis_safe_withdrawals (st_db s))" "gsw_id x = Some j"
    and agree: "burn_withdrawal_agree cfg m x"
    and new: "\<forall>a \<in> set (t_audited_burns (st_db s)). ab_burn_tx_out_id a \<noteq> i"
      "\<forall>a \<in> set (t_audited_burns (st_db s)). ab_gnosis_safe_withdrawal_id a \<noteq> j"
    and run: "associate_withdrawal_with_burn X j i s = (Ok u, s')"
  shows "burn_linked_by cfg m x (st_db s) (st_db s')" and "burn_tables_ok cfg (st_db s')"
proof -
  have aok: "audits_ok bto_id gsw_id ab_burn_tx_out_id ab_gnosis_safe_withdrawal_id (burn_withdrawal_agree cfg)
      (t_burn_tx_outs (st_db s)) (t_gnosis_safe_withdrawals (st_db s)) (t_audited_burns (st_db s))"
    using inv by (simp add: burn_tables_ok_def audited_burns_ok_def)
  note keep = burn_pairing.associate_keeps [OF aok m x agree new run]
  obtain k where s': "s' = s\<lparr>st_db := (st_db s)\<lparr>t_audited_burns := t_audited_burns (st_db s)
      @ [\<lparr>ab_id = Some k, ab_burn_tx_out_id = i, ab_gnosis_safe_withdrawal_id = j\<rparr>]\<rparr>, st_last_insert_rowid := k\<rparr>"
    using associate_withdrawal_with_burn_OkD [OF run] by blast
  show "burn_linked_by cfg m x (st_db s) (st_db s')"
    using keep m x agree unfolding burn_linked_by_def burn_links_def
    by (intro exI [of _ i] exI [of _ j]) (simp add: s')
  have "ids_ok ab_id (t_audited_burns (st_db s'))"
    by (rule ab.insert_ids_ok [OF X _ _ run [unfolded associate_withdrawal_with_burn_def
          insert_into_audited_burns_def]])
      (use inv in \<open>simp_all add: burn_tables_ok_def\<close>)
  then show "burn_tables_ok cfg (st_db s')"
    using inv keep(1) by (simp add: burn_tables_ok_def audited_burns_ok_def s')
qed

lemma burn_not_audited: "\<not> burn_is_audited d m \<Longrightarrow> bto_id m = Some i \<Longrightarrow>
    \<forall>a \<in> set (t_audited_burns d). ab_burn_tx_out_id a \<noteq> i"
  by (auto simp: burn_is_audited_def list_ex_iff)

lemma withdrawal_not_audited: "\<not> withdrawal_is_audited d x \<Longrightarrow> gsw_id x = Some j \<Longrightarrow>
    \<forall>a \<in> set (t_audited_burns d). ab_gnosis_safe_withdrawal_id a \<noteq> j"
  by (auto simp: withdrawal_is_audited_def list_ex_iff)

lemma match_withdrawal_links:
  assumes "burn_tables_ok cfg (st_db s)" and "rowid_alloc (new_rowid X)"
    and "x \<in> set (t_gnosis_safe_withdrawals (st_db s))" and "c \<in> set (gsc_safes cfg)"
    and "try_match_withdrawal_with_burn X x c s = (Ok m, s')"
  shows "burn_linked_by cfg m x (st_db s) (st_db s') \<and> burn_tables_ok cfg (st_db s')
    \<and> inj_on (burn_links (st_db s')) (dom (burn_links (st_db s')))"
proof -
  have "match_withdrawal_with_burn X x c s = (Ok m, s')"
    using assms(5) unfolding try_match_withdrawal_with_burn_def by (rule count_errors_OkD)
  from match_withdrawal_with_burn_OkD [OF this] obtain j where j: "gsw_id x = Some j"
    and run: "match_withdrawal_tx X x c j s = (Ok m, s')" by blast
  from match_withdrawal_tx_OkD [OF run] obtain i where i: "bto_id m = Some i"
    and m: "m \<in> set (t_burn_tx_outs (st_db s))" "\<not> burn_is_audited (st_db s) m"
    and v: "verify_burn_tx_out_matches_withdrawal m x c = Ok ()"
    and none: "first_row (filter (\<lambda>(a, m, x). ab_gnosis_safe_withdrawal_id a = j) (burns_join (st_db s))) = None"
    and a: "associate_withdrawal_with_burn X j i s = (Ok (), s')" by blast
  have "\<forall>a \<in> set (t_audited_burns (st_db s)). ab_gnosis_safe_withdrawal_id a \<noteq> j"
    using burns_join_None [THEN iffD1, OF _ none] assms(1) by (auto simp: burn_tables_ok_def)
  note res = associate_withdrawal_links [OF assms(1,2) m(1) i assms(3) j
      verify_burn_agree [OF v assms(4)] burn_not_audited [OF m(2) i] this a]
  with burn_pairing.links_one_to_one show ?thesis
    unfolding burn_tables_ok_def audited_burns_ok_def burn_links_def by blast
qed

text \<open>C17: when a withdrawal of the database is matched with a burn, the burn returned is one of the
  database with the withdrawal's output key and amount whose token is audited for the withdrawal's contract;
  neither was linked before, the link between the two is all that changes in the database, and
  matches stay one to one with all table invariants kept.\<close>

theorem match_withdrawal_success:
  assumes "burn_tables_ok cfg (st_db s)" and "rowid_alloc (new_rowid X)"
    and "x \<in> set (t_gnosis_safe_withdrawals (st_db s))" and "c \<in> set (gsc_safes cfg)"
    and "try_match_withdrawal_with_burn X x c s = (Ok m, s')"
  shows "burn_linked_by cfg m x (st_db s) (st_db s') \<and> burn_tables_ok cfg (st_db s')
    \<and> inj_on (burn_links (st_db s')) (dom (burn_links (st_db s')))"
  using assms by (rule match_withdrawal_links)

lemma match_burn_links:
  assumes "burn_tables_ok cfg (st_db s)" and "rowid_alloc (new_rowid X)"
    and "m \<in> set (t_burn_tx_outs (st_db s))"
    and "try_match_burn_with_withdrawal X m cfg s = (Ok x, s')"
  shows "burn_linked_by cfg m x (st_db s) (st_db s') \<and> burn_tables_ok cfg (st_db s')
    \<and> inj_on (burn_links (st_db s')) (dom (burn_links (st_db s')))"
proof -
  have "match_burn_with_withdrawal X m cfg s = (Ok x, s')"
    using assms(4) unfolding try_match_burn_with_withdrawal_def by (rule count_errors_OkD)
  from match_burn_with_withdrawal_OkD [OF this] obtain i where i: "bto_id m = Some i"
    and run: "match_burn_tx_out X m cfg i s = (Ok x, s')" by blast
  from match_burn_tx_out_OkD [OF run] obtain j c where j: "gsw_id x = Some j"
    and x: "x \<in> set (t_gnosis_safe_withdrawals (st_db s))" "\<not> withdrawal_is_audited (st_db s) x"
    and c: "get_audited_safe_config_by_safe_addr cfg (gsw_safe_addr x) = Some c"
    and v: "verify_burn_tx_out_matches_withdrawal m x c = Ok ()"
    and none: "first_row (filter (\<lambda>(a, m, x). ab_burn_tx_out_id a = i) (burns_join (st_db s))) = None"
    and a: "associate_withdrawal_with_burn X j i s = (Ok (), s')" by blast
  have "\<forall>a \<in> set (t_audited_burns (st_db s)). ab_burn_tx_out_id a \<noteq> i"
    using burns_join_None [THEN iffD1, OF _ none] assms(1) by (auto simp: burn_tables_ok_def)
  moreover have "c \<in> set (gsc_safes cfg)"
    using get_audited_safe_config_by_safe_addr_Some [OF c] by simp
  ultimately have "burn_linked_by cfg m x (st_db s) (st_db s') \<and> burn_tables_ok cfg (st_db s')"
    using associate_withdrawal_links [OF assms(1,2,3) i x(1) j _ _ withdrawal_not_audited [OF x(2) j] a]
      verify_burn_agree [OF v] by blast
  with burn_pairing.links_one_to_one show ?thesis
    unfolding burn_tables_ok_def audited_burns_ok_def burn_links_def by blast
qed

text \<open>C18: the same when a burn of the database is matched with a withdrawal, whose safe then is one of
  the audited ones.\<close>

theorem match_burn_success:
  assumes "burn_tables_ok cfg (st_db s)" and "rowid_alloc (new_rowid X)"
    and "m \<in> set (t_burn_tx_outs (st_db s))"
    and "try_match_burn_with_withdrawal X m cfg s = (Ok x, s')"
  shows "burn_linked_by cfg m x (st_db s) (st_db s') \<and> burn_tables_ok cfg (st_db s')
    \<and> inj_on (burn_links (st_db s')) (dom (burn_links (st_db s')))"
  using assms by (rule match_burn_links)

section \<open>Errors\<close>

text \<open>The counter an error selects, on each side.\<close>

fun withdrawal_error_row :: "error \<Rightarrow> counters \<Rightarrow> counters" where
  "withdrawal_error_row (WithdrawalAndBurnMismatch _) k =
     k\<lparr>num_mismatching_burns_and_withdrawals := num_mismatching_burns_and_withdrawals k + 1\<rparr>"
| "withdrawal_error_row (EthereumTokenNotAudited _ _ _) k =
     k\<lparr>num_unknown_ethereum_token_withdrawals := num_unknown_ethereum_token_withdrawals k + 1\<rparr>"
| "withdrawal_error_row _ k = k\<lparr>num_unexpected_errors_matching_withdrawals_to_burns :=
     num_unexpected_errors_matching_withdrawals_to_burns k + 1\<rparr>"

fun burn_error_row :: "error \<Rightarrow> counters \<Rightarrow> counters" where
  "burn_error_row (GnosisSafeNotAudited _) k =
     k\<lparr>num_burns_from_unknown_safe := num_burns_from_unknown_safe k + 1\<rparr>"
| "burn_error_row (WithdrawalAndBurnMismatch _) k =
     k\<lparr>num_mismatching_burns_and_withdrawals := num_mismatching_burns_and_withdrawals k + 1\<rparr>"
| "burn_error_row (EthereumTokenNotAudited _ _ _) k =
     k\<lparr>num_unknown_ethereum_token_withdrawals := num_unknown_ethereum_token_withdrawals k + 1\<rparr>"
| "burn_error_row _ k = k\<lparr>num_unexpected_errors_matching_burns_to_withdrawals :=
     num_unexpected_errors_matching_burns_to_withdrawals k + 1\<rparr>"

lemma count_withdrawal_error_one:
  "t_counters (st_db s) = [k] \<Longrightarrow>
     count_withdrawal_error e s = (Ok (), set_counters (withdrawal_error_row e k) s)"
  by (cases k; cases e) (simp_all add: inc_defs)

lemma count_burn_error_one:
  "t_counters (st_db s) = [k] \<Longrightarrow>
     count_burn_error e s = (Ok (), set_counters (burn_error_row e k) s)"
  by (cases k; cases e) (simp_all add: inc_defs)

text \<open>A failed match changes no table but the counters, where exactly one counter goes up by one,
  selected by the error: mismatches, unaudited tokens and (from the burn side) unaudited safes have
  their own, every other error is an unexpected one of its direction. The Prometheus gauges show
  the new row.\<close>

lemma match_burn_errors_counted:
  assumes "t_counters (st_db s) = [k]"
  shows "(try_match_withdrawal_with_burn X x c s = (Err e, s') \<longrightarrow>
      st_db s' = (st_db s)\<lparr>t_counters := [withdrawal_error_row e k]\<rparr>
      \<and> (st_gauges s')\<lparr>ctr_id := ctr_id (withdrawal_error_row e k)\<rparr> = withdrawal_error_row e k)
    \<and> (try_match_burn_with_withdrawal X m cfg s = (Err e, s') \<longrightarrow>
      st_db s' = (st_db s)\<lparr>t_counters := [burn_error_row e k]\<rparr>
      \<and> (st_gauges s')\<lparr>ctr_id := ctr_id (burn_error_row e k)\<rparr> = burn_error_row e k)"
  unfolding try_match_withdrawal_with_burn_def try_match_burn_with_withdrawal_def
proof (intro conjI [OF impI impI])
  assume "count_errors count_withdrawal_error (match_withdrawal_with_burn X x c) s = (Err e, s')"
  then show "st_db s' = (st_db s)\<lparr>t_counters := [withdrawal_error_row e k]\<rparr>
      \<and> (st_gauges s')\<lparr>ctr_id := ctr_id (withdrawal_error_row e k)\<rparr> = withdrawal_error_row e k"
    by (rule count_errors_ErrD [OF _ match_burn_unchanged_on_Err(1) assms count_withdrawal_error_one])
next
  assume "count_errors count_burn_error (match_burn_with_withdrawal X m cfg) s = (Err e, s')"
  then show "st_db s' = (st_db s)\<lparr>t_counters := [burn_error_row e k]\<rparr>
      \<and> (st_gauges s')\<lparr>ctr_id := ctr_id (burn_error_row e k)\<rparr> = burn_error_row e k"
    by (rule count_errors_ErrD [OF _ match_burn_unchanged_on_Err(2) assms count_burn_error_one])
qed

section \<open>Matching from either side\<close>

lemma match_withdrawal_tx_run:
  assumes "burn_tables_ok cfg (st_db s)" and "m \<in> set (t_burn_tx_outs (st_db s))" "bto_id m = Some i"
    and "\<not> burn_is_audited (st_db s) m" "verify_burn_tx_out_matches_withdrawal m x c = Ok ()"
    and "gsw_id x = Some j" "\<not> withdrawal_is_audited (st_db s) x"
  shows "match_withdrawal_tx X x c j s = bnd (associate_withdrawal_with_burn X j i) (\<lambda>_. ret m) s"
proof -
  have "first_row (filter (\<lambda>(a, m, x). ab_gnosis_safe_withdrawal_id a = j) (burns_join (st_db s))) = None"
    by (rule burns_join_None [THEN iffD2, of cfg])
      (use assms in \<open>auto simp: burn_tables_ok_def withdrawal_is_audited_iff\<close>)
  moreover have "find_unaudited_burn_tx_out_by_public_key (gsw_mc_tx_out_public_key_hex x) s = (Ok (Some m), s)"
    using first_row_unique [of bto_public_key_hex "t_burn_tx_outs (st_db s)" m "\<lambda>m. \<not> burn_is_audited (st_db s) m"] assms
    by (simp add: find_unaudited_burn_tx_out_by_public_key_def burn_tables_ok_def verify_burn_Ok)
  ultimately show ?thesis
    using assms by (simp add: match_withdrawal_tx_def comp_defs withdrawal_getters burn_tx_out_id_def bnd_def)
qed

lemma match_burn_tx_out_run:
  assumes "burn_tables_ok cfg' (st_db s)" and "x \<in> set (t_gnosis_safe_withdrawals (st_db s))" "gsw_id x = Some j"
    and "\<not> withdrawal_is_audited (st_db s) x" "verify_burn_tx_out_matches_withdrawal m x c = Ok ()"
    and "get_audited_safe_config_by_safe_addr cfg (gsw_safe_addr x) = Some c"
    and "bto_id m = Some i" "\<not> burn_is_audited (st_db s) m"
    and only: "\<And>y. y \<in> set (t_gnosis_safe_withdrawals (st_db s)) \<Longrightarrow> gsw_mc_tx_out_public_key_hex y
      = gsw_mc_tx_out_public_key_hex x \<Longrightarrow> \<not> withdrawal_is_audited (st_db s) y \<Longrightarrow> y = x"
  shows "match_burn_tx_out X m cfg i s = bnd (associate_withdrawal_with_burn X j i) (\<lambda>_. ret x) s"
proof -
  have "first_row (filter (\<lambda>(a, m, x). ab_burn_tx_out_id a = i) (burns_join (st_db s))) = None"
    by (rule burns_join_None [THEN iffD2, of cfg'])
      (use assms burn_not_audited in \<open>auto simp: burn_tables_ok_def\<close>)
  moreover have "find_unaudited_withdrawal_by_public_key (bto_public_key_hex m) s = (Ok (Some x), s)"
    using first_row_only [of x "filter (\<lambda>y. gsw_mc_tx_out_public_key_hex y = bto_public_key_hex m
        \<and> \<not> withdrawal_is_audited (st_db s) y) (t_gnosis_safe_withdrawals (st_db s))"] assms
    by (auto simp: find_unaudited_withdrawal_by_public_key_def verify_burn_Ok)
  ultimately show ?thesis
    using assms(1-8) by (simp add: match_burn_tx_out_def comp_defs withdrawal_getters burn_tx_out_public_key_hex_def bnd_def)
qed

lemma associate_withdrawal_with_burn_run:
  assumes "rowid_alloc (new_rowid X)" and "ids_ok ab_id (t_audited_burns (st_db s))"
    and "m \<in> set (t_burn_tx_outs (st_db s))" "bto_id m = Some i"
    and "x \<in> set (t_gnosis_safe_withdrawals (st_db s))" "gsw_id x = Some j"
  shows "\<exists>s'. associate_withdrawal_with_burn X j i s = (Ok (), s')"
  unfolding associate_withdrawal_with_burn_def insert_into_audited_burns_def
  using ab.insert_new [OF assms(1,2), of "\<lparr>ab_id = None, ab_burn_tx_out_id = i, ab_gnosis_safe_withdrawal_id = j\<rparr>"
      "\<lambda>d r. None" "\<lambda>d r. list_ex (\<lambda>x. bto_id x = Some (ab_burn_tx_out_id r)) (t_burn_tx_outs d)
        \<and> list_ex (\<lambda>x. gsw_id x = Some (ab_gnosis_safe_withdrawal_id r)) (t_gnosis_safe_withdrawals d)"] assms(3-6)
  by (auto simp: list_ex_iff)

lemma match_withdrawal_run:
  assumes "burn_tables_ok cfg (st_db s)" and "rowid_alloc (new_rowid X)"
    and "m \<in> set (t_burn_tx_outs (st_db s))" "\<not> burn_is_audited (st_db s) m"
    and "x \<in> set (t_gnosis_safe_withdrawals (st_db s))" "\<not> withdrawal_is_audited (st_db s) x"
    and "verify_burn_tx_out_matches_withdrawal m x c = Ok ()"
  obtains i j s' where "bto_id m = Some i" and "gsw_id x = Some j"
    and "associate_withdrawal_with_burn X j i s = (Ok (), s')"
    and "try_match_withdrawal_with_burn X x c s = (Ok m, s')"
proof -
  obtain i j where i: "bto_id m = Some i" and j: "gsw_id x = Some j"
    using assms(1,3,5) unfolding burn_tables_ok_def ids_ok_def by blast
  obtain s' where a: "associate_withdrawal_with_burn X j i s = (Ok (), s')"
    using associate_withdrawal_with_burn_run [OF assms(2) _ assms(3) i assms(5) j] assms(1)
    by (auto simp: burn_tables_ok_def)
  have "match_withdrawal_tx X x c j s = (Ok m, s')"
    using match_withdrawal_tx_run [OF assms(1,3) i assms(4,7) j assms(6)] a by (simp add: ret_def)
  then have "match_withdrawal_with_burn X x c s = (Ok m, s')"
    using assms(7) j by (simp add: match_withdrawal_with_burn_def withdrawal_getters comp_defs bnd_def verify_burn_Ok)
  then have "try_match_withdrawal_with_burn X x c s = (Ok m, s')"
    by (simp add: try_match_withdrawal_with_burn_def)
  with i j a show thesis by (rule that)
qed

lemma match_burn_pair_run:
  assumes "burn_tables_ok cfg (st_db s)" and "rowid_alloc (new_rowid X)"
    and "m \<in> set (t_burn_tx_outs (st_db s))" "\<not> burn_is_audited (st_db s) m"
    and "x \<in> set (t_gnosis_safe_withdrawals (st_db s))" "\<not> withdrawal_is_audited (st_db s) x"
    and "get_audited_safe_config_by_safe_addr cfg (gsw_safe_addr x) = Some c"
    and "verify_burn_tx_out_matches_withdrawal m x c = Ok ()"
    and only: "\<And>y. y \<in> set (t_gnosis_safe_withdrawals (st_db s)) \<Longrightarrow> gsw_mc_tx_out_public_key_hex y
      = gsw_mc_tx_out_public_key_hex x \<Longrightarrow> \<not> withdrawal_is_audited (st_db s) y \<Longrightarrow> y = x"
  shows "\<exists>s'. try_match_withdrawal_with_burn X x c s = (Ok m, s')
    \<and> try_match_burn_with_withdrawal X m cfg s = (Ok x, s') \<and> burn_linked_by cfg m x (st_db s) (st_db s')"
proof -
  obtain i j s' where i: "bto_id m = Some i" and j: "gsw_id x = Some j"
    and a: "associate_withdrawal_with_burn X j i s = (Ok (), s')"
    and w: "try_match_withdrawal_with_burn X x c s = (Ok m, s')"
    by (rule match_withdrawal_run [OF assms(1-6,8)])
  have "match_burn_tx_out X m cfg i s = (Ok x, s')"
    using match_burn_tx_out_run [OF assms(1,5) j assms(6,8,7) i assms(4) only] a by (simp add: ret_def)
  then have "match_burn_with_withdrawal X m cfg s = (Ok x, s')"
    using i by (simp add: match_burn_with_withdrawal_def burn_tx_out_id_def comp_defs bnd_def)
  moreover have "c \<in> set (gsc_safes cfg)"
    using get_audited_safe_config_by_safe_addr_Some [OF assms(7)] by simp
  then have "burn_linked_by cfg m x (st_db s) (st_db s')"
    by (intro associate_withdrawal_links(1) [OF assms(1-3) i assms(5) j _ burn_not_audited [OF assms(4) i]
          withdrawal_not_audited [OF assms(6) j] a] verify_burn_agree [OF assms(8)])
  ultimately show ?thesis
    using w by (auto simp: try_match_burn_with_withdrawal_def)
qed

text \<open>The burn side stops at the first unmatched withdrawal with the key of the burn.\<close>

lemma match_burn_first_mismatch:
  assumes "burn_tables_ok cfg (st_db s)" and "m \<in> set (t_burn_tx_outs (st_db s))" "\<not> burn_is_audited (st_db s) m"
    and "first_row (filter (\<lambda>y. gsw_mc_tx_out_public_key_hex y = bto_public_key_hex m
      \<and> \<not> withdrawal_is_audited (st_db s) y) (t_gnosis_safe_withdrawals (st_db s))) = Some w"
    and "get_audited_safe_config_by_safe_addr cfg (gsw_safe_addr w) = Some c"
    and "verify_burn_tx_out_matches_withdrawal m w c = Err e"
  shows "match_burn_with_withdrawal X m cfg s = (Err e, rollback s s)"
proof -
  obtain i where i: "bto_id m = Some i" using assms(1,2) unfolding burn_tables_ok_def ids_ok_def by blast
  have "w \<in> set (t_gnosis_safe_withdrawals (st_db s))" using first_row_Some [OF assms(4)] by simp
  then obtain j where j: "gsw_id w = Some j" using assms(1) unfolding burn_tables_ok_def ids_ok_def by blast
  have "first_row (filter (\<lambda>(a, m, x). ab_burn_tx_out_id a = i) (burns_join (st_db s))) = None"
    by (rule burns_join_None [THEN iffD2, of cfg])
      (use assms(1) i burn_not_audited [OF assms(3)] in \<open>auto simp: burn_tables_ok_def\<close>)
  moreover have "find_unaudited_withdrawal_by_public_key (bto_public_key_hex m) s = (Ok (Some w), s)"
    using assms(4) by (simp add: find_unaudited_withdrawal_by_public_key_def)
  ultimately have "match_burn_tx_out X m cfg i s = (Err e, s)"
    using assms(5,6) j by (simp add: match_burn_tx_out_def comp_defs withdrawal_getters burn_tx_out_public_key_hex_def bnd_def)
  then show ?thesis
    using i by (simp add: match_burn_with_withdrawal_def burn_tx_out_id_def comp_defs bnd_def
        transaction_no_retry [OF no_retry_match_burn_txs(2)] conn_transaction_def)
qed

text \<open>C37: the audit of a burn stops at the first unmatched withdrawal that names its output key: when that one
  does not verify, the audit fails with its error, only a counter changes, and a later withdrawal that
  does verify is not tried, although the audit of that withdrawal would match the two in the same
  state. The table does not make the key unique.\<close>

theorem earlier_withdrawal_blocks:
  assumes "burn_tables_ok cfg (st_db s)" and "rowid_alloc (new_rowid X)" and "t_counters (st_db s) = [k]"
    and "m \<in> set (t_burn_tx_outs (st_db s))" "\<not> burn_is_audited (st_db s) m"
    and "x \<in> set (t_gnosis_safe_withdrawals (st_db s))" "\<not> withdrawal_is_audited (st_db s) x"
    and "c \<in> set (gsc_safes cfg)" "verify_burn_tx_out_matches_withdrawal m x c = Ok ()"
    and "first_row (filter (\<lambda>y. gsw_mc_tx_out_public_key_hex y = bto_public_key_hex m
      \<and> \<not> withdrawal_is_audited (st_db s) y) (t_gnosis_safe_withdrawals (st_db s))) = Some w"
    and "get_audited_safe_config_by_safe_addr cfg (gsw_safe_addr w) = Some cw"
    and "verify_burn_tx_out_matches_withdrawal m w cw = Err e"
  shows "(\<exists>s'. try_match_burn_with_withdrawal X m cfg s = (Err e, s')
       \<and> st_db s' = (st_db s)\<lparr>t_counters := [burn_error_row e k]\<rparr>)
    \<and> (\<exists>s'. try_match_withdrawal_with_burn X x c s = (Ok m, s') \<and> burn_linked_by cfg m x (st_db s) (st_db s'))"
proof -
  have "match_burn_with_withdrawal X m cfg s = (Err e, rollback s s)"
    by (rule match_burn_first_mismatch [OF assms(1,4,5,10-12)])
  then obtain s1 where run: "try_match_burn_with_withdrawal X m cfg s = (Err e, s1)"
    by (simp add: try_match_burn_with_withdrawal_def count_errors_def bnd_def attempt_def throw_def rollback_def
        count_burn_error_one [OF assms(3)])
  with match_burn_errors_counted [OF assms(3)] have "st_db s1 = (st_db s)\<lparr>t_counters := [burn_error_row e k]\<rparr>"
    by blast
  moreover obtain i j s2 where i: "bto_id m = Some i" and j: "gsw_id x = Some j"
    and a: "associate_withdrawal_with_burn X j i s = (Ok (), s2)"
    and w: "try_match_withdrawal_with_burn X x c s = (Ok m, s2)"
    by (rule match_withdrawal_run [OF assms(1,2,4-7,9)])
  have "burn_linked_by cfg m x (st_db s) (st_db s2)"
    by (intro associate_withdrawal_links(1) [OF assms(1,2,4) i assms(6) j _ burn_not_audited [OF assms(5) i]
          withdrawal_not_audited [OF assms(7) j] a] verify_burn_agree [OF assms(9,8)])
  ultimately show ?thesis using run w by blast
qed

text \<open>A withdrawal and a burn of the database that verify against the configuration of the
  withdrawal's safe and are both unmatched are matched from whichever side the audit starts, with
  the same resulting state, provided no other unmatched withdrawal claims the same output key
  (the table does not make that key unique).\<close>

lemma match_burn_order_irrelevant:
  assumes "burn_tables_ok cfg (st_db s)" and "rowid_alloc (new_rowid X)"
    and "m \<in> set (t_burn_tx_outs (st_db s))" "\<not> burn_is_audited (st_db s) m"
    and "x \<in> set (t_gnosis_safe_withdrawals (st_db s))" "\<not> withdrawal_is_audited (st_db s) x"
    and "get_audited_safe_config_by_safe_addr cfg (gsw_safe_addr x) = Some c"
    and "verify_burn_tx_out_matches_withdrawal m x c = Ok ()"
    and only: "\<And>y. y \<in> set (t_gnosis_safe_withdrawals (st_db s)) \<Longrightarrow> gsw_mc_tx_out_public_key_hex y
      = gsw_mc_tx_out_public_key_hex x \<Longrightarrow> \<not> withdrawal_is_audited (st_db s) y \<Longrightarrow> y = x"
  shows "\<exists>s'. try_match_withdrawal_with_burn X x c s = (Ok m, s')
    \<and> try_match_burn_with_withdrawal X m cfg s = (Ok x, s') \<and> burn_linked_by cfg m x (st_db s) (st_db s')"
  using assms by (rule match_burn_pair_run)

section \<open>Matched objects stay matched\<close>

lemma burns_join_Some:
  assumes "audited_burns_ok cfg d" and "a \<in> set (t_audited_burns d)" and "P a"
  shows "\<exists>a m x. first_row (filter (\<lambda>(a, m, x). P a) (burns_join d)) = Some (a, m, x)"
  using burns_join_None [OF assms(1), of P] assms(2,3)
  by (cases "first_row (filter (\<lambda>(a, m, x). P a) (burns_join d))") auto

lemma match_withdrawal_tx_again:
  assumes "burn_tables_ok cfg (st_db s)" and "gsw_id x = Some j" "withdrawal_is_audited (st_db s) x"
    and "t_counters (st_db s) = [k]"
  shows "\<exists>msg t. match_withdrawal_tx X x c j s = (Err (AlreadyExists msg), t)"
proof -
  obtain a where "a \<in> set (t_audited_burns (st_db s))" "ab_gnosis_safe_withdrawal_id a = j"
    using assms(2,3) by (auto simp: withdrawal_is_audited_iff)
  then obtain a' m' x' where
    "first_row (filter (\<lambda>(a, m, x). ab_gnosis_safe_withdrawal_id a = j) (burns_join (st_db s))) = Some (a', m', x')"
    using burns_join_Some [of cfg "st_db s" a "\<lambda>a. ab_gnosis_safe_withdrawal_id a = j"] assms(1)
    by (auto simp: burn_tables_ok_def)
  then show ?thesis
    using assms(4) by (simp add: match_withdrawal_tx_def inc_defs throw_def bnd_def)
qed

lemma match_burn_tx_out_again:
  assumes "burn_tables_ok cfg' (st_db s)" and "bto_id m = Some i" "burn_is_audited (st_db s) m"
  shows "\<exists>msg. match_burn_tx_out X m cfg i s = (Err (AlreadyExists msg), s)"
proof -
  obtain a where "a \<in> set (t_audited_burns (st_db s))" "ab_burn_tx_out_id a = i"
    using assms(2,3) by (auto simp: burn_is_audited_def list_ex_iff)
  then obtain a' m' x' where
    "first_row (filter (\<lambda>(a, m, x). ab_burn_tx_out_id a = i) (burns_join (st_db s))) = Some (a', m', x')"
    using burns_join_Some [of cfg' "st_db s" a "\<lambda>a. ab_burn_tx_out_id a = i"] assms(1)
    by (auto simp: burn_tables_ok_def)
  then show ?thesis
    by (simp add: match_burn_tx_out_def throw_def bnd_def)
qed

text \<open>Matching a burn or a withdrawal that is already matched fails with \<open>AlreadyExists\<close> from
  either side, whatever else the database holds, and is counted once as an unexpected error of its
  direction.\<close>

lemma match_burn_again_fails:
  assumes "burn_tables_ok cfg (st_db s)" and "t_counters (st_db s) = [k]"
  shows "(gsw_id x = Some j \<and> withdrawal_is_audited (st_db s) x
      \<and> eth_addr_eq (gsw_safe_addr x) (asc_safe_addr c) \<longrightarrow>
      (\<exists>msg s'. try_match_withdrawal_with_burn X x c s = (Err (AlreadyExists msg), s')
        \<and> st_db s' = (st_db s)\<lparr>t_counters := [k\<lparr>num_unexpected_errors_matching_withdrawals_to_burns :=
             num_unexpected_errors_matching_withdrawals_to_burns k + 1\<rparr>]\<rparr>))
    \<and> (bto_id m = Some i \<and> burn_is_audited (st_db s) m \<longrightarrow>
      (\<exists>msg s'. try_match_burn_with_withdrawal X m cfg' s = (Err (AlreadyExists msg), s')
        \<and> st_db s' = (st_db s)\<lparr>t_counters := [k\<lparr>num_unexpected_errors_matching_burns_to_withdrawals :=
             num_unexpected_errors_matching_burns_to_withdrawals k + 1\<rparr>]\<rparr>))"
proof (intro conjI [OF impI impI]; elim conjE)
  assume j: "gsw_id x = Some j" "withdrawal_is_audited (st_db s) x"
    and safe: "eth_addr_eq (gsw_safe_addr x) (asc_safe_addr c)"
  obtain msg t where "match_withdrawal_tx X x c j s = (Err (AlreadyExists msg), t)"
    using match_withdrawal_tx_again [OF assms(1) j assms(2)] by blast
  then have m: "match_withdrawal_with_burn X x c s = (Err (AlreadyExists msg), rollback s t)"
    using j safe by (simp add: match_withdrawal_with_burn_def withdrawal_getters comp_defs bnd_def)
  have "t_counters (st_db (rollback s t)) = [k]" using assms(2) by simp
  note count_withdrawal_error_one [OF this, of "AlreadyExists msg"]
  then show "\<exists>msg s'. try_match_withdrawal_with_burn X x c s = (Err (AlreadyExists msg), s')
        \<and> st_db s' = (st_db s)\<lparr>t_counters := [k\<lparr>num_unexpected_errors_matching_withdrawals_to_burns :=
             num_unexpected_errors_matching_withdrawals_to_burns k + 1\<rparr>]\<rparr>"
    using count_errors_Err [of "match_withdrawal_with_burn X x c" s, OF m] by (simp add: try_match_withdrawal_with_burn_def)
next
  assume i: "bto_id m = Some i" "burn_is_audited (st_db s) m"
  obtain msg where "match_burn_tx_out X m cfg' i s = (Err (AlreadyExists msg), s)"
    using match_burn_tx_out_again [OF assms(1) i] by blast
  then have m: "match_burn_with_withdrawal X m cfg' s = (Err (AlreadyExists msg), s)"
    using i by (simp add: match_burn_with_withdrawal_def burn_tx_out_id_def comp_defs bnd_def)
  show "\<exists>msg s'. try_match_burn_with_withdrawal X m cfg' s = (Err (AlreadyExists msg), s')
        \<and> st_db s' = (st_db s)\<lparr>t_counters := [k\<lparr>num_unexpected_errors_matching_burns_to_withdrawals :=
             num_unexpected_errors_matching_burns_to_withdrawals k + 1\<rparr>]\<rparr>"
    using count_errors_Err [of "match_burn_with_withdrawal X m cfg'" s, OF m, of count_burn_error,
        OF count_burn_error_one [OF assms(2)]]
    by (simp add: try_match_burn_with_withdrawal_def)
qed

lemma burn_tables_ok_counters [simp]: "burn_tables_ok cfg (d\<lparr>t_counters := c\<rparr>) = burn_tables_ok cfg d"
  by (simp add: burn_tables_ok_def audited_burns_ok_def)

section \<open>The invariant is kept on every outcome\<close>

lemma keeps_count_burn_errors:
  assumes "\<And>d c. I (d\<lparr>t_counters := c\<rparr>) = I d"
  shows "keeps (\<lambda>s. I (st_db s)) (count_withdrawal_error e)" "keeps (\<lambda>s. I (st_db s)) (count_burn_error e)"
  by (cases e; simp add: inc_defs; rule keeps_impl_inc; rule assms)+

lemma try_match_withdrawal_tables:
  assumes "burn_tables_ok cfg (st_db s)" and "rowid_alloc (new_rowid X)"
    and "x \<in> set (t_gnosis_safe_withdrawals (st_db s))" and "c \<in> set (gsc_safes cfg)"
    and run: "try_match_withdrawal_with_burn X x c s = (r, s')"
  shows "burn_tables_ok cfg (st_db s')"
proof (rule count_errors_db [OF run [unfolded try_match_withdrawal_with_burn_def]])
  show "st_db t = st_db s" if "match_withdrawal_with_burn X x c s = (r, t)" "\<And>x. r \<noteq> Ok x" for r t
    using that by (rule match_withdrawal_with_burn_unchanged)
  show "burn_tables_ok cfg (st_db t)" if "match_withdrawal_with_burn X x c s = (Ok m, t)" for m t
  proof -
    from that have "try_match_withdrawal_with_burn X x c s = (Ok m, t)"
      by (simp add: try_match_withdrawal_with_burn_def)
    from match_withdrawal_links [OF assms(1-4) this] show ?thesis by blast
  qed
  show "keeps (\<lambda>s. burn_tables_ok cfg (st_db s)) (count_withdrawal_error e)" for e
    by (rule keeps_count_burn_errors) simp
qed fact

lemma try_match_burn_tables:
  assumes "burn_tables_ok cfg (st_db s)" and "rowid_alloc (new_rowid X)"
    and "m \<in> set (t_burn_tx_outs (st_db s))"
    and run: "try_match_burn_with_withdrawal X m cfg s = (r, s')"
  shows "burn_tables_ok cfg (st_db s')"
proof (rule count_errors_db [OF run [unfolded try_match_burn_with_withdrawal_def]])
  show "st_db t = st_db s" if "match_burn_with_withdrawal X m cfg s = (r, t)" "\<And>x. r \<noteq> Ok x" for r t
    using that by (rule match_burn_with_withdrawal_unchanged)
  show "burn_tables_ok cfg (st_db t)" if "match_burn_with_withdrawal X m cfg s = (Ok x, t)" for x t
  proof -
    from that have "try_match_burn_with_withdrawal X m cfg s = (Ok x, t)"
      by (simp add: try_match_burn_with_withdrawal_def)
    from match_burn_links [OF assms(1-3) this] show ?thesis by blast
  qed
  show "keeps (\<lambda>s. burn_tables_ok cfg (st_db s)) (count_burn_error e)" for e
    by (rule keeps_count_burn_errors) simp
qed fact

end
