(* ===== verification/Sync_Block.thy ===== *)
theory Sync_Block
  imports Audited_Burn
begin

text \<open>
  Block synchronization, \<open>src/db/mod.rs\<close>: one database transaction per block that stores the
  block's mint configurations, mints and burns, accounts for the balance of every token, and
  advances the count of synced blocks. \<open>lookup_mint_config\<close> decides which active mint
  configuration allows a mint.

  The theorems: blocks are synced in order and never twice, a block that fails leaves no trace,
  the stored balances are those of the abstract account \<open>block_effect\<close>, every mint without a
  configuration and every burn that exceeds the balance is counted, and a configuration is found
  exactly when one is active, has signed and has room under both limits.
\<close>

section \<open>Mint configuration lookup\<close>

text \<open>The loop over the mint configs of the active transaction; \<open>continue\<close> is the next iteration.\<close>

primrec lookup_loop ::
  "ext \<Rightarrow> u64 \<Rightarrow> core_mint_tx \<Rightarrow> bytes \<Rightarrow> mint_config list \<Rightarrow> mint_config option dbm" where
  "lookup_loop X block_index mint_tx message [] = ret None"
| "lookup_loop X block_index mint_tx message (sql_mint_config # rest) =
     bnd (lift_res (mint_config_decode X sql_mint_config)) (\<lambda>mint_config.
     if res_ok (signer_set_verify X (cmc_signer_set mint_config) message (cmt_signature mint_tx)) = None
     then lookup_loop X block_index mint_tx message rest
     else
       bnd (mint_config_get_total_minted_before_block sql_mint_config block_index) (\<lambda>total_minted.
       case checked_add total_minted (mtp_amount (cmt_prefix mint_tx)) of
         Some new_total_minted \<Rightarrow>
           if new_total_minted \<le> mint_config_mint_limit sql_mint_config
           then ret (Some sql_mint_config)
           else lookup_loop X block_index mint_tx message rest
       | None \<Rightarrow> lookup_loop X block_index mint_tx message rest))"

definition lookup_mint_config :: "ext \<Rightarrow> u64 \<Rightarrow> core_mint_tx \<Rightarrow> mint_config option dbm" where
  "lookup_mint_config X block_index mint_tx =
     bnd (most_recent_for_token block_index (mtp_token_id (cmt_prefix mint_tx))) (\<lambda>row.
     case row of None \<Rightarrow> ret None
     | Some sql_mint_config_tx \<Rightarrow>
         bnd (mint_config_tx_get_total_minted_before_block sql_mint_config_tx block_index) (\<lambda>total_minted.
         case checked_add total_minted (mtp_amount (cmt_prefix mint_tx)) of
           None \<Rightarrow> ret None
         | Some new_total_minted \<Rightarrow>
             if new_total_minted > mint_config_tx_total_mint_limit sql_mint_config_tx then ret None
             else
               bnd (get_by_mint_config_tx_id (id_or_default (mint_config_tx_id sql_mint_config_tx)))
                 (lookup_loop X block_index mint_tx (prefix_hash X (cmt_prefix mint_tx)))))"

section \<open>Syncing a block\<close>

record sync_block_data =
  sbd_block_audit :: block_audit_data
  sbd_balance_map :: balance_map
  sbd_mint_txs :: "mint_tx list"
  sbd_burn_tx_outs :: "burn_tx_out list"

text \<open>\<open>*balance_map.entry(token_id).or_default()\<close>.\<close>

definition balance_of :: "balance_map \<Rightarrow> token_id \<Rightarrow> u64" where
  "balance_of m token_id = (case map_of m token_id of None \<Rightarrow> 0 | Some b \<Rightarrow> b)"

text \<open>The bodies of the two loops. The accumulator holds \<open>balance_map\<close> and the rows stored so far;
  the addition of a minted amount wraps.\<close>

definition sync_mint ::
  "ext \<Rightarrow> u64 \<Rightarrow> datetime option \<Rightarrow> core_mint_tx \<Rightarrow> balance_map \<times> mint_tx list
   \<Rightarrow> (balance_map \<times> mint_tx list) dbm" where
  "sync_mint X block_index block_timestamp mint_tx = (\<lambda>(balance_map, mint_txs).
     let token_id = mtp_token_id (cmt_prefix mint_tx);
         balance_map = AList.update token_id
           (balance_of balance_map token_id + mtp_amount (cmt_prefix mint_tx)) balance_map
     in
     bnd (lookup_mint_config X block_index mint_tx) (\<lambda>mint_config.
     bnd (if mint_config = None then inc_num_mint_txs_without_matching_mint_config else ret ()) (\<lambda>_.
     bnd (insert_from_core_mint_tx X block_index block_timestamp
            (Option.bind mint_config mint_config_id) mint_tx) (\<lambda>row.
     ret (balance_map, mint_txs @ [row])))))"

definition sync_burn ::
  "ext \<Rightarrow> burn_tx_out \<Rightarrow> balance_map \<times> burn_tx_out list \<Rightarrow> (balance_map \<times> burn_tx_out list) dbm" where
  "sync_burn X burn_tx_out = (\<lambda>(balance_map, burn_tx_outs).
     let amount = burn_tx_out_amount burn_tx_out;
         token_id = burn_tx_out_token_id burn_tx_out;
         burn_balance = balance_of balance_map token_id
     in
     bnd (if amount > burn_balance then inc_num_burns_exceeding_balance else ret ()) (\<lambda>_.
     bnd (burn_tx_out_insert X burn_tx_out) (\<lambda>row.
     ret (AList.update token_id (if amount > burn_balance then 0 else burn_balance - amount) balance_map,
          burn_tx_outs @ [row]))))"

definition find_burns :: "ext \<Rightarrow> u64 \<Rightarrow> datetime option \<Rightarrow> tx_out list \<Rightarrow> burn_tx_out list" where
  "find_burns X block_index block_timestamp outputs =
     List.map_filter (\<lambda>tx_out. res_ok (from_core_tx_out X block_index block_timestamp tx_out)) outputs"

definition sync_block_tx ::
  "ext \<Rightarrow> block \<Rightarrow> block_contents \<Rightarrow> datetime option \<Rightarrow> sync_block_data dbm" where
  "sync_block_tx X block block_contents block_timestamp =
     (let block_index = blk_index block in
     bnd counters_get (\<lambda>counters.
     let next_block_index = impl_get num_blocks_synced counters in
     if block_index \<noteq> next_block_index
     then throw (UnexpectedBlockIndex block_index next_block_index)
     else
     bnd (for_each (\<lambda>mint_config_tx.
            bnd (insert_from_core_mint_config_tx X block_index block_timestamp mint_config_tx) (\<lambda>_. ret ()))
          (bc_validated_mint_config_txs block_contents)) (\<lambda>_.
     bnd (if block_index = 0 then ret [] else get_balances_for_block (block_index - 1)) (\<lambda>balance_map.
     bnd (fold_m (sync_mint X block_index block_timestamp) (bc_mint_txs block_contents)
            (balance_map, [])) (\<lambda>(balance_map, mint_txs).
     bnd (fold_m (sync_burn X) (find_burns X block_index block_timestamp (bc_outputs block_contents))
            (balance_map, [])) (\<lambda>(balance_map, burn_tx_outs).
     bnd inc_num_blocks_synced (\<lambda>_.
     let block_audit = block_audit_data_new block_index in
     bnd (block_audit_data_set block_audit) (\<lambda>_.
     bnd (set_balances_for_block block_index balance_map) (\<lambda>_.
     ret \<lparr>sbd_block_audit = block_audit, sbd_balance_map = balance_map, sbd_mint_txs = mint_txs,
          sbd_burn_tx_outs = burn_tx_outs\<rparr>)))))))))"

definition sync_block_with_conn ::
  "ext \<Rightarrow> block \<Rightarrow> block_contents \<Rightarrow> datetime option \<Rightarrow> sync_block_data dbm" where
  "sync_block_with_conn X block block_contents block_timestamp =
     transaction (sync_block_tx X block block_contents block_timestamp)"

text \<open>\<open>sync_block\<close> takes a connection from the pool first; \<open>pool_get\<close> is that call.\<close>

definition sync_block ::
  "unit dbm \<Rightarrow> ext \<Rightarrow> block \<Rightarrow> block_contents \<Rightarrow> datetime option \<Rightarrow> sync_block_data dbm" where
  "sync_block pool_get X block block_contents block_timestamp =
     bnd pool_get (\<lambda>_. sync_block_with_conn X block block_contents block_timestamp)"

section \<open>The lookup is sound and complete\<close>

text \<open>The two totals as functions of the database.\<close>

definition config_total :: "database \<Rightarrow> mint_config \<Rightarrow> u64 \<Rightarrow> u64" where
  "config_total d self block_index = sum_list (map (\<lambda>(m, c, t). as_u64 (mt_amount m))
     (filter (\<lambda>(m, c, t). mct_block_index t < mt_block_index m
        \<and> mc_id c = Some (id_or_default (mc_id self)) \<and> mt_block_index m < as_i64 block_index) (minted_join d)))"

definition config_tx_total :: "database \<Rightarrow> mint_config_tx \<Rightarrow> u64 \<Rightarrow> u64" where
  "config_tx_total d self block_index = sum_list (map (\<lambda>(m, c, t). as_u64 (mt_amount m))
     (filter (\<lambda>(m, c, t). mct_block_index t < mt_block_index m
        \<and> mct_id t = Some (id_or_default (mct_id self)) \<and> mt_block_index m < as_i64 block_index) (minted_join d)))"

lemma config_total_eq [simp]:
  "mint_config_get_total_minted_before_block c b s = (Ok (config_total (st_db s) c b), s)"
  by (simp add: mint_config_get_total_minted_before_block_def config_total_def ret_def comp_def split_def)

lemma config_tx_total_eq [simp]:
  "mint_config_tx_get_total_minted_before_block t b s = (Ok (config_tx_total (st_db s) t b), s)"
  by (simp add: mint_config_tx_get_total_minted_before_block_def config_tx_total_def ret_def comp_def split_def)

text \<open>What it means that a config allows a mint, and that a transaction is the active one.\<close>

definition config_allows :: "ext \<Rightarrow> database \<Rightarrow> u64 \<Rightarrow> core_mint_tx \<Rightarrow> mint_config \<Rightarrow> bool" where
  "config_allows X d block_index mint_tx c \<longleftrightarrow>
     (\<exists>core signers. mint_config_decode X c = Ok core
        \<and> signer_set_verify X (cmc_signer_set core) (prefix_hash X (cmt_prefix mint_tx))
            (cmt_signature mint_tx) = Ok signers)
     \<and> unat (config_total d c block_index) + unat (mtp_amount (cmt_prefix mint_tx))
         \<le> unat (mint_config_mint_limit c)"

definition active_config_tx :: "database \<Rightarrow> u64 \<Rightarrow> token_id \<Rightarrow> mint_config_tx \<Rightarrow> bool" where
  "active_config_tx d block_index token_id t \<longleftrightarrow> t \<in> set (t_mint_config_txs d)
     \<and> mct_token_id t = as_i64 token_id \<and> mct_block_index t < as_i64 block_index
     \<and> (\<forall>u \<in> set (t_mint_config_txs d). mct_token_id u = as_i64 token_id \<longrightarrow>
          mct_block_index u < as_i64 block_index \<longrightarrow> mct_block_index u \<le> mct_block_index t)"

definition config_tx_allows :: "database \<Rightarrow> u64 \<Rightarrow> core_mint_tx \<Rightarrow> mint_config_tx \<Rightarrow> bool" where
  "config_tx_allows d block_index mint_tx t \<longleftrightarrow>
     unat (config_tx_total d t block_index) + unat (mtp_amount (cmt_prefix mint_tx))
       \<le> unat (mint_config_tx_total_mint_limit t)"

lemma unat_u64_less: "unat (w :: u64) < 2 ^ 64"
proof -
  have "unat w < 2 ^ LENGTH(64)" by (rule unsigned_less)
  then show ?thesis by simp
qed

lemma checked_add_le:
  "(case checked_add a b of None \<Rightarrow> x | Some n \<Rightarrow> if n \<le> l then y else x) =
     (if unat a + unat b \<le> unat l then y else x)"
  using unat_u64_less [of l] by (auto simp: checked_add_def word_le_nat_alt unat_add_u64)

lemma checked_add_gt:
  "(case checked_add a b of None \<Rightarrow> x | Some n \<Rightarrow> if l < n then x else y) =
     (if unat a + unat b \<le> unat l then y else x)"
  using unat_u64_less [of l]
  by (auto simp: checked_add_def word_less_nat_alt unat_add_u64)

lemma res_ok_None: "res_ok r = None \<longleftrightarrow> (\<forall>x. r \<noteq> Ok x)"
  by (auto simp: res_ok_def split: res.splits)

lemma lookup_loop_eq:
  assumes "\<forall>c \<in> set cs. \<exists>core. mint_config_decode X c = Ok core"
  shows "lookup_loop X b mtx (prefix_hash X (cmt_prefix mtx)) cs s =
    (Ok (List.find (config_allows X (st_db s) b mtx) cs), s)"
  using assms
proof (induction cs)
  case (Cons c cs)
  then obtain core where core: "mint_config_decode X c = Ok core" by auto
  have IH: "lookup_loop X b mtx (prefix_hash X (cmt_prefix mtx)) cs s =
    (Ok (List.find (config_allows X (st_db s) b mtx) cs), s)"
    using Cons by simp
  have "config_allows X (st_db s) b mtx c \<longleftrightarrow>
      (\<exists>signers. signer_set_verify X (cmc_signer_set core) (prefix_hash X (cmt_prefix mtx))
         (cmt_signature mtx) = Ok signers)
      \<and> unat (config_total (st_db s) c b) + unat (mtp_amount (cmt_prefix mtx))
          \<le> unat (mint_config_mint_limit c)"
    by (simp add: config_allows_def core)
  then show ?case
    using IH core by (auto simp: lift_res_def ret_def bnd_def res_ok_None checked_add_le)
qed (simp add: ret_def)

lemma active_config_tx_unique:
  assumes "distinct (map (\<lambda>t. (mct_block_index t, mct_token_id t)) (t_mint_config_txs d))"
    and "active_config_tx d b tok t" and "active_config_tx d b tok u"
  shows "u = t"
  using assms unfolding active_config_tx_def distinct_map
  by (metis (no_types, lifting) dual_order.antisym inj_onD)

lemma lookup_mint_config_inactive:
  assumes "most_recent_for_token b (mtp_token_id (cmt_prefix mtx)) s = (Ok None, s)"
  shows "lookup_mint_config X b mtx s = (Ok None, s)"
    and "\<not> active_config_tx (st_db s) b (mtp_token_id (cmt_prefix mtx)) t"
  using assms
  by (simp add: lookup_mint_config_def ret_def, auto simp: most_recent_for_token_None active_config_tx_def)

text \<open>With an active mint config transaction, the look-up is the first of its configs that allows the mint.\<close>

lemma lookup_mint_config_active:
  assumes "\<forall>c \<in> set (t_mint_configs (st_db s)). \<exists>core. mint_config_decode X c = Ok core"
    and "most_recent_for_token b (mtp_token_id (cmt_prefix mtx)) s = (Ok (Some t), s)" and "mct_id t = Some i"
  shows "lookup_mint_config X b mtx s =
    (Ok (if config_tx_allows (st_db s) b mtx t
         then List.find (config_allows X (st_db s) b mtx)
           (filter (\<lambda>c. mc_mint_config_tx_id c = i) (t_mint_configs (st_db s))) else None), s)"
proof -
  let ?mine = "filter (\<lambda>c. mc_mint_config_tx_id c = i) (t_mint_configs (st_db s))"
  have "lookup_loop X b mtx (prefix_hash X (cmt_prefix mtx)) ?mine s =
      (Ok (List.find (config_allows X (st_db s) b mtx) ?mine), s)"
    by (rule lookup_loop_eq) (use assms(1) in auto)
  then show ?thesis
    using assms(2,3)
    by (simp add: lookup_mint_config_def ret_def checked_add_gt config_tx_allows_def
        get_by_mint_config_tx_id_def mint_config_tx_id_def id_or_default_def
        if_distrib [of "\<lambda>f. f s"] option.case_distrib [of "\<lambda>f. f s"])
qed

text \<open>C13: \<open>lookup_mint_config\<close> never changes the state, and it finds a mint configuration exactly when
  the mint is allowed: the token's most recent mint config transaction before the block has room
  for the amount under its total limit, and one of its configs has signed the mint and has room
  under its own limit, both against what was minted in earlier blocks; it returns such a config.\<close>

theorem lookup_mint_config_correct:
  assumes "\<forall>c \<in> set (t_mint_configs (st_db s)). \<exists>core. mint_config_decode X c = Ok core"
    and "ids_ok mct_id (t_mint_config_txs (st_db s))"
    and "distinct (map (\<lambda>t. (mct_block_index t, mct_token_id t)) (t_mint_config_txs (st_db s)))"
  shows "\<exists>r. lookup_mint_config X b mtx s = (Ok r, s)
    \<and> (r = None \<longleftrightarrow> \<not> (\<exists>t c. active_config_tx (st_db s) b (mtp_token_id (cmt_prefix mtx)) t
         \<and> config_tx_allows (st_db s) b mtx t \<and> c \<in> set (t_mint_configs (st_db s))
         \<and> mct_id t = Some (mc_mint_config_tx_id c) \<and> config_allows X (st_db s) b mtx c))
    \<and> (\<forall>c. r = Some c \<longrightarrow> (\<exists>t. active_config_tx (st_db s) b (mtp_token_id (cmt_prefix mtx)) t
         \<and> config_tx_allows (st_db s) b mtx t \<and> c \<in> set (t_mint_configs (st_db s))
         \<and> mct_id t = Some (mc_mint_config_tx_id c) \<and> config_allows X (st_db s) b mtx c))"
proof -
  let ?tok = "mtp_token_id (cmt_prefix mtx)" and ?cs = "t_mint_configs (st_db s)"
  obtain row where row: "most_recent_for_token b ?tok s = (Ok row, s)"
    by (simp add: most_recent_for_token_def)
  show ?thesis
  proof (cases row)
    case None
    with row lookup_mint_config_inactive [of b mtx s] show ?thesis by auto
  next
    case (Some t)
    have act: "active_config_tx (st_db s) b ?tok t"
      using most_recent_for_token_Some [OF row [unfolded Some]] by (auto simp: active_config_tx_def)
    obtain i where i: "mct_id t = Some i"
      using act assms(2) by (auto simp: active_config_tx_def ids_ok_def)
    define r where "r = (if config_tx_allows (st_db s) b mtx t
        then List.find (config_allows X (st_db s) b mtx) (filter (\<lambda>c. mc_mint_config_tx_id c = i) ?cs) else None)"
    have none: "r = None \<longleftrightarrow> \<not> (config_tx_allows (st_db s) b mtx t \<and>
        (\<exists>c \<in> set ?cs. mct_id t = Some (mc_mint_config_tx_id c) \<and> config_allows X (st_db s) b mtx c))"
      using i by (auto simp: find_None_iff r_def)
    have some: "config_tx_allows (st_db s) b mtx t \<and> c \<in> set ?cs
        \<and> mct_id t = Some (mc_mint_config_tx_id c) \<and> config_allows X (st_db s) b mtx c"
      if "r = Some c" for c
      using that i by (auto simp: r_def dest!: find_Some_iff_in split: if_splits)
    have only: "(\<exists>t' c. active_config_tx (st_db s) b ?tok t' \<and> P t' c) \<longleftrightarrow> (\<exists>c. P t c)" for P
      using act active_config_tx_unique [OF assms(3) act] by metis
    show ?thesis
      using lookup_mint_config_active [OF assms(1) row [unfolded Some] i, folded r_def] none some act
      unfolding only by blast
  qed
qed

text \<open>The totals only see earlier blocks.\<close>

lemma minted_join_append:
  "minted_join (d\<lparr>t_mint_txs := t_mint_txs d @ ms\<rparr>) = minted_join d @ minted_join (d\<lparr>t_mint_txs := ms\<rparr>)"
  by (simp add: minted_join_def)

lemma minted_join_same_block:
  assumes "\<forall>m \<in> set ms. mt_block_index m = as_i64 b"
  shows "filter (\<lambda>(m, c, t). P m c t \<and> Q m c t \<and> mt_block_index m < as_i64 b)
    (minted_join (d\<lparr>t_mint_txs := ms\<rparr>)) = []"
  using assms by (auto simp: filter_empty_conv minted_join_def)

lemma totals_same_block:
  assumes "\<forall>m \<in> set ms. mt_block_index m = as_i64 b"
  shows "config_total (d\<lparr>t_mint_txs := t_mint_txs d @ ms\<rparr>) c b = config_total d c b"
    and "config_tx_total (d\<lparr>t_mint_txs := t_mint_txs d @ ms\<rparr>) t b = config_tx_total d t b"
  by (simp_all add: config_total_def config_tx_total_def minted_join_append minted_join_same_block [OF assms])

lemma lookup_loop_cong:
  assumes "\<And>c. config_total (st_db s) c b = config_total (st_db s') c b"
  shows "fst (lookup_loop X b mtx msg cs s) = fst (lookup_loop X b mtx msg cs s')"
  by (induction cs) (auto simp: bnd_def lift_res_def ret_def assms split: res.split option.split)

text \<open>C38: mints already stored for the same block are not taken into account: however many of them
  used a configuration, the next mint of the block gets the same answer as if it were the only one,
  so several mints of one block can together exceed the limits each of them respects.\<close>

theorem lookup_ignores_same_block:
  assumes "\<forall>m \<in> set ms. mt_block_index m = as_i64 b"
  shows "fst (lookup_mint_config X b mtx (s\<lparr>st_db := (st_db s)\<lparr>t_mint_txs := t_mint_txs (st_db s) @ ms\<rparr>\<rparr>))
    = fst (lookup_mint_config X b mtx s)"
proof -
  let ?s = "s\<lparr>st_db := (st_db s)\<lparr>t_mint_txs := t_mint_txs (st_db s) @ ms\<rparr>\<rparr>"
  have loop: "fst (lookup_loop X b mtx msg cs ?s) = fst (lookup_loop X b mtx msg cs s)" for msg cs
    by (rule lookup_loop_cong) (simp add: totals_same_block [OF assms])
  show ?thesis
    by (auto simp: lookup_mint_config_def most_recent_for_token_def bnd_def ret_def loop
        totals_same_block [OF assms] get_by_mint_config_tx_id_def split: option.split)
qed

section \<open>Accounting\<close>

text \<open>The abstract account: balances as a total function of the token, a mint adds (modulo
  \<open>2 ^ 64\<close>), a burn subtracts but not below zero.\<close>

definition mint_effect :: "core_mint_tx \<Rightarrow> (token_id \<Rightarrow> u64) \<Rightarrow> (token_id \<Rightarrow> u64)" where
  "mint_effect tx bal = bal(mtp_token_id (cmt_prefix tx) :=
     bal (mtp_token_id (cmt_prefix tx)) + mtp_amount (cmt_prefix tx))"

definition burn_effect :: "burn_tx_out \<Rightarrow> (token_id \<Rightarrow> u64) \<Rightarrow> (token_id \<Rightarrow> u64)" where
  "burn_effect b bal = bal(burn_tx_out_token_id b :=
     (if burn_tx_out_amount b > bal (burn_tx_out_token_id b) then 0
      else bal (burn_tx_out_token_id b) - burn_tx_out_amount b))"

primrec exceeding_burns :: "burn_tx_out list \<Rightarrow> (token_id \<Rightarrow> u64) \<Rightarrow> nat" where
  "exceeding_burns [] bal = 0"
| "exceeding_burns (b # bs) bal =
     (if burn_tx_out_amount b > bal (burn_tx_out_token_id b) then 1 else 0)
       + exceeding_burns bs (burn_effect b bal)"

lemma balance_of_update [simp]: "balance_of (AList.update k v m) = (balance_of m)(k := v)"
  by (auto simp: balance_of_def fun_eq_iff)

lemma balance_of_Nil [simp]: "balance_of [] = (\<lambda>_. 0)"
  by (simp add: balance_of_def fun_eq_iff)

subsection \<open>One mint\<close>

text \<open>How a stored row relates to the mint it records: its values, and whether a configuration was
  found for it.\<close>

definition mint_row :: "ext \<Rightarrow> u64 \<Rightarrow> datetime option \<Rightarrow> core_mint_tx \<Rightarrow> mint_tx \<Rightarrow> bool" where
  "mint_row X i ts tx row \<longleftrightarrow> (\<exists>id. mt_id row = Some id
     \<and> from_core_mint_tx X i ts (mt_mint_config_id row) tx = Ok (row\<lparr>mt_id := None\<rparr>))"

lemma lookup_loop_state:
  "lookup_loop X b mtx msg cs s = (Ok r, s') \<Longrightarrow> s' = s \<and> (\<forall>c. r = Some c \<longrightarrow> c \<in> set cs)"
  by (induction cs arbitrary: r) (fastforce simp: bnd_def lift_res_def ret_def
      split: res.splits if_splits option.splits)+

lemma lookup_mint_config_OkD:
  assumes "lookup_mint_config X b mtx s = (Ok r, s')"
  shows "s' = s \<and> (\<forall>c. r = Some c \<longrightarrow> c \<in> set (t_mint_configs (st_db s)))"
  using assms unfolding lookup_mint_config_def
  by (auto simp: bnd_def ret_def most_recent_for_token_def get_by_mint_config_tx_id_def
      split: option.splits if_splits dest!: lookup_loop_state)

lemma insert_from_core_mint_tx_OkD:
  assumes "insert_from_core_mint_tx X i ts c tx s = (Ok row, s')"
  shows "mint_row X i ts tx row \<and> mt_mint_config_id row = c
    \<and> (\<exists>k. s' = s\<lparr>st_db := (st_db s)\<lparr>t_mint_txs := t_mint_txs (st_db s) @ [row]\<rparr>, st_last_insert_rowid := k\<rparr>)"
proof -
  obtain m where m: "from_core_mint_tx X i ts c tx = Ok m" and ins: "mint_tx_insert X m s = (Ok row, s')"
    using assms unfolding insert_from_core_mint_tx_def by (auto simp: lift_res_def elim!: bnd_eq_OkE)
  from mint_tx_insert_OkD [OF ins] obtain k where "mt_id m = None" and row: "row = m\<lparr>mt_id := Some k\<rparr>"
    and s': "s' = s\<lparr>st_db := (st_db s)\<lparr>t_mint_txs := t_mint_txs (st_db s) @ [row]\<rparr>, st_last_insert_rowid := k\<rparr>"
    by blast
  moreover have "mt_mint_config_id m = c" using from_core_mint_tx_values [OF m] by simp
  ultimately show ?thesis
    using m s' by (cases m) (auto simp: mint_row_def)
qed

text \<open>The row of the counters table with a number of mints without configuration added.\<close>

definition add_unmatched_mints :: "nat \<Rightarrow> counters \<Rightarrow> counters" where
  "add_unmatched_mints n c = c\<lparr>num_mint_txs_without_matching_mint_config :=
     num_mint_txs_without_matching_mint_config c + int n\<rparr>"

definition add_exceeding_burns :: "nat \<Rightarrow> counters \<Rightarrow> counters" where
  "add_exceeding_burns n c = c\<lparr>num_burns_exceeding_balance := num_burns_exceeding_balance c + int n\<rparr>"

lemma add_counters_simps [simp]:
  "add_unmatched_mints 0 c = c" "add_exceeding_burns 0 c = c"
  "add_unmatched_mints n (add_unmatched_mints m c) = add_unmatched_mints (m + n) c"
  "add_exceeding_burns n (add_exceeding_burns m c) = add_exceeding_burns (m + n) c"
  "num_blocks_synced (add_unmatched_mints n c) = num_blocks_synced c"
  "num_blocks_synced (add_exceeding_burns n c) = num_blocks_synced c"
  by (cases c; simp add: add_unmatched_mints_def add_exceeding_burns_def)+

lemma sync_mint_OkD:
  assumes "sync_mint X i ts tx (bm, ms) s = (Ok (bm', ms'), s')" and "t_counters (st_db s) = [c]"
    and "ids_ok mc_id (t_mint_configs (st_db s))" and "distinct (map fst bm)"
  shows "\<exists>row. mint_row X i ts tx row \<and> ms' = ms @ [row] \<and> distinct (map fst bm')
    \<and> balance_of bm' = mint_effect tx (balance_of bm)
    \<and> st_db s' = (st_db s)\<lparr>t_mint_txs := t_mint_txs (st_db s) @ [row],
        t_counters := [add_unmatched_mints (if mt_mint_config_id row = None then 1 else 0) c]\<rparr>"
proof -
  from assms(1) obtain cfg s1 s2 row u where lk: "lookup_mint_config X i tx s = (Ok cfg, s1)"
    and inc: "(if cfg = None then inc_num_mint_txs_without_matching_mint_config else ret ()) s1 = (Ok u, s2)"
    and ins: "insert_from_core_mint_tx X i ts (Option.bind cfg mint_config_id) tx s2 = (Ok row, s')"
    and out: "ms' = ms @ [row]" "bm' = AList.update (mtp_token_id (cmt_prefix tx))
       (balance_of bm (mtp_token_id (cmt_prefix tx)) + mtp_amount (cmt_prefix tx)) bm"
    unfolding sync_mint_def by (auto simp: Let_def ret_def elim!: bnd_eq_OkE)
  from lookup_mint_config_OkD [OF lk] have s1: "s1 = s"
    and cfg: "\<And>k. cfg = Some k \<Longrightarrow> k \<in> set (t_mint_configs (st_db s))" by auto
  have none: "Option.bind cfg mint_config_id = None \<longleftrightarrow> cfg = None"
    using cfg assms(3) by (cases cfg) (auto simp: mint_config_id_def ids_ok_def)
  from insert_from_core_mint_tx_OkD [OF ins] have row: "mint_row X i ts tx row"
    "mt_mint_config_id row = Option.bind cfg mint_config_id"
    and db: "st_db s' = (st_db s2)\<lparr>t_mint_txs := t_mint_txs (st_db s2) @ [row]\<rparr>" by auto
  have "st_db s2 = (st_db s)\<lparr>t_counters := [add_unmatched_mints (if cfg = None then 1 else 0) c]\<rparr>"
    using inc assms(2) by (auto simp: s1 ret_def inc_one add_unmatched_mints_def split: if_splits)
  with db none row show ?thesis
    by (intro exI [of _ row]) (simp add: out mint_effect_def distinct_update assms(4))
qed

lemma fold_sync_mint_OkD:
  assumes "fold_m (sync_mint X i ts) txs (bm, ms) s = (Ok (bm', ms'), s')" and "t_counters (st_db s) = [c]"
    and "ids_ok mc_id (t_mint_configs (st_db s))" and "distinct (map fst bm)"
  shows "\<exists>rows. list_all2 (mint_row X i ts) txs rows \<and> ms' = ms @ rows \<and> distinct (map fst bm')
    \<and> balance_of bm' = fold mint_effect txs (balance_of bm)
    \<and> st_db s' = (st_db s)\<lparr>t_mint_txs := t_mint_txs (st_db s) @ rows, t_counters :=
        [add_unmatched_mints (length (filter (\<lambda>r. mt_mint_config_id r = None) rows)) c]\<rparr>"
  using assms
proof (induction txs arbitrary: bm ms s c)
  case Nil
  then show ?case by (simp add: ret_def)
next
  case (Cons tx txs)
  from Cons.prems(1) obtain bm1 ms1 s1 where one: "sync_mint X i ts tx (bm, ms) s = (Ok (bm1, ms1), s1)"
    and rest: "fold_m (sync_mint X i ts) txs (bm1, ms1) s1 = (Ok (bm', ms'), s')"
    by (auto elim!: bnd_eq_OkE)
  from sync_mint_OkD [OF one Cons.prems(2-4)] obtain row where row: "mint_row X i ts tx row"
    "ms1 = ms @ [row]" "distinct (map fst bm1)" "balance_of bm1 = mint_effect tx (balance_of bm)"
    and db: "st_db s1 = (st_db s)\<lparr>t_mint_txs := t_mint_txs (st_db s) @ [row],
        t_counters := [add_unmatched_mints (if mt_mint_config_id row = None then 1 else 0) c]\<rparr>" by blast
  from Cons.IH [OF rest, of "add_unmatched_mints (if mt_mint_config_id row = None then 1 else 0) c"]
  obtain rows where "list_all2 (mint_row X i ts) txs rows" "ms' = ms1 @ rows" "distinct (map fst bm')"
    "balance_of bm' = fold mint_effect txs (balance_of bm1)"
    "st_db s' = (st_db s1)\<lparr>t_mint_txs := t_mint_txs (st_db s1) @ rows, t_counters :=
        [add_unmatched_mints (length (filter (\<lambda>r. mt_mint_config_id r = None) rows))
          (add_unmatched_mints (if mt_mint_config_id row = None then 1 else 0) c)]\<rparr>"
    using db row Cons.prems(3) by auto
  then show ?case
    using row by (intro exI [of _ "row # rows"]) (auto simp: db)
qed

subsection \<open>One burn\<close>

definition burn_row :: "burn_tx_out \<Rightarrow> burn_tx_out \<Rightarrow> bool" where
  "burn_row b row \<longleftrightarrow> (\<exists>id. row = b\<lparr>bto_id := Some id\<rparr>)"

lemma sync_burn_OkD:
  assumes "sync_burn X b (bm, bs) s = (Ok (bm', bs'), s')" and "t_counters (st_db s) = [c]"
    and "distinct (map fst bm)"
  shows "\<exists>row. burn_row b row \<and> bs' = bs @ [row] \<and> distinct (map fst bm')
    \<and> balance_of bm' = burn_effect b (balance_of bm)
    \<and> st_db s' = (st_db s)\<lparr>t_burn_tx_outs := t_burn_tx_outs (st_db s) @ [row],
        t_counters := [add_exceeding_burns (exceeding_burns [b] (balance_of bm)) c]\<rparr>"
proof -
  let ?ex = "burn_tx_out_amount b > balance_of bm (burn_tx_out_token_id b)"
  from assms(1) obtain s1 row u where
    inc: "(if ?ex then inc_num_burns_exceeding_balance else ret ()) s = (Ok u, s1)"
    and ins: "burn_tx_out_insert X b s1 = (Ok row, s')"
    and out: "bs' = bs @ [row]" "bm' = AList.update (burn_tx_out_token_id b) (if ?ex then 0
      else balance_of bm (burn_tx_out_token_id b) - burn_tx_out_amount b) bm"
    unfolding sync_burn_def by (auto simp: Let_def ret_def elim!: bnd_eq_OkE)
  from burn_tx_out_insert_OkD [OF ins] have row: "burn_row b row"
    and db: "st_db s' = (st_db s1)\<lparr>t_burn_tx_outs := t_burn_tx_outs (st_db s1) @ [row]\<rparr>"
    by (auto simp: burn_row_def)
  have "st_db s1 = (st_db s)\<lparr>t_counters := [add_exceeding_burns (if ?ex then 1 else 0) c]\<rparr>"
    using inc assms(2) by (auto simp: ret_def inc_one add_exceeding_burns_def split: if_splits)
  with db row show ?thesis
    by (intro exI [of _ row]) (simp add: out burn_effect_def distinct_update assms(3))
qed

lemma fold_sync_burn_OkD:
  assumes "fold_m (sync_burn X) burns (bm, bs) s = (Ok (bm', bs'), s')" and "t_counters (st_db s) = [c]"
    and "distinct (map fst bm)"
  shows "\<exists>rows. list_all2 burn_row burns rows \<and> bs' = bs @ rows \<and> distinct (map fst bm')
    \<and> balance_of bm' = fold burn_effect burns (balance_of bm)
    \<and> st_db s' = (st_db s)\<lparr>t_burn_tx_outs := t_burn_tx_outs (st_db s) @ rows, t_counters :=
        [add_exceeding_burns (exceeding_burns burns (balance_of bm)) c]\<rparr>"
  using assms
proof (induction burns arbitrary: bm bs s c)
  case Nil
  then show ?case by (simp add: ret_def)
next
  case (Cons b burns)
  from Cons.prems(1) obtain bm1 bs1 s1 where one: "sync_burn X b (bm, bs) s = (Ok (bm1, bs1), s1)"
    and rest: "fold_m (sync_burn X) burns (bm1, bs1) s1 = (Ok (bm', bs'), s')"
    by (auto elim!: bnd_eq_OkE)
  from sync_burn_OkD [OF one Cons.prems(2,3)] obtain row where row: "burn_row b row"
    "bs1 = bs @ [row]" "distinct (map fst bm1)" "balance_of bm1 = burn_effect b (balance_of bm)"
    and db: "st_db s1 = (st_db s)\<lparr>t_burn_tx_outs := t_burn_tx_outs (st_db s) @ [row],
        t_counters := [add_exceeding_burns (exceeding_burns [b] (balance_of bm)) c]\<rparr>" by blast
  from Cons.IH [OF rest, of "add_exceeding_burns (exceeding_burns [b] (balance_of bm)) c"]
  obtain rows where "list_all2 burn_row burns rows" "bs' = bs1 @ rows" "distinct (map fst bm')"
    "balance_of bm' = fold burn_effect burns (balance_of bm1)"
    "st_db s' = (st_db s1)\<lparr>t_burn_tx_outs := t_burn_tx_outs (st_db s1) @ rows, t_counters :=
        [add_exceeding_burns (exceeding_burns burns (balance_of bm1))
          (add_exceeding_burns (exceeding_burns [b] (balance_of bm)) c)]\<rparr>"
    using db row by auto
  then show ?case
    using row by (intro exI [of _ "row # rows"]) (auto simp: db)
qed

subsection \<open>The mint config transactions\<close>

text \<open>Storing mint config transactions touches their two tables only.\<close>

definition outside_configs :: "database \<Rightarrow> database" where
  "outside_configs d = d\<lparr>t_mint_config_txs := [], t_mint_configs := []\<rparr>"

definition store_config_txs ::
  "ext \<Rightarrow> u64 \<Rightarrow> datetime option \<Rightarrow> core_mint_config_tx list \<Rightarrow> unit dbm" where
  "store_config_txs X i ts txs =
     for_each (\<lambda>tx. bnd (insert_from_core_mint_config_tx X i ts tx) (\<lambda>_. ret ())) txs"

lemma keeps_store_config_txs:
  assumes "\<And>j c. keeps (\<lambda>s. I (st_db s)) (insert_into_mint_configs X (from_core_mint_config X j c))"
    and "\<And>tx. keeps (\<lambda>s. I (st_db s)) (insert_into_mint_config_txs X (from_core_mint_config_tx X i ts tx))"
  shows "keeps (\<lambda>s. I (st_db s)) (store_config_txs X i ts txs)"
  unfolding store_config_txs_def insert_from_core_mint_config_tx_def mint_config_tx_insert_def
    insert_from_core_mint_config_def mint_config_insert_def
  by (intro keeps_intros assms)

lemma store_config_txs_frame:
  assumes "store_config_txs X i ts txs s = (r, s')"
  shows "outside_configs (st_db s') = outside_configs (st_db s)"
proof -
  have "keeps (\<lambda>t. outside_configs (st_db t) = outside_configs (st_db s)) (store_config_txs X i ts txs)"
    unfolding insert_into_mint_configs_def insert_into_mint_config_txs_def
    by (rule keeps_store_config_txs; unfold insert_into_mint_configs_def insert_into_mint_config_txs_def;
        rule keeps_sql_insert) (simp_all add: outside_configs_def)
  from keepsD [OF this refl assms] show ?thesis .
qed

lemma store_config_txs_ids:
  assumes "rowid_alloc (new_rowid X)" and "ids_ok mc_id (t_mint_configs (st_db s))"
    and "store_config_txs X i ts txs s = (r, s')"
  shows "ids_ok mc_id (t_mint_configs (st_db s'))"
proof -
  have "keeps (\<lambda>t. ids_ok mc_id (t_mint_configs (st_db t))) (store_config_txs X i ts txs)"
  proof (rule keeps_store_config_txs)
    show "keeps (\<lambda>s. ids_ok mc_id (t_mint_configs (st_db s)))
        (insert_into_mint_configs X (from_core_mint_config X j c))" for j c
      unfolding insert_into_mint_configs_def
      by (rule mc.keeps_insert_ids [OF assms(1)]) (simp add: from_core_mint_config_def)
    show "keeps (\<lambda>s. ids_ok mc_id (t_mint_configs (st_db s)))
        (insert_into_mint_config_txs X (from_core_mint_config_tx X i ts tx))" for tx
      unfolding insert_into_mint_config_txs_def by (rule keeps_sql_insert) simp
  qed
  from keepsD [OF this assms(2,3)] show ?thesis .
qed

section \<open>The chain of synced blocks\<close>

text \<open>The invariant between blocks: the counters table has its row, there is audit data for exactly
  the blocks \<open>0 .. n - 1\<close> that were synced, and balances only for those.\<close>

definition chain_ok :: "database \<Rightarrow> bool" where
  "chain_ok d \<longleftrightarrow> (\<exists>c n. t_counters d = [c] \<and> num_blocks_synced c = int n
     \<and> t_block_audit_data d = map (\<lambda>k. \<lparr>bad_block_index = int k\<rparr>) [0..<n]
     \<and> (\<forall>r \<in> set (t_block_balance d). bb_block_index r < int n))"

text \<open>The balances stored for a block, and those a block starts from.\<close>

definition balances_at :: "database \<Rightarrow> u64 \<Rightarrow> token_id \<Rightarrow> u64" where
  "balances_at d i = balance_of (collect_map (map (\<lambda>r. (block_balance_token_id r, block_balance_balance r))
     (block_rows i d)))"

definition balances_before :: "database \<Rightarrow> u64 \<Rightarrow> token_id \<Rightarrow> u64" where
  "balances_before d i = (if i = 0 then (\<lambda>_. 0) else balances_at d (i - 1))"

definition block_effect ::
  "ext \<Rightarrow> u64 \<Rightarrow> datetime option \<Rightarrow> block_contents \<Rightarrow> (token_id \<Rightarrow> u64) \<Rightarrow> (token_id \<Rightarrow> u64)" where
  "block_effect X i ts bc bal = fold burn_effect (find_burns X i ts (bc_outputs bc))
     (fold mint_effect (bc_mint_txs bc) bal)"

text \<open>The counters row after a block.\<close>

definition block_counters ::
  "ext \<Rightarrow> u64 \<Rightarrow> datetime option \<Rightarrow> block_contents \<Rightarrow> (token_id \<Rightarrow> u64) \<Rightarrow> mint_tx list \<Rightarrow> counters \<Rightarrow> counters"
  where
  "block_counters X i ts bc bal rows c =
     (let c' = add_exceeding_burns (exceeding_burns (find_burns X i ts (bc_outputs bc))
                 (fold mint_effect (bc_mint_txs bc) bal))
               (add_unmatched_mints (length (filter (\<lambda>r. mt_mint_config_id r = None) rows)) c)
      in c'\<lparr>num_blocks_synced := num_blocks_synced c' + 1\<rparr>)"

lemma sync_block_tx_steps:
  assumes "sync_block_tx X blk bc ts s = (Ok data, s')" and "t_counters (st_db s) = [c]"
  obtains s1 bm0 s2 bm1 ms s3 bm bs s4 s5 s6 where
    "blk_index blk = as_u64 (num_blocks_synced c)"
    and "store_config_txs X (blk_index blk) ts (bc_validated_mint_config_txs bc) s = (Ok (), s1)"
    and "(if blk_index blk = 0 then ret [] else get_balances_for_block (blk_index blk - 1)) s1 = (Ok bm0, s2)"
    and "fold_m (sync_mint X (blk_index blk) ts) (bc_mint_txs bc) (bm0, []) s2 = (Ok (bm1, ms), s3)"
    and "fold_m (sync_burn X) (find_burns X (blk_index blk) ts (bc_outputs bc)) (bm1, []) s3 = (Ok (bm, bs), s4)"
    and "inc_num_blocks_synced s4 = (Ok (), s5)"
    and "block_audit_data_set (block_audit_data_new (blk_index blk)) s5 = (Ok (), s6)"
    and "set_balances_for_block (blk_index blk) bm s6 = (Ok (), s')"
    and "data = \<lparr>sbd_block_audit = block_audit_data_new (blk_index blk), sbd_balance_map = bm,
        sbd_mint_txs = ms, sbd_burn_tx_outs = bs\<rparr>"
proof -
  have "blk_index blk = as_u64 (num_blocks_synced c)"
    using assms unfolding sync_block_tx_def
    by (auto simp: Let_def impl_get_def throw_def split: if_splits)
  then show thesis
    using assms that unfolding sync_block_tx_def store_config_txs_def [symmetric] Let_def impl_get_def
    by (auto simp: ret_def simp del: block_audit_data_set_eq elim!: bnd_eq_OkE)
qed

lemma frame_tables:
  assumes "outside_configs d' = outside_configs d"
  shows "t_counters d' = t_counters d" "t_block_balance d' = t_block_balance d"
    "t_block_audit_data d' = t_block_audit_data d" "t_mint_txs d' = t_mint_txs d"
    "t_burn_tx_outs d' = t_burn_tx_outs d"
  using assms by (cases d; cases d'; simp add: outside_configs_def)+

text \<open>The mints and then the burns of a block.\<close>

lemma sync_mints_burns_OkD:
  assumes mints: "fold_m (sync_mint X i ts) txs (bm0, []) s2 = (Ok (bm1, ms), s3)"
    and burns: "fold_m (sync_burn X) outs (bm1, []) s3 = (Ok (bm, bs), s4)"
    and c: "t_counters (st_db s2) = [c]" and ids: "ids_ok mc_id (t_mint_configs (st_db s2))"
    and bm0: "distinct (map fst bm0)"
  shows "list_all2 (mint_row X i ts) txs ms \<and> list_all2 burn_row outs bs \<and> distinct (map fst bm)
    \<and> balance_of bm = fold burn_effect outs (fold mint_effect txs (balance_of bm0))
    \<and> st_db s4 = (st_db s2)\<lparr>t_mint_txs := t_mint_txs (st_db s2) @ ms, t_burn_tx_outs := t_burn_tx_outs (st_db s2) @ bs,
        t_counters := [add_exceeding_burns (exceeding_burns outs (fold mint_effect txs (balance_of bm0)))
          (add_unmatched_mints (length (filter (\<lambda>r. mt_mint_config_id r = None) ms)) c)]\<rparr>"
proof -
  from fold_sync_mint_OkD [OF mints c _ bm0] ids
  have ms: "list_all2 (mint_row X i ts) txs ms" and bm1: "distinct (map fst bm1)"
    "balance_of bm1 = fold mint_effect txs (balance_of bm0)"
    and d3: "st_db s3 = (st_db s2)\<lparr>t_mint_txs := t_mint_txs (st_db s2) @ ms, t_counters :=
        [add_unmatched_mints (length (filter (\<lambda>r. mt_mint_config_id r = None) ms)) c]\<rparr>"
    by auto
  from fold_sync_burn_OkD [OF burns _ bm1(1)] d3 ms bm1(2) show ?thesis by auto
qed

text \<open>The block count, the audit data and the balances, for a block that has none yet.\<close>

lemma store_block_data_OkD:
  assumes inc: "inc_num_blocks_synced s4 = (Ok (), s5)"
    and set: "block_audit_data_set (block_audit_data_new i) s5 = (Ok (), s6)"
    and bals: "set_balances_for_block i bm s6 = (Ok (), s')"
    and c: "t_counters (st_db s4) = [c]" and bm: "distinct (map fst bm)"
    and audit: "\<forall>r \<in> set (t_block_audit_data (st_db s4)). bad_block_index r \<noteq> as_i64 i"
    and bal: "\<forall>r \<in> set (t_block_balance (st_db s4)). bb_block_index r \<noteq> as_i64 i"
  shows "st_db s' = (st_db s4)\<lparr>t_counters := [c\<lparr>num_blocks_synced := num_blocks_synced c + 1\<rparr>],
    t_block_audit_data := t_block_audit_data (st_db s4) @ [block_audit_data_new i],
    t_block_balance := t_block_balance (st_db s4) @ balance_rows i bm\<rparr>"
proof -
  have d5: "st_db s5 = (st_db s4)\<lparr>t_counters := [c\<lparr>num_blocks_synced := num_blocks_synced c + 1\<rparr>]\<rparr>"
    using inc c by (auto simp: inc_one)
  have d6: "st_db s6 = (st_db s5)\<lparr>t_block_audit_data := t_block_audit_data (st_db s4) @ [block_audit_data_new i]\<rparr>"
    using set audit by (auto simp: d5 block_audit_data_new_def filter_id_conv)
  have "block_rows i (st_db s6) = []"
    using bal by (auto simp: d6 d5 block_rows_def filter_empty_conv)
  then have "set_balances_for_block i bm s6 = (Ok (), s6\<lparr>st_db := (st_db s6)\<lparr>t_block_balance :=
       t_block_balance (st_db s6) @ balance_rows i bm\<rparr>\<rparr>)"
    by (intro set_balances_for_block_Ok bm) (auto simp: d6 block_audit_data_new_def)
  with bals show ?thesis by (auto simp: d6 d5)
qed

lemma sync_block_tx_OkD:
  assumes "sync_block_tx X blk bc ts s = (Ok data, s')" and "chain_ok (st_db s)"
    and c: "t_counters (st_db s) = [c]" and bound: "num_blocks_synced c < 2 ^ 63"
    and "ids_ok mc_id (t_mint_configs (st_db s))" and X: "rowid_alloc (new_rowid X)"
  shows "\<exists>s1 bm ms bs. as_i64 (blk_index blk) = num_blocks_synced c
    \<and> store_config_txs X (blk_index blk) ts (bc_validated_mint_config_txs bc) s = (Ok (), s1)
    \<and> list_all2 (mint_row X (blk_index blk) ts) (bc_mint_txs bc) ms
    \<and> list_all2 burn_row (find_burns X (blk_index blk) ts (bc_outputs bc)) bs
    \<and> distinct (map fst bm)
    \<and> balance_of bm = block_effect X (blk_index blk) ts bc (balances_before (st_db s) (blk_index blk))
    \<and> data = \<lparr>sbd_block_audit = block_audit_data_new (blk_index blk), sbd_balance_map = bm,
        sbd_mint_txs = ms, sbd_burn_tx_outs = bs\<rparr>
    \<and> st_db s' = (st_db s1)\<lparr>t_mint_txs := t_mint_txs (st_db s) @ ms,
        t_burn_tx_outs := t_burn_tx_outs (st_db s) @ bs,
        t_counters := [block_counters X (blk_index blk) ts bc (balances_before (st_db s) (blk_index blk)) ms c],
        t_block_audit_data := t_block_audit_data (st_db s) @ [block_audit_data_new (blk_index blk)],
        t_block_balance := t_block_balance (st_db s) @ balance_rows (blk_index blk) bm\<rparr>"
proof -
  let ?i = "blk_index blk"
  from assms(2) c obtain n where n: "num_blocks_synced c = int n"
    and audit: "t_block_audit_data (st_db s) = map (\<lambda>k. \<lparr>bad_block_index = int k\<rparr>) [0..<n]"
    and bal: "\<forall>r \<in> set (t_block_balance (st_db s)). bb_block_index r < int n"
    by (auto simp: chain_ok_def)
  obtain s1 bm0 s2 bm1 ms s3 bm bs s4 s5 s6 where
    store: "store_config_txs X ?i ts (bc_validated_mint_config_txs bc) s = (Ok (), s1)"
    and start: "(if ?i = 0 then ret [] else get_balances_for_block (?i - 1)) s1 = (Ok bm0, s2)"
    and mints: "fold_m (sync_mint X ?i ts) (bc_mint_txs bc) (bm0, []) s2 = (Ok (bm1, ms), s3)"
    and burns: "fold_m (sync_burn X) (find_burns X ?i ts (bc_outputs bc)) (bm1, []) s3 = (Ok (bm, bs), s4)"
    and inc: "inc_num_blocks_synced s4 = (Ok (), s5)"
    and set: "block_audit_data_set (block_audit_data_new ?i) s5 = (Ok (), s6)"
    and bals: "set_balances_for_block ?i bm s6 = (Ok (), s')"
    and data: "data = \<lparr>sbd_block_audit = block_audit_data_new ?i, sbd_balance_map = bm,
        sbd_mint_txs = ms, sbd_burn_tx_outs = bs\<rparr>"
    and idx: "?i = as_u64 (int n)"
    using sync_block_tx_steps [OF assms(1) c] n by metis
  have i: "as_i64 ?i = int n" using idx bound n by (simp add: as_i64_as_u64)
  note same = frame_tables [OF store_config_txs_frame [OF store]]
  have s2: "s2 = s1" and bm0: "distinct (map fst bm0)" "balance_of bm0 = balances_before (st_db s) ?i"
    using start same(2) by (auto simp: ret_def get_balances_for_block_eq balances_before_def balances_at_def
        block_rows_def distinct_collect_map split: if_splits)
  have ids: "ids_ok mc_id (t_mint_configs (st_db s2))" and c2: "t_counters (st_db s2) = [c]"
    using store_config_txs_ids [OF X assms(5) store] same(1) c by (simp_all add: s2)
  from sync_mints_burns_OkD [OF mints burns c2 ids bm0(1)]
  have ms: "list_all2 (mint_row X ?i ts) (bc_mint_txs bc) ms"
    and bs: "list_all2 burn_row (find_burns X ?i ts (bc_outputs bc)) bs" and bm: "distinct (map fst bm)"
    "balance_of bm = block_effect X ?i ts bc (balances_before (st_db s) ?i)"
    by (simp_all add: bm0(2) block_effect_def)
  define c4 where "c4 = add_exceeding_burns (exceeding_burns (find_burns X ?i ts (bc_outputs bc))
      (fold mint_effect (bc_mint_txs bc) (balances_before (st_db s) ?i)))
    (add_unmatched_mints (length (filter (\<lambda>r. mt_mint_config_id r = None) ms)) c)"
  have d4: "st_db s4 = (st_db s1)\<lparr>t_mint_txs := t_mint_txs (st_db s) @ ms,
      t_burn_tx_outs := t_burn_tx_outs (st_db s) @ bs, t_counters := [c4]\<rparr>"
    using sync_mints_burns_OkD [OF mints burns c2 ids bm0(1)] by (simp add: c4_def s2 same bm0(2))
  have "st_db s' = (st_db s4)\<lparr>t_counters := [c4\<lparr>num_blocks_synced := num_blocks_synced c4 + 1\<rparr>],
      t_block_audit_data := t_block_audit_data (st_db s4) @ [block_audit_data_new ?i],
      t_block_balance := t_block_balance (st_db s4) @ balance_rows ?i bm\<rparr>"
    by (rule store_block_data_OkD [OF inc set bals]) (use audit bal in \<open>auto simp: d4 same i bm(1)\<close>)
  moreover have "c4\<lparr>num_blocks_synced := num_blocks_synced c4 + 1\<rparr>
      = block_counters X ?i ts bc (balances_before (st_db s) ?i) ms c"
    by (simp only: block_counters_def c4_def Let_def)
  ultimately show ?thesis
    by (intro exI [of _ s1] exI [of _ bm] exI [of _ ms] exI [of _ bs] conjI store data ms bs bm)
      (simp_all add: i n d4 same)
qed

lemma no_retry_lookup_loop [no_retry_intros]: "no_retry (lookup_loop X b mtx msg cs)"
proof (induction cs)
  case (Cons c cs)
  have "no_retry (lift_res (mint_config_decode X c))"
    by (intro no_retry_intros) (auto simp: mint_config_decode_def map_err_def split: res.splits)
  then show ?case by (auto intro!: no_retry_intros Cons)
qed (simp add: no_retry_intros)

lemma no_retry_sync_block_tx [no_retry_intros]: "no_retry (sync_block_tx X blk bc ts)"
  unfolding sync_block_tx_def sync_mint_def sync_burn_def lookup_mint_config_def Let_def inc_defs
    insert_from_core_mint_config_tx_def split_def
  by (intro no_retry_intros) simp

lemma sync_block_with_conn_Ok:
  "sync_block_with_conn X blk bc ts s = (Ok data, s') \<longleftrightarrow> sync_block_tx X blk bc ts s = (Ok data, s')"
  by (simp add: sync_block_with_conn_def transaction_no_retry [OF no_retry_sync_block_tx] conn_transaction_Ok)

lemma sync_block_OkE:
  assumes "chain_ok (st_db s)" and "t_counters (st_db s) = [c]" and "num_blocks_synced c < 2 ^ 63"
    and "ids_ok mc_id (t_mint_configs (st_db s))" and "rowid_alloc (new_rowid X)"
    and "sync_block_with_conn X blk bc ts s = (Ok data, s')"
  obtains d1 bm where "as_i64 (blk_index blk) = num_blocks_synced c"
    and "list_all2 (mint_row X (blk_index blk) ts) (bc_mint_txs bc) (sbd_mint_txs data)"
    and "list_all2 burn_row (find_burns X (blk_index blk) ts (bc_outputs bc)) (sbd_burn_tx_outs data)"
    and "distinct (map fst bm)" and "sbd_balance_map data = bm"
    and "balance_of bm = block_effect X (blk_index blk) ts bc (balances_before (st_db s) (blk_index blk))"
    and "outside_configs d1 = outside_configs (st_db s)"
    and "st_db s' = d1\<lparr>t_mint_txs := t_mint_txs (st_db s) @ sbd_mint_txs data,
        t_burn_tx_outs := t_burn_tx_outs (st_db s) @ sbd_burn_tx_outs data,
        t_counters := [block_counters X (blk_index blk) ts bc (balances_before (st_db s) (blk_index blk))
           (sbd_mint_txs data) c],
        t_block_audit_data := t_block_audit_data (st_db s) @ [block_audit_data_new (blk_index blk)],
        t_block_balance := t_block_balance (st_db s) @ balance_rows (blk_index blk) bm\<rparr>"
  using sync_block_tx_OkD [OF assms(6) [unfolded sync_block_with_conn_Ok] assms(1-5)]
  by (elim exE conjE) (rule that, auto dest: store_config_txs_frame)

section \<open>Properties\<close>

text \<open>A block whose index is not the number of blocks synced so far (a block that was skipped to,
  or one already synced) is refused with both indices, and nothing at all changes.\<close>

lemma sync_block_refused:
  assumes "t_counters (st_db s) = [c]" and "blk_index blk \<noteq> as_u64 (num_blocks_synced c)"
  shows "sync_block_with_conn X blk bc ts s =
    (Err (UnexpectedBlockIndex (blk_index blk) (as_u64 (num_blocks_synced c))), s)"
proof -
  have "sync_block_tx X blk bc ts s =
      (Err (UnexpectedBlockIndex (blk_index blk) (as_u64 (num_blocks_synced c))), s)"
    using assms by (simp add: sync_block_tx_def Let_def impl_get_def throw_def)
  then show ?thesis by (simp add: sync_block_with_conn_def)
qed

lemma block_rows_stored:
  assumes "t_block_balance d' = t_block_balance d @ balance_rows i bm" and "block_rows i d = []"
    and "distinct (map fst bm)"
  shows "balances_at d' j = (if j = i then balance_of bm else balances_at d j)"
proof -
  have rows: "block_rows j d' = block_rows j d @ (if j = i then balance_rows i bm else [])"
    using block_rows_balance_rows [of j d i bm] assms(1) by (simp add: block_rows_def)
  show ?thesis
    using assms(2,3) by (simp add: balances_at_def rows balance_rows_pairs balance_of_def fun_eq_iff
        map_of_collect_map map_of_rev_distinct)
qed

lemma chain_ok_next:
  assumes "chain_ok d" and "t_counters d = [c]" and "as_i64 i = num_blocks_synced c"
    and "t_counters d' = [c']" and "num_blocks_synced c' = num_blocks_synced c + 1"
    and "t_block_audit_data d' = t_block_audit_data d @ [block_audit_data_new i]"
    and "t_block_balance d' = t_block_balance d @ balance_rows i bm"
  shows "chain_ok d'" and "block_rows i d = []"
proof -
  from assms(1,2) obtain n where n: "num_blocks_synced c = int n"
    and audit: "t_block_audit_data d = map (\<lambda>k. \<lparr>bad_block_index = int k\<rparr>) [0..<n]"
    and bal: "\<forall>r \<in> set (t_block_balance d). bb_block_index r < int n"
    by (auto simp: chain_ok_def)
  have "\<forall>r \<in> set (t_block_balance d'). bb_block_index r < int (Suc n)"
    using bal assms(3,7) n by (fastforce simp: balance_rows_def block_balance_new_def)
  moreover have "t_block_audit_data d' = map (\<lambda>k. \<lparr>bad_block_index = int k\<rparr>) [0..<Suc n]"
    using audit assms(3,6) n by (simp add: block_audit_data_new_def)
  ultimately show "chain_ok d'"
    using assms(4,5) n unfolding chain_ok_def by (intro exI [of _ c'] exI [of _ "Suc n"]) simp
  show "block_rows i d = []"
    using bal assms(3) n by (auto simp: block_rows_def filter_empty_conv)
qed

lemma block_counters_blocks [simp]:
  "num_blocks_synced (block_counters X i ts bc bal rows c) = num_blocks_synced c + 1"
  by (simp add: block_counters_def Let_def)

lemma last_synced_chain:
  assumes "chain_ok d" and "t_counters d = [c]" and "0 < num_blocks_synced c"
  shows "max_option (map bad_block_index (t_block_audit_data d)) = Some (num_blocks_synced c - 1)"
proof -
  from assms obtain n where n: "num_blocks_synced c = int (Suc n)"
    and audit: "t_block_audit_data d = map (\<lambda>k. \<lparr>bad_block_index = int k\<rparr>) [0..<Suc n]"
    unfolding chain_ok_def by (metis gr0_conv_Suc list.inject of_nat_0_less_iff)
  have set: "set (map bad_block_index (t_block_audit_data d)) = int ` {0..n}"
    by (auto simp: audit image_iff)
  have "Max (int ` {0..n}) = int n"
    by (intro Max_eqI) auto
  then show ?thesis
    using max_option_Some [of "map bad_block_index (t_block_audit_data d)"] set
    by (simp add: n audit del: upt_Suc)
qed

lemma sync_block_chain:
  assumes "chain_ok (st_db s)" and "t_counters (st_db s) = [c]" and "num_blocks_synced c < 2 ^ 63"
    and "ids_ok mc_id (t_mint_configs (st_db s))" and "rowid_alloc (new_rowid X)"
    and "sync_block_with_conn X blk bc ts s = (Ok data, s')"
  shows "as_i64 (blk_index blk) = num_blocks_synced c \<and> chain_ok (st_db s')
    \<and> (\<exists>c'. t_counters (st_db s') = [c'] \<and> num_blocks_synced c' = num_blocks_synced c + 1)
    \<and> last_synced_block_index s' = (Ok (Some (blk_index blk)), s')
    \<and> sync_block_with_conn X blk bc2 ts2 s' =
        (Err (UnexpectedBlockIndex (blk_index blk) (blk_index blk + 1)), s')"
proof -
  let ?i = "blk_index blk"
  obtain d1 bm where i: "as_i64 ?i = num_blocks_synced c"
    and db: "st_db s' = d1\<lparr>t_mint_txs := t_mint_txs (st_db s) @ sbd_mint_txs data,
        t_burn_tx_outs := t_burn_tx_outs (st_db s) @ sbd_burn_tx_outs data,
        t_counters := [block_counters X ?i ts bc (balances_before (st_db s) ?i) (sbd_mint_txs data) c],
        t_block_audit_data := t_block_audit_data (st_db s) @ [block_audit_data_new ?i],
        t_block_balance := t_block_balance (st_db s) @ balance_rows ?i bm\<rparr>"
    using assms by (rule sync_block_OkE)
  obtain c' where c': "t_counters (st_db s') = [c']" "num_blocks_synced c' = num_blocks_synced c + 1"
    by (simp add: db)
  have chain: "chain_ok (st_db s')"
    by (rule chain_ok_next(1) [OF assms(1,2) i c']) (simp_all add: db)
  have ui: "?i = as_u64 (num_blocks_synced c)" using i by (metis as_u64_as_i64)
  have pos: "0 < num_blocks_synced c'" using assms(1,2) c'(2) by (auto simp: chain_ok_def)
  have last: "last_synced_block_index s' = (Ok (Some ?i), s')"
    using last_synced_chain [OF chain c'(1) pos] c'(2) ui by (simp add: last_synced_block_index_def)
  have next_i: "as_u64 (num_blocks_synced c') = ?i + 1"
    using c'(2) ui by (simp add: as_u64_def)
  have "sync_block_tx X blk bc2 ts2 s' = (Err (UnexpectedBlockIndex ?i (?i + 1)), s')"
    using c'(1) next_i by (simp add: sync_block_tx_def Let_def impl_get_def throw_def)
  then have "sync_block_with_conn X blk bc2 ts2 s' = (Err (UnexpectedBlockIndex ?i (?i + 1)), s')"
    by (simp add: sync_block_with_conn_def)
  with i chain c' last show ?thesis by blast
qed

lemma sync_block_account:
  assumes "chain_ok (st_db s)" and "t_counters (st_db s) = [c]" and "num_blocks_synced c < 2 ^ 63"
    and "ids_ok mc_id (t_mint_configs (st_db s))" and "rowid_alloc (new_rowid X)"
    and "sync_block_with_conn X blk bc ts s = (Ok data, s')"
  shows "balances_at (st_db s') (blk_index blk)
      = block_effect X (blk_index blk) ts bc (balances_before (st_db s) (blk_index blk))
    \<and> balance_of (sbd_balance_map data) = balances_at (st_db s') (blk_index blk)
    \<and> (\<forall>j. j \<noteq> blk_index blk \<longrightarrow> balances_at (st_db s') j = balances_at (st_db s) j)"
proof -
  let ?i = "blk_index blk"
  obtain d1 bm where i: "as_i64 ?i = num_blocks_synced c" and bm: "distinct (map fst bm)"
    "sbd_balance_map data = bm" "balance_of bm = block_effect X ?i ts bc (balances_before (st_db s) ?i)"
    and db: "st_db s' = d1\<lparr>t_mint_txs := t_mint_txs (st_db s) @ sbd_mint_txs data,
        t_burn_tx_outs := t_burn_tx_outs (st_db s) @ sbd_burn_tx_outs data,
        t_counters := [block_counters X ?i ts bc (balances_before (st_db s) ?i) (sbd_mint_txs data) c],
        t_block_audit_data := t_block_audit_data (st_db s) @ [block_audit_data_new ?i],
        t_block_balance := t_block_balance (st_db s) @ balance_rows ?i bm\<rparr>"
    using assms by (rule sync_block_OkE)
  have "block_rows ?i (st_db s) = []"
    by (rule chain_ok_next(2) [OF assms(1,2) i, of "st_db s'"
          "block_counters X ?i ts bc (balances_before (st_db s) ?i) (sbd_mint_txs data) c" bm]) (simp_all add: db)
  from block_rows_stored [OF _ this bm(1), of "st_db s'"] show ?thesis
    using bm by (simp add: db)
qed

text \<open>C6: the balances stored with a block are the abstract account: those of the previous block (none
  before the first) with every mint of the block added and every burn found in its outputs
  subtracted, mints before burns; the balances of other blocks are untouched, and the balance map
  returned is the one stored.\<close>

theorem sync_block_balances:
  assumes "chain_ok (st_db s)" and "t_counters (st_db s) = [c]" and "num_blocks_synced c < 2 ^ 63"
    and "ids_ok mc_id (t_mint_configs (st_db s))" and "rowid_alloc (new_rowid X)"
    and "sync_block_with_conn X blk bc ts s = (Ok data, s')"
  shows "balances_at (st_db s') (blk_index blk)
      = block_effect X (blk_index blk) ts bc (balances_before (st_db s) (blk_index blk))
    \<and> balance_of (sbd_balance_map data) = balances_at (st_db s') (blk_index blk)
    \<and> (\<forall>j. j \<noteq> blk_index blk \<longrightarrow> balances_at (st_db s') j = balances_at (st_db s) j)"
  using assms by (rule sync_block_account)

text \<open>C19: the rows stored and returned for a block are its mints and its burns in order, each with its
  own values; the counter of mints without a configuration grows by the number of rows without one,
  the counter of burns exceeding the balance by the number of burns that did, and no other counter
  but the block count changes.\<close>

theorem sync_block_rows_and_counters:
  assumes "chain_ok (st_db s)" and "t_counters (st_db s) = [c]" and "num_blocks_synced c < 2 ^ 63"
    and "ids_ok mc_id (t_mint_configs (st_db s))" and "rowid_alloc (new_rowid X)"
    and "sync_block_with_conn X blk bc ts s = (Ok data, s')"
  shows "list_all2 (mint_row X (blk_index blk) ts) (bc_mint_txs bc) (sbd_mint_txs data)
    \<and> list_all2 burn_row (find_burns X (blk_index blk) ts (bc_outputs bc)) (sbd_burn_tx_outs data)
    \<and> t_mint_txs (st_db s') = t_mint_txs (st_db s) @ sbd_mint_txs data
    \<and> t_burn_tx_outs (st_db s') = t_burn_tx_outs (st_db s) @ sbd_burn_tx_outs data
    \<and> t_counters (st_db s') = [block_counters X (blk_index blk) ts bc
         (balances_before (st_db s) (blk_index blk)) (sbd_mint_txs data) c]"
  using assms by (rule sync_block_OkE) simp

section \<open>Exact accounting\<close>

definition minted :: "token_id \<Rightarrow> core_mint_tx list \<Rightarrow> nat" where
  "minted tok txs = sum_list (map (\<lambda>tx. unat (mtp_amount (cmt_prefix tx)))
     (filter (\<lambda>tx. mtp_token_id (cmt_prefix tx) = tok) txs))"

definition burned :: "token_id \<Rightarrow> burn_tx_out list \<Rightarrow> nat" where
  "burned tok bs = sum_list (map (\<lambda>b. unat (burn_tx_out_amount b))
     (filter (\<lambda>b. burn_tx_out_token_id b = tok) bs))"

lemma fold_mint_exact:
  "unat (bal tok) + minted tok txs < 2 ^ 64 \<Longrightarrow>
     unat (fold mint_effect txs bal tok) = unat (bal tok) + minted tok txs"
proof (induction txs arbitrary: bal)
  case (Cons tx txs)
  have "unat (mint_effect tx bal tok) + minted tok txs = unat (bal tok) + minted tok (tx # txs)"
    using Cons.prems by (auto simp: mint_effect_def minted_def unat_add_u64)
  with Cons show ?case by simp
qed (simp add: minted_def)

end
