(* ===== verification/Gnosis_Sync.thy ===== *)
theory Gnosis_Sync
  imports Sync_Block
begin

text \<open>
  Syncing safe transactions into the database, \<open>src/gnosis/sync.rs\<close> over the decoded responses of
  \<open>src/gnosis/api_data_types.rs\<close>. \<open>decode_value\<close> is \<open>serde_json::from_value\<close> at the type
  \<open>Transaction\<close>, \<open>json_to_string\<close> the text form of a JSON value and \<open>pool_get\<close> taking a connection
  from the pool; all three are parameters.

  The theorems: a transaction is processed at most once and processing the whole list again changes
  nothing; what a parsed withdrawal guarantees; that the audit invariants survive every
  transaction; and the paths on which the code panics or skips transfers.
\<close>

section \<open>Decoded transactions\<close>

datatype data_decoded =
    DataDecoded (dd_method: string) (dd_parameters: "data_decoded_parameter list")
and data_decoded_parameter =
    DataDecodedParameter (ddp_name: string) (ddp_value: string)
      (ddp_value_decoded: "value_decoded list option")
and value_decoded =
    ValueDecoded (vd_operation: u64) (vd_to: eth_addr) (vd_value: string) (vd_data: string)
      (vd_data_decoded: "data_decoded option")

record token_info =
  ti_decimals :: "nat option"
  ti_address :: string

record ethereum_transfer =
  et_from :: eth_addr
  et_to :: eth_addr
  et_token_addr :: "eth_addr option"
  et_tx_hash :: eth_tx_hash
  et_tx_type :: string
  et_token_info :: "token_info option"
  et_value :: "eth_tx_value option"

record ethereum_transaction =
  etx_tx_hash :: eth_tx_hash
  etx_eth_block_number :: u64
  etx_transfers :: "ethereum_transfer list"
  etx_execution_date :: datetime

record multi_sig_transaction =
  mst_safe :: eth_addr
  mst_to :: eth_addr
  mst_value :: eth_tx_value
  mst_data :: "string option"
  mst_eth_block_number :: u64
  mst_tx_hash :: eth_tx_hash
  mst_data_decoded :: "data_decoded option"
  mst_transfer_data :: "ethereum_transfer list"
  mst_execution_date :: datetime

datatype gnosis_transaction =
    MultiSig multi_sig_transaction
  | Ethereum ethereum_transaction
  | Module json

definition raw_decode ::
  "(json \<Rightarrow> (string, gnosis_transaction) res) \<Rightarrow> raw_gnosis_transaction
   \<Rightarrow> (gnosis_error, gnosis_transaction) res" where
  "raw_decode decode_value t = map_err GnosisJson (decode_value (rgt_raw t))"

section \<open>Deposits\<close>

definition unwrap_none :: string where
  "unwrap_none = ''called `Option::unwrap()` on a `None` value''"

text \<open>The closure of \<open>process_eth_transaction\<close> that builds a deposit from a transfer.\<close>

definition parse_deposit ::
  "ext \<Rightarrow> audited_safe_config \<Rightarrow> ethereum_transaction \<Rightarrow> ethereum_transfer
   \<Rightarrow> (gnosis_error, gnosis_safe_deposit) res" where
  "parse_deposit X audited_safe tx transfer =
     rbind (res_ok_or (ApiResultParse ''Transfer token address cannot be empty'')
              (et_token_addr transfer)) (\<lambda>token_addr.
     rbind (res_ok_or (UnknownToken ''Unknown token transfer'')
              (List.find (\<lambda>token. addrs_contain (at_eth_token_contract_addrs token) token_addr)
                 (asc_tokens audited_safe))) (\<lambda>token_config.
     rbind (res_unwrap unwrap_none (et_value transfer)) (\<lambda>value.
     rbind (truncate_value value (at_decimals token_config) (asc_token_decimals_max audited_safe))
       (\<lambda>truncated_transaction_value.
     Ok (gnosis_safe_deposit_new X None (et_tx_hash transfer) (etx_execution_date tx) value
           (etx_eth_block_number tx) (et_to transfer) token_addr (et_from transfer)
           truncated_transaction_value)))))"

definition process_transfer ::
  "ext \<Rightarrow> audited_safe_config \<Rightarrow> ethereum_transaction \<Rightarrow> ethereum_transfer \<Rightarrow> unit dbm" where
  "process_transfer X audited_safe tx transfer =
     (if eth_addr_eq (et_to transfer) (asc_safe_addr audited_safe) then
        bnd (attempt (lift_res (map_err Gnosis (parse_deposit X audited_safe tx transfer)))) (\<lambda>result.
        bnd (case result of Inr _ \<Rightarrow> ret () | Inl _ \<Rightarrow> inc_num_invalid_ethereum_transactions) (\<lambda>_.
        bnd (case result of Inr deposit \<Rightarrow> ret deposit | Inl e \<Rightarrow> throw e) (\<lambda>deposit.
        bnd (deposit_insert X deposit) (\<lambda>deposit.
        bnd (attempt (try_match_deposit_with_mint X deposit audited_safe)) (\<lambda>_.
        ret ())))))
      else ret ())"

definition process_eth_transaction ::
  "ext \<Rightarrow> audited_safe_config \<Rightarrow> ethereum_transaction \<Rightarrow> unit dbm" where
  "process_eth_transaction X audited_safe tx =
     for_each (process_transfer X audited_safe tx) (etx_transfers tx)"

section \<open>Withdrawals\<close>

text \<open>Slice indexing panics when the index is out of range.\<close>

definition index_res :: "'a list \<Rightarrow> nat \<Rightarrow> ('e, 'a) res" where
  "index_res xs i = (if i < length xs then Ok (xs ! i)
     else Panic (''index out of bounds: the len is '' @ show_nat (length xs)
       @ '' but the index is '' @ show_nat i))"

definition parse_err :: "string \<Rightarrow> (gnosis_error, 'a) res" where
  "parse_err m = Err (ApiResultParse m)"

text \<open>The two-part check of the token transfer: the structure of the multi-send call, then the
  call to the auxiliary contract. The comparison of \<open>token_transfers.len()\<close> with 1 builds an
  error value and drops it, so it has no effect.\<close>

definition parse_multi_send ::
  "audited_safe_config \<Rightarrow> multi_sig_transaction
   \<Rightarrow> (gnosis_error, value_decoded \<times> value_decoded \<times> audited_token \<times> data_decoded_parameter list) res" where
  "parse_multi_send audited_safe multi_sig_tx =
     rbind (res_ok_or (ApiResultParse ''data_decoded is empty'') (mst_data_decoded multi_sig_tx)) (\<lambda>data.
     if dd_method data \<noteq> ''multiSend'' then
       parse_err (''multi-sig tx method mismatch: got '' @ dd_method data @ '', expected multiSend'')
     else if length (dd_parameters data) \<noteq> 1 then
       parse_err (''invalid number of parameters: got '' @ show_nat (length (dd_parameters data))
         @ '', expected 1'')
     else
     rbind (index_res (dd_parameters data) 0) (\<lambda>parameter.
     rbind (res_ok_or (ApiResultParse ''decoded data parameter is missing value_decoded'')
              (ddp_value_decoded parameter)) (\<lambda>value_decoded.
     if length value_decoded \<noteq> 2 then
       parse_err (''Invalid number of values in multiSend transfer: got ''
         @ show_nat (length value_decoded) @ '', expected 2'')
     else
     rbind (index_res value_decoded 0) (\<lambda>transfer_data.
     rbind (res_ok_or (ApiResultParse (''Encountered multiSend transaction to an unknown token: ''
                @ eth_addr_str (vd_to transfer_data)))
              (get_token_by_eth_contract_addr audited_safe (vd_to transfer_data))) (\<lambda>audited_token.
     rbind (res_ok_or (ApiResultParse ''multiSend transfer first value has no decoded data'')
              (vd_data_decoded transfer_data)) (\<lambda>transfer_data_decoded.
     if dd_method transfer_data_decoded \<noteq> ''transfer'' then
       parse_err (''Invalid first value method: got '' @ dd_method transfer_data_decoded
         @ '', expected transfer'')
     else if length (dd_parameters transfer_data_decoded) \<noteq> 2 then
       parse_err (''Invalid number of values in multiSend transfer data parameters: got ''
         @ show_nat (length value_decoded) @ '', expected 2'')
     else
     rbind (index_res value_decoded 1) (\<lambda>aux_contract_value.
     Ok (transfer_data, aux_contract_value, audited_token, dd_parameters transfer_data_decoded))))))))"

definition parse_aux_data ::
  "ext \<Rightarrow> audited_token \<Rightarrow> value_decoded \<Rightarrow> (gnosis_error, bytes) res" where
  "parse_aux_data X audited_token aux_contract_value =
     (if \<not> eth_addr_eq (vd_to aux_contract_value) (at_aux_burn_contract_addr audited_token) then
        parse_err (''aux contract destination mismatch: got '' @ eth_addr_str (vd_to aux_contract_value)
          @ '', expected '' @ eth_addr_str (at_aux_burn_contract_addr audited_token))
      else if \<not> starts_with ''0x'' (vd_data aux_contract_value) then
        parse_err (''aux contract data doesn'' @ [CHR 0x27] @ ''t start with 0x: got ''
          @ vd_data aux_contract_value)
      else
      rbind (map_err (\<lambda>err. ApiResultParse (''aux contract data '' @ vd_data aux_contract_value
               @ '' cannot be hex-decoded: '' @ err))
               (hex_decode X (drop 2 (vd_data aux_contract_value)))) (\<lambda>aux_data_bytes.
      if \<not> starts_with (at_aux_burn_function_sig audited_token) aux_data_bytes then
        parse_err (''aux contract data '' @ vd_data aux_contract_value
          @ '' does not start with the expected function signature (''
          @ hex_encode X (at_aux_burn_function_sig audited_token) @ '')'')
      else
      let min_length = length (at_aux_burn_function_sig audited_token) + 32 in
      if length aux_data_bytes < min_length then
        parse_err (''aux contract data '' @ vd_data aux_contract_value
          @ '' does not contain enough bytes. got '' @ show_nat (length (vd_data aux_contract_value))
          @ '', expected at least '' @ show_nat min_length)
      else Ok (drop (length aux_data_bytes - 32) aux_data_bytes)))"

definition parse_withdrawal_with_pub_key_multi_sig_tx ::
  "ext \<Rightarrow> audited_safe_config \<Rightarrow> multi_sig_transaction \<Rightarrow> (gnosis_error, gnosis_safe_withdrawal) res" where
  "parse_withdrawal_with_pub_key_multi_sig_tx X audited_safe multi_sig_tx =
     rbind (parse_multi_send audited_safe multi_sig_tx)
       (\<lambda>(transfer_data, aux_contract_value, audited_token, transfer_data_parameters).
     rbind (index_res (mst_transfer_data multi_sig_tx) 0) (\<lambda>token_transfer.
     rbind (res_unwrap unwrap_none (et_value token_transfer)) (\<lambda>eth_tx_value.
     rbind (parse_aux_data X audited_token aux_contract_value) (\<lambda>tx_out_pub_key.
     rbind (res_ok_or (InvalidAddress (''No matching token in config for address: ''
                @ eth_addr_str (vd_to transfer_data)))
              (List.find (\<lambda>token. addrs_contain (at_eth_token_contract_addrs token) (vd_to transfer_data))
                 (asc_tokens audited_safe))) (\<lambda>token_config.
     rbind (index_res transfer_data_parameters 1) (\<lambda>parameter.
     rbind (res_unwrap ''called `Result::unwrap()` on an `Err` value'' (parse_u128 (ddp_value parameter)))
       (\<lambda>v.
     rbind (truncate_value (EthTxValue v) (at_decimals token_config)
              (asc_token_decimals_max audited_safe)) (\<lambda>truncated_transaction_value.
     Ok (gnosis_safe_withdrawal_new None (mst_tx_hash multi_sig_tx) (mst_execution_date multi_sig_tx)
           eth_tx_value (mst_eth_block_number multi_sig_tx) (mst_safe multi_sig_tx)
           (vd_to transfer_data) (et_to token_transfer) truncated_transaction_value
           (hex_encode X tx_out_pub_key))))))))))"

definition process_multi_sig_transaction ::
  "ext \<Rightarrow> audited_safe_config \<Rightarrow> multi_sig_transaction \<Rightarrow> unit dbm" where
  "process_multi_sig_transaction X audited_safe multi_sig_tx =
     (if \<not> eth_addr_eq (mst_safe multi_sig_tx) (asc_safe_addr audited_safe) then ret ()
      else
      bnd (attempt (lift_res (map_err Gnosis
             (parse_withdrawal_with_pub_key_multi_sig_tx X audited_safe multi_sig_tx)))) (\<lambda>result.
      case result of
        Inr withdrawal \<Rightarrow>
          bnd (withdrawal_insert X withdrawal) (\<lambda>withdrawal.
          bnd (attempt (try_match_withdrawal_with_burn X withdrawal audited_safe)) (\<lambda>_. ret ()))
      | Inl _ \<Rightarrow> inc_num_invalid_multi_sig_transactions))"

section \<open>Transactions\<close>

text \<open>The match on the result of \<open>process_eth_transaction\<close>: an unknown token is logged and ignored.\<close>

fun ignore_unknown_token :: "error + unit \<Rightarrow> unit dbm" where
  "ignore_unknown_token (Inr _) = ret ()"
| "ignore_unknown_token (Inl (Gnosis (UnknownToken _))) = ret ()"
| "ignore_unknown_token (Inl err) = throw err"

definition process_decoded ::
  "ext \<Rightarrow> (json \<Rightarrow> (string, gnosis_transaction) res) \<Rightarrow> audited_safe_config
   \<Rightarrow> raw_gnosis_transaction \<Rightarrow> unit dbm" where
  "process_decoded X decode_value audited_safe tx =
     bnd (lift_res (map_err Gnosis (raw_decode decode_value tx))) (\<lambda>decoded.
     case decoded of
       Ethereum eth_tx \<Rightarrow>
         bnd (attempt (process_eth_transaction X audited_safe eth_tx)) ignore_unknown_token
     | MultiSig multi_sig_tx \<Rightarrow> process_multi_sig_transaction X audited_safe multi_sig_tx
     | Module value \<Rightarrow> ret ())"

text \<open>The closure passed to \<open>exclusive_transaction\<close> for one transaction.\<close>

definition process_transaction ::
  "ext \<Rightarrow> (json \<Rightarrow> string) \<Rightarrow> (json \<Rightarrow> (string, gnosis_transaction) res) \<Rightarrow> audited_safe_config
   \<Rightarrow> raw_gnosis_transaction \<Rightarrow> unit dbm" where
  "process_transaction X json_to_string decode_value audited_safe tx =
     bnd (attempt (gnosis_safe_tx_insert X json_to_string tx)) (\<lambda>inserted.
     case inserted of
       Inl (AlreadyExists _) \<Rightarrow> ret ()
     | Inl err \<Rightarrow> throw err
     | Inr _ \<Rightarrow> process_decoded X decode_value audited_safe tx)"

definition process_transactions ::
  "unit dbm \<Rightarrow> ext \<Rightarrow> (json \<Rightarrow> string) \<Rightarrow> (json \<Rightarrow> (string, gnosis_transaction) res)
   \<Rightarrow> audited_safe_config \<Rightarrow> raw_gnosis_transaction list \<Rightarrow> unit dbm" where
  "process_transactions pool_get X json_to_string decode_value audited_safe =
     for_each (\<lambda>tx.
       bnd (expect ''failed getting connection'' pool_get) (\<lambda>_.
       expect ''failed processing transaction''
         (conn_transaction (process_transaction X json_to_string decode_value audited_safe tx))))"

text \<open>\<open>poll\<close>, with what the fetcher returned as an argument.\<close>

definition poll ::
  "unit dbm \<Rightarrow> ext \<Rightarrow> (json \<Rightarrow> string) \<Rightarrow> (json \<Rightarrow> (string, gnosis_transaction) res)
   \<Rightarrow> audited_safe_config \<Rightarrow> (gnosis_error, raw_gnosis_transaction list) res \<Rightarrow> unit dbm" where
  "poll pool_get X json_to_string decode_value audited_safe fetched = (case fetched of
      Ok transactions \<Rightarrow>
        process_transactions pool_get X json_to_string decode_value audited_safe transactions
    | Err _ \<Rightarrow> (\<lambda>s. (Ok (), s\<lparr>st_num_failed_gnosis_get_all_transaction_data :=
        st_num_failed_gnosis_get_all_transaction_data s + 1\<rparr>))
    | Panic p \<Rightarrow> lift_res (Panic p))"

section \<open>Frame rules\<close>

text \<open>The counts of the ledger side, and that the increments of the other counters keep \<open>I\<close>.\<close>

definition ledger_counts :: "counters \<Rightarrow> int \<times> int \<times> int" where
  "ledger_counts c = (num_blocks_synced c, num_burns_exceeding_balance c, num_mint_txs_without_matching_mint_config c)"

definition inc_keeps :: "(database \<Rightarrow> bool) \<Rightarrow> bool" where
  "inc_keeps I \<longleftrightarrow> (\<forall>upd. (\<forall>f c. ledger_counts (upd f c) = ledger_counts c) \<longrightarrow>
     keeps (\<lambda>s. I (st_db s)) (impl_inc upd))"

lemma inc_keeps_frame [simp]: "(\<And>d c. I (d\<lparr>t_counters := c\<rparr>) = I d) \<Longrightarrow> inc_keeps I"
  by (simp add: inc_keeps_def keeps_impl_inc)

lemma keeps_inc:
  assumes "inc_keeps I"
  shows "keeps (\<lambda>s. I (st_db s)) (count_deposit_error e)" "keeps (\<lambda>s. I (st_db s)) (count_mint_error e)"
    "keeps (\<lambda>s. I (st_db s)) (count_withdrawal_error e)" "keeps (\<lambda>s. I (st_db s)) (count_burn_error e)"
    "keeps (\<lambda>s. I (st_db s)) inc_num_invalid_ethereum_transactions"
    "keeps (\<lambda>s. I (st_db s)) inc_num_invalid_multi_sig_transactions"
    "keeps (\<lambda>s. I (st_db s)) inc_num_unexpected_errors_matching_deposits_to_mints"
  by (cases e; simp add: inc_defs; rule assms [unfolded inc_keeps_def, rule_format]; simp add: ledger_counts_def)+

lemma keeps_try_match_deposit:
  assumes "inc_keeps I" and "\<And>d a. I d \<Longrightarrow> I (d\<lparr>t_audited_mints := t_audited_mints d @ [a]\<rparr>)"
  shows "keeps (\<lambda>s. I (st_db s)) (try_match_deposit_with_mint X x c)"
  unfolding try_match_deposit_with_mint_def match_deposit_with_mint_def match_deposit_tx_def
    associate_deposit_with_mint_def insert_into_audited_mints_def
  by (intro keeps_intros keeps_sql_append keeps_inc assms)

lemma keeps_try_match_withdrawal:
  assumes "inc_keeps I" and "\<And>d a. I d \<Longrightarrow> I (d\<lparr>t_audited_burns := t_audited_burns d @ [a]\<rparr>)"
  shows "keeps (\<lambda>s. I (st_db s)) (try_match_withdrawal_with_burn X x c)"
  unfolding try_match_withdrawal_with_burn_def match_withdrawal_with_burn_def match_withdrawal_tx_def
    associate_withdrawal_with_burn_def insert_into_audited_burns_def
  by (intro keeps_intros keeps_sql_append keeps_inc assms)

lemma keeps_gnosis_inserts:
  "(\<And>d t. I (d\<lparr>t_gnosis_safe_deposits := t\<rparr>) = I d) \<Longrightarrow> keeps (\<lambda>s. I (st_db s)) (deposit_insert X x)"
  "(\<And>d t. I (d\<lparr>t_gnosis_safe_withdrawals := t\<rparr>) = I d) \<Longrightarrow> keeps (\<lambda>s. I (st_db s)) (withdrawal_insert X w)"
  unfolding deposit_insert_def withdrawal_insert_def insert_into_gnosis_safe_deposits_def
    insert_into_gnosis_safe_withdrawals_def
  by (intro keeps_intros keeps_sql_insert; assumption)+

lemma keeps_process_eth:
  assumes "inc_keeps I" and "\<And>d a. I d \<Longrightarrow> I (d\<lparr>t_audited_mints := t_audited_mints d @ [a]\<rparr>)"
    and "\<And>d t. I (d\<lparr>t_gnosis_safe_deposits := t\<rparr>) = I d"
  shows "keeps (\<lambda>s. I (st_db s)) (process_eth_transaction X safe tx)"
  unfolding process_eth_transaction_def process_transfer_def
  by (intro keeps_intros keeps_inc keeps_try_match_deposit keeps_gnosis_inserts assms)

lemma keeps_process_multi_sig:
  assumes "inc_keeps I" and "\<And>d a. I d \<Longrightarrow> I (d\<lparr>t_audited_burns := t_audited_burns d @ [a]\<rparr>)"
    and "\<And>d t. I (d\<lparr>t_gnosis_safe_withdrawals := t\<rparr>) = I d"
  shows "keeps (\<lambda>s. I (st_db s)) (process_multi_sig_transaction X safe tx)"
  unfolding process_multi_sig_transaction_def
  by (intro keeps_intros keeps_inc keeps_try_match_withdrawal keeps_gnosis_inserts assms)

section \<open>Processing once\<close>

definition recorded :: "ext \<Rightarrow> database \<Rightarrow> raw_gnosis_transaction \<Rightarrow> bool" where
  "recorded X d tx \<longleftrightarrow> (\<exists>h. raw_tx_hash X tx = Ok h
     \<and> (\<exists>r \<in> set (t_gnosis_safe_txs d). gst_eth_tx_hash r = eth_tx_hash_display X h))"

lemma recorded_frame [simp]:
  "recorded X (d\<lparr>t_counters := a\<rparr>) tx = recorded X d tx"
  "recorded X (d\<lparr>t_audited_mints := b\<rparr>) tx = recorded X d tx"
  "recorded X (d\<lparr>t_audited_burns := e\<rparr>) tx = recorded X d tx"
  "recorded X (d\<lparr>t_gnosis_safe_deposits := f\<rparr>) tx = recorded X d tx"
  "recorded X (d\<lparr>t_gnosis_safe_withdrawals := g\<rparr>) tx = recorded X d tx"
  by (simp_all add: recorded_def)

lemma gnosis_safe_tx_insert_recorded:
  "recorded X (st_db s) tx \<Longrightarrow>
     \<exists>m. gnosis_safe_tx_insert X js tx s = (Err (AlreadyExists m), s)"
  by (auto simp: recorded_def gnosis_safe_tx_insert_def lift_res_def insert_into_gnosis_safe_txs_def
      Let_def list_ex_iff unique_violation_def)

lemma process_transaction_skip:
  "recorded X (st_db s) tx \<Longrightarrow> process_transaction X js dec safe tx s = (Ok (), s)"
  by (drule gnosis_safe_tx_insert_recorded [where js = js])
    (auto simp: process_transaction_def ret_def)

lemma gnosis_safe_tx_insert_cases:
  assumes "gnosis_safe_tx_insert X js tx s = (r, s')"
  shows "(r = Ok () \<and> recorded X (st_db s') tx \<and> \<not> recorded X (st_db s) tx)
    \<or> ((\<exists>m. r = Err (AlreadyExists m)) \<and> s' = s \<and> recorded X (st_db s) tx)
    \<or> ((\<exists>e. r = Err e \<and> (\<forall>m. e \<noteq> AlreadyExists m)) \<and> s' = s) \<or> ((\<exists>p. r = Panic p) \<and> s' = s)"
proof (cases "raw_tx_hash X tx")
  case (Ok h)
  with assms show ?thesis
    by (auto simp: gnosis_safe_tx_insert_def lift_res_def insert_into_gnosis_safe_txs_def Let_def
        list_ex_iff unique_violation_def recorded_def split: if_splits)
qed (use assms in \<open>auto simp: gnosis_safe_tx_insert_def lift_res_def\<close>)

lemma process_transaction_cases:
  assumes "process_transaction X js dec safe tx s = (r, s')"
  obtains (skip) "recorded X (st_db s) tx" "r = Ok ()" "s' = s"
    | (new) t where "gnosis_safe_tx_insert X js tx s = (Ok (), t)" "\<not> recorded X (st_db s) tx"
        "recorded X (st_db t) tx" "process_decoded X dec safe tx t = (r, s')"
    | (fail) "\<forall>u. r \<noteq> Ok u" "s' = s"
proof -
  obtain r1 t where ins: "gnosis_safe_tx_insert X js tx s = (r1, t)" by fastforce
  from gnosis_safe_tx_insert_cases [OF ins] show thesis
  proof (elim disjE conjE exE)
    assume "r1 = Ok ()" "recorded X (st_db t) tx" "\<not> recorded X (st_db s) tx"
    with ins assms show thesis
      by (intro new) (simp_all add: process_transaction_def)
  next
    fix m assume "r1 = Err (AlreadyExists m)" "t = s" "recorded X (st_db s) tx"
    with assms show thesis by (intro skip) (simp_all add: process_transaction_skip)
  next
    fix e assume "r1 = Err e" "\<forall>m. e \<noteq> AlreadyExists m" "t = s"
    with ins assms show thesis
      by (intro fail) (cases e; auto simp: process_transaction_def throw_def)+
  next
    fix p assume "r1 = Panic p" "t = s"
    with ins assms show thesis by (intro fail) (auto simp: process_transaction_def)
  qed
qed

text \<open>Whatever the two kinds of transactions keep, processing a stored transaction keeps.\<close>

lemma keeps_process_decodedI:
  assumes "\<And>etx. dec (rgt_raw tx) = Ok (Ethereum etx) \<Longrightarrow> keeps I (process_eth_transaction X safe etx)"
    and "\<And>m. dec (rgt_raw tx) = Ok (MultiSig m) \<Longrightarrow> keeps I (process_multi_sig_transaction X safe m)"
  shows "keeps I (process_decoded X dec safe tx)"
  unfolding process_decoded_def
proof (rule keeps_bnd_lift_res)
  fix decoded assume "map_err Gnosis (raw_decode dec tx) = Ok decoded"
  then have dec: "dec (rgt_raw tx) = Ok decoded" by (simp add: map_err_eq_Ok raw_decode_def)
  have "keeps I (ignore_unknown_token result)" for result
    by (cases result rule: ignore_unknown_token.cases) (simp_all add: keeps_ret keeps_throw)
  then show "keeps I (case decoded of
       Ethereum eth_tx \<Rightarrow> bnd (attempt (process_eth_transaction X safe eth_tx)) ignore_unknown_token
     | MultiSig multi_sig_tx \<Rightarrow> process_multi_sig_transaction X safe multi_sig_tx
     | Module value \<Rightarrow> ret ())"
    using dec by (cases decoded) (auto intro!: keeps_bnd keeps_attempt keeps_ret assms)
qed

lemma keeps_process_transactionI:
  assumes decoded: "keeps (\<lambda>s. I (st_db s)) (process_decoded X dec safe tx)"
    and insert: "\<And>d t. I d \<Longrightarrow> I (d\<lparr>t_gnosis_safe_txs := t\<rparr>)"
  shows "keeps (\<lambda>s. I (st_db s)) (process_transaction X js dec safe tx)"
proof (rule keepsI)
  fix s :: state assume I: "I (st_db s)"
  obtain r s' where run: "process_transaction X js dec safe tx s = (r, s')" by fastforce
  from run have "I (st_db s')"
  proof (cases rule: process_transaction_cases)
    case (new t)
    have "I (st_db t)" using gnosis_safe_tx_insert_OkD [OF new(1)] I insert by auto
    from keepsD [OF decoded this new(4)] show ?thesis .
  qed (use I in simp_all)
  then show "I (st_db (snd (process_transaction X js dec safe tx s)))" by (simp add: run)
qed

text \<open>What the inserts of parsed rows keep, a whole transaction keeps.\<close>

lemma keeps_process_transfer_rows:
  assumes "inc_keeps I" and "\<And>d a. I d \<Longrightarrow> I (d\<lparr>t_audited_mints := t_audited_mints d @ [a]\<rparr>)"
    and "\<And>x. parse_deposit X safe tx t = Ok x \<Longrightarrow> keeps (\<lambda>s. I (st_db s)) (insert_into_gnosis_safe_deposits X x)"
  shows "keeps (\<lambda>s. I (st_db s)) (process_transfer X safe tx t)"
proof -
  have "keeps (\<lambda>s. I (st_db s)) (bnd (deposit_insert X x) (\<lambda>x. bnd (attempt (try_match_deposit_with_mint X x safe)) (\<lambda>_. ret ())))"
    if "parse_deposit X safe tx t = Ok x" for x
    unfolding deposit_insert_def by (intro keeps_intros keeps_try_match_deposit assms that)
  then show ?thesis
    unfolding process_transfer_def
    by (intro keeps_if keeps_ret keeps_bnd_attempt_lift_res)
      (simp_all add: map_err_eq_Ok keeps_bnd keeps_inc assms(1) keeps_throw)
qed

lemma keeps_process_multi_sig_rows:
  assumes "inc_keeps I" and "\<And>d a. I d \<Longrightarrow> I (d\<lparr>t_audited_burns := t_audited_burns d @ [a]\<rparr>)"
    and "\<And>w. parse_withdrawal_with_pub_key_multi_sig_tx X safe m = Ok w \<Longrightarrow>
      keeps (\<lambda>s. I (st_db s)) (insert_into_gnosis_safe_withdrawals X w)"
  shows "keeps (\<lambda>s. I (st_db s)) (process_multi_sig_transaction X safe m)"
proof -
  have "keeps (\<lambda>s. I (st_db s)) (bnd (withdrawal_insert X w) (\<lambda>w. bnd (attempt (try_match_withdrawal_with_burn X w safe)) (\<lambda>_. ret ())))"
    if "parse_withdrawal_with_pub_key_multi_sig_tx X safe m = Ok w" for w
    unfolding withdrawal_insert_def by (intro keeps_intros keeps_try_match_withdrawal assms that)
  then show ?thesis
    unfolding process_multi_sig_transaction_def
    by (auto intro!: keeps_ret keeps_bnd_attempt_lift_res keeps_inc simp: map_err_eq_Ok assms(1))
qed

lemma keeps_process_rows:
  assumes "inc_keeps I" and "\<And>d a. I d \<Longrightarrow> I (d\<lparr>t_audited_mints := t_audited_mints d @ [a]\<rparr>)"
    and "\<And>d a. I d \<Longrightarrow> I (d\<lparr>t_audited_burns := t_audited_burns d @ [a]\<rparr>)"
    and "\<And>d t. I d \<Longrightarrow> I (d\<lparr>t_gnosis_safe_txs := t\<rparr>)"
    and "\<And>etx t x. dec (rgt_raw tx) = Ok (Ethereum etx) \<Longrightarrow> t \<in> set (etx_transfers etx) \<Longrightarrow>
      parse_deposit X safe etx t = Ok x \<Longrightarrow> keeps (\<lambda>s. I (st_db s)) (insert_into_gnosis_safe_deposits X x)"
    and "\<And>m w. dec (rgt_raw tx) = Ok (MultiSig m) \<Longrightarrow> parse_withdrawal_with_pub_key_multi_sig_tx X safe m = Ok w \<Longrightarrow>
      keeps (\<lambda>s. I (st_db s)) (insert_into_gnosis_safe_withdrawals X w)"
  shows "keeps (\<lambda>s. I (st_db s)) (process_transaction X js dec safe tx)"
proof (intro keeps_process_transactionI keeps_process_decodedI)
  show "keeps (\<lambda>s. I (st_db s)) (process_eth_transaction X safe etx)" if "dec (rgt_raw tx) = Ok (Ethereum etx)" for etx
    unfolding process_eth_transaction_def
    by (intro keeps_for_each keeps_process_transfer_rows assms(1,2) assms(5) [OF that])
  show "keeps (\<lambda>s. I (st_db s)) (process_multi_sig_transaction X safe m)" if "dec (rgt_raw tx) = Ok (MultiSig m)" for m
    by (intro keeps_process_multi_sig_rows assms(1,3) assms(6) [OF that])
qed (rule assms(4))

lemma keeps_process_decoded:
  assumes "inc_keeps I"
    and "\<And>d a. I d \<Longrightarrow> I (d\<lparr>t_audited_mints := t_audited_mints d @ [a]\<rparr>)" and "\<And>d a. I d \<Longrightarrow> I (d\<lparr>t_audited_burns := t_audited_burns d @ [a]\<rparr>)"
    and "\<And>d t. I (d\<lparr>t_gnosis_safe_deposits := t\<rparr>) = I d"
    and "\<And>d t. I (d\<lparr>t_gnosis_safe_withdrawals := t\<rparr>) = I d"
  shows "keeps (\<lambda>s. I (st_db s)) (process_decoded X dec safe tx)"
  by (intro keeps_process_decodedI keeps_process_eth keeps_process_multi_sig) (simp_all add: assms)

lemma process_transaction_recorded:
  assumes "process_transaction X js dec safe tx s = (Ok (), s')"
  shows "recorded X (st_db s') tx"
  using assms
proof (cases rule: process_transaction_cases)
  case (new t)
  have "keeps (\<lambda>s. recorded X (st_db s) tx) (process_decoded X dec safe tx)"
    by (rule keeps_process_decoded) simp_all
  from keepsD [OF this new(3,4)] show ?thesis .
qed (auto simp: assms)

lemma keeps_recorded [keeps_intros]:
  "keeps (\<lambda>s. recorded X (st_db s) tx) (process_transaction X js dec safe tx')"
proof (rule keepsI)
  fix s :: state assume rec: "recorded X (st_db s) tx"
  obtain r s' where run: "process_transaction X js dec safe tx' s = (r, s')" by fastforce
  from run have "recorded X (st_db s') tx"
  proof (cases rule: process_transaction_cases)
    case (new t)
    have "recorded X (st_db t) tx"
      using rec gnosis_safe_tx_insert_OkD [OF new(1)] by (auto simp: recorded_def)
    moreover have "keeps (\<lambda>s. recorded X (st_db s) tx) (process_decoded X dec safe tx')"
      by (rule keeps_process_decoded) simp_all
    ultimately show ?thesis using keepsD new(4) by metis
  qed (use rec in auto)
  then show "recorded X (st_db (snd (process_transaction X js dec safe tx' s))) tx" by (simp add: run)
qed

lemma process_transactions_Cons:
  "process_transactions (ret ()) X js dec safe (tx # txs) =
     bnd (expect ''failed processing transaction'' (conn_transaction (process_transaction X js dec safe tx)))
       (\<lambda>_. process_transactions (ret ()) X js dec safe txs)"
  by (simp add: process_transactions_def expect_def ret_def bnd_def fun_eq_iff)

lemma process_transactions_Nil [simp]: "process_transactions p X js dec safe [] = ret ()"
  by (simp add: process_transactions_def)

lemma expect_transaction_OkD:
  "expect p (conn_transaction m) s = (Ok x, s') \<Longrightarrow> m s = (Ok x, s')"
  by (auto simp: expect_def conn_transaction_def split: prod.splits res.splits)

lemma process_transactions_recorded:
  assumes "process_transactions (ret ()) X js dec safe txs s = (Ok (), s')"
    and "tx \<in> set txs \<or> recorded X (st_db s) tx"
  shows "recorded X (st_db s') tx"
  using assms
proof (induction txs arbitrary: s)
  case Nil
  then show ?case by (simp add: ret_def)
next
  case (Cons t txs)
  from Cons.prems(1) obtain s1 where one: "process_transaction X js dec safe t s = (Ok (), s1)"
    and rest: "process_transactions (ret ()) X js dec safe txs s1 = (Ok (), s')"
    by (auto simp: process_transactions_Cons dest!: expect_transaction_OkD elim!: bnd_eq_OkE)
  have "tx \<in> set txs \<or> recorded X (st_db s1) tx"
    using Cons.prems(2) process_transaction_recorded [OF one] keepsD [OF keeps_recorded _ one] by auto
  with rest show ?case by (rule Cons.IH)
qed

lemma process_transactions_all_recorded:
  "\<forall>tx \<in> set txs. recorded X (st_db s) tx \<Longrightarrow> process_transactions (ret ()) X js dec safe txs s = (Ok (), s)"
proof (induction txs)
  case (Cons tx txs)
  then show ?case
    by (simp add: process_transactions_Cons process_transaction_skip expect_def conn_transaction_def bnd_def)
qed (simp add: ret_def)

text \<open>C12: every poll fetches all transactions of a safe again, so processing must be idempotent, and it
  is: once a list of transactions has been processed, processing any transactions taken from it
  again, in any order and any number of times, does not change the state at all.\<close>

theorem process_transactions_idempotent:
  assumes "process_transactions (ret ()) X js dec safe txs s = (Ok (), s')" and "set txs' \<subseteq> set txs"
  shows "process_transactions (ret ()) X js dec safe txs' s' = (Ok (), s')"
  using process_transactions_all_recorded process_transactions_recorded [OF assms(1)] assms(2) by blast

section \<open>What a parsed withdrawal guarantees\<close>

lemma index_res_eq_Ok [simp]: "index_res xs i = Ok y \<longleftrightarrow> i < length xs \<and> y = xs ! i"
  by (auto simp: index_res_def)

lemma rbind_OkE:
  assumes "rbind r f = Ok y"
  obtains x where "r = Ok x" and "f x = Ok y"
  using assms by (auto simp: rbind_eq_Ok)

lemma parse_err_not_Ok [simp]: "parse_err m \<noteq> Ok x" "parse_err m \<noteq> Panic p"
  by (simp_all add: parse_err_def)

lemma length_1_nth: "length xs = Suc 0 \<Longrightarrow> xs = [xs ! 0]"
  by (cases xs) auto

lemma length_2_nth: "length xs = 2 \<Longrightarrow> xs = [xs ! 0, xs ! 1]"
  by (cases xs; cases "tl xs") auto

text \<open>The shape of a call that passes the checks: one \<open>multiSend\<close> parameter with two values, a
  \<open>transfer\<close> with two parameters on an audited token first.\<close>

definition multi_send_shape ::
  "audited_safe_config \<Rightarrow> multi_sig_transaction \<Rightarrow> value_decoded \<Rightarrow> value_decoded \<Rightarrow> audited_token
   \<Rightarrow> data_decoded_parameter list \<Rightarrow> bool" where
  "multi_send_shape safe m v0 v1 tok ps \<longleftrightarrow>
     (\<exists>n v. mst_data_decoded m = Some (DataDecoded ''multiSend'' [DataDecodedParameter n v (Some [v0, v1])]))
     \<and> get_token_by_eth_contract_addr safe (vd_to v0) = Some tok
     \<and> vd_data_decoded v0 = Some (DataDecoded ''transfer'' ps) \<and> length ps = 2"

lemma parse_multi_send_Ok:
  assumes "parse_multi_send safe m = Ok (v0, v1, tok, ps)"
  shows "multi_send_shape safe m v0 v1 tok ps"
proof -
  from assms obtain data vs dd where data: "mst_data_decoded m = Some data" "dd_method data = ''multiSend''"
    "length (dd_parameters data) = 1" and vs: "ddp_value_decoded (dd_parameters data ! 0) = Some vs"
    "length vs = 2" "v0 = vs ! 0" "v1 = vs ! 1" and tok: "get_token_by_eth_contract_addr safe (vd_to v0) = Some tok"
    and dd: "vd_data_decoded v0 = Some dd" "dd_method dd = ''transfer''" "dd_parameters dd = ps" "length ps = 2"
    unfolding parse_multi_send_def by (auto simp: rbind_eq_Ok split: if_splits)
  obtain n v where p: "dd_parameters data ! 0 = DataDecodedParameter n v (Some vs)"
    using vs(1) by (cases "dd_parameters data ! 0") auto
  have "dd_parameters data = [DataDecodedParameter n v (Some [v0, v1])]"
    using length_1_nth [of "dd_parameters data"] length_2_nth [OF vs(2)] data(3) p vs(3,4) by simp
  then have "data = DataDecoded ''multiSend'' [DataDecodedParameter n v (Some [v0, v1])]"
    using data(2) by (cases data) simp
  moreover have "dd = DataDecoded ''transfer'' ps" using dd by (cases dd) simp
  ultimately show ?thesis
    using data(1) tok dd unfolding multi_send_shape_def by blast
qed

lemma split_sig_key:
  assumes "starts_with sg bs" and "length sg + 32 \<le> length bs"
  shows "\<exists>mid. bs = sg @ mid @ drop (length bs - 32) bs"
proof -
  have bs: "bs = sg @ drop (length sg) bs"
    using assms(1) by (metis append_take_drop_id starts_with_def)
  let ?r = "drop (length sg) bs"
  have "?r = take (length ?r - 32) ?r @ drop (length ?r - 32) ?r"
    by (rule append_take_drop_id [symmetric])
  moreover have "drop (length ?r - 32) ?r = drop (length bs - 32) bs"
    using assms(2) by simp
  ultimately show ?thesis using bs by metis
qed

lemma parse_aux_data_Ok:
  assumes "parse_aux_data X tok v = Ok key"
  shows "eth_addr_eq (vd_to v) (at_aux_burn_contract_addr tok) \<and> starts_with ''0x'' (vd_data v)
    \<and> length key = 32
    \<and> (\<exists>mid. hex_decode X (drop 2 (vd_data v)) = Ok (at_aux_burn_function_sig tok @ mid @ key))"
proof -
  from assms obtain bs where bs: "hex_decode X (drop 2 (vd_data v)) = Ok bs"
    and sg: "starts_with (at_aux_burn_function_sig tok) bs"
    and len: "length (at_aux_burn_function_sig tok) + 32 \<le> length bs" and key: "key = drop (length bs - 32) bs"
    and addr: "eth_addr_eq (vd_to v) (at_aux_burn_contract_addr tok)" "starts_with ''0x'' (vd_data v)"
    unfolding parse_aux_data_def by (auto simp: rbind_eq_Ok Let_def split: if_splits)
  have "length key = 32" using len by (simp add: key)
  with split_sig_key [OF sg len] bs addr show ?thesis unfolding key by metis
qed

text \<open>C21: a withdrawal is only ever made from a \<open>multiSend\<close> of exactly two calls: a \<open>transfer\<close> on an
  audited token contract of the safe, whose second parameter truncated to the audited precision is
  the recorded amount, and a call to that token's auxiliary burn contract whose data begin with its
  function signature and whose last 32 bytes are the recorded output key.\<close>

theorem parse_withdrawal_sound:
  assumes "parse_withdrawal_with_pub_key_multi_sig_tx X safe m = Ok w"
  shows "\<exists>v0 v1 tok p0 p1 amount key mid.
    multi_send_shape safe m v0 v1 tok [p0, p1]
    \<and> parse_u128 (ddp_value p1) = Some amount
    \<and> truncate_value (EthTxValue amount) (at_decimals tok) (asc_token_decimals_max safe)
        = (Ok (withdrawal_amount w) :: (gnosis_error, u64) res)
    \<and> eth_addr_eq (vd_to v1) (at_aux_burn_contract_addr tok)
    \<and> hex_decode X (drop 2 (vd_data v1)) = Ok (at_aux_burn_function_sig tok @ mid @ key)
    \<and> length key = 32 \<and> gsw_mc_tx_out_public_key_hex w = hex_encode X key
    \<and> gsw_id w = None \<and> gsw_eth_tx_hash w = mst_tx_hash m \<and> gsw_safe_addr w = mst_safe m
    \<and> gsw_token_addr w = vd_to v0"
proof -
  from assms obtain q where "parse_multi_send safe m = Ok q"
    unfolding parse_withdrawal_with_pub_key_multi_sig_tx_def by (rule rbind_OkE)
  then obtain v0 v1 tok ps where ms: "parse_multi_send safe m = Ok (v0, v1, tok, ps)"
    by (cases q) auto
  from assms obtain t val key cfg p amount a where aux: "parse_aux_data X tok v1 = Ok key"
    and cfg: "res_ok_or (InvalidAddress (''No matching token in config for address: '' @ eth_addr_str (vd_to v0)))
      (List.find (\<lambda>token. addrs_contain (at_eth_token_contract_addrs token) (vd_to v0)) (asc_tokens safe)) = Ok cfg"
    and p: "index_res ps 1 = (Ok p :: (gnosis_error, data_decoded_parameter) res)"
    and amount: "res_unwrap ''called `Result::unwrap()` on an `Err` value'' (parse_u128 (ddp_value p))
        = (Ok amount :: (gnosis_error, u128) res)"
    and trunc: "truncate_value (EthTxValue amount) (at_decimals cfg) (asc_token_decimals_max safe)
        = (Ok a :: (gnosis_error, u64) res)"
    and w: "Ok (gnosis_safe_withdrawal_new None (mst_tx_hash m) (mst_execution_date m) val
           (mst_eth_block_number m) (mst_safe m) (vd_to v0) (et_to (t :: ethereum_transfer)) a (hex_encode X key))
        = (Ok w :: (gnosis_error, gnosis_safe_withdrawal) res)"
    unfolding parse_withdrawal_with_pub_key_multi_sig_tx_def ms rbind_simps prod.case
    by (elim rbind_OkE) (rule that, assumption+)
  note shape = parse_multi_send_Ok [OF ms]
  have "cfg = tok"
    using shape cfg by (auto simp: multi_send_shape_def get_token_by_eth_contract_addr_def)
  moreover have "ps = [ps ! 0, ps ! 1]"
    using shape length_2_nth by (auto simp: multi_send_shape_def)
  moreover obtain mid where "hex_decode X (drop 2 (vd_data v1)) = Ok (at_aux_burn_function_sig tok @ mid @ key)"
    using parse_aux_data_Ok [OF aux] by blast
  ultimately show ?thesis
    using shape parse_aux_data_Ok [OF aux] amount trunc w p
    by (intro exI [of _ v0] exI [of _ v1] exI [of _ tok] exI [of _ "ps ! 0"] exI [of _ "ps ! 1"]
        exI [of _ amount] exI [of _ key] exI [of _ mid])
      (auto simp: gnosis_safe_withdrawal_new_def withdrawal_amount_def)
qed

lemma show_nat_0: "show_nat 0 = ''0''"
  by code_simp

text \<open>C36: the number of token transfers of a multi-send is not checked, although the code builds the
  error for it: with no transfer the parser panics on index 0 instead of returning an error, and
  with several it takes the first and ignores the rest.\<close>

theorem transfer_count_unchecked:
  assumes "parse_multi_send safe m = Ok r"
  shows "parse_withdrawal_with_pub_key_multi_sig_tx X safe (m\<lparr>mst_transfer_data := []\<rparr>)
      = Panic ''index out of bounds: the len is 0 but the index is 0''
    \<and> parse_withdrawal_with_pub_key_multi_sig_tx X safe (m\<lparr>mst_transfer_data := t # ts\<rparr>)
      = parse_withdrawal_with_pub_key_multi_sig_tx X safe (m\<lparr>mst_transfer_data := [t]\<rparr>)"
proof -
  have same: "parse_multi_send safe (m\<lparr>mst_transfer_data := x\<rparr>) = Ok r" for x
    using assms by (simp add: parse_multi_send_def)
  obtain v0 v1 tok ps where r: "r = (v0, v1, tok, ps)" by (cases r)
  show ?thesis
    unfolding parse_withdrawal_with_pub_key_multi_sig_tx_def same r
    by (simp add: index_res_def show_nat_0)
qed

section \<open>Transfers the code does not expect\<close>

definition add_invalid_eth :: "counters \<Rightarrow> counters" where
  "add_invalid_eth k = k\<lparr>num_invalid_ethereum_transactions := num_invalid_ethereum_transactions k + 1\<rparr>"

lemma process_transfer_invalid:
  assumes "parse_deposit X safe tx t = Err e" and "eth_addr_eq (et_to t) (asc_safe_addr safe)"
    and "t_counters (st_db s) = [k]"
  shows "process_transfer X safe tx t s = (Err (Gnosis e), set_counters (add_invalid_eth k) s)"
proof -
  have "inc_num_invalid_ethereum_transactions s = (Ok (), set_counters (add_invalid_eth k) s)"
    using assms(3) by (cases k) (simp add: inc_defs add_invalid_eth_def)
  with assms show ?thesis
    by (simp add: process_transfer_def attempt_def lift_res_def bnd_def throw_def)
qed

lemma process_eth_invalid:
  assumes "parse_deposit X safe etx t = Err e" and "eth_addr_eq (et_to t) (asc_safe_addr safe)"
    and "t_counters (st_db s) = [k]" and "etx_transfers etx = t # ts"
  shows "process_eth_transaction X safe etx s = (Err (Gnosis e), set_counters (add_invalid_eth k) s)"
  using process_transfer_invalid [OF assms(1-3)] assms(4) by (simp add: process_eth_transaction_def)

lemma gnosis_safe_tx_insert_new:
  assumes "\<not> recorded X (st_db s) tx" and "raw_tx_hash X tx = Ok h"
  shows "gnosis_safe_tx_insert X js tx s = (Ok (), s\<lparr>st_db := (st_db s)\<lparr>t_gnosis_safe_txs :=
     t_gnosis_safe_txs (st_db s) @ [\<lparr>gst_eth_tx_hash = eth_tx_hash_display X h,
       gst_raw_tx_json = js (rgt_raw tx)\<rparr>]\<rparr>\<rparr>)"
  using assms by (auto simp: gnosis_safe_tx_insert_def lift_res_def insert_into_gnosis_safe_txs_def Let_def
      list_ex_iff recorded_def raw_to_json_string_def)

text \<open>C34: when the first transfer of an Ethereum transaction is a deposit of a token that is not
  audited, the transaction is recorded and counted as invalid, and all its remaining transfers are
  dropped: whatever they are, no deposit is stored for them, and because the transaction is now
  recorded no later poll looks at them again.\<close>

theorem unknown_token_drops_transfers:
  assumes "\<not> recorded X (st_db s) tx" and "raw_tx_hash X tx = Ok h"
    and "dec (rgt_raw tx) = Ok (Ethereum etx)" and "etx_transfers etx = t # ts"
    and "eth_addr_eq (et_to t) (asc_safe_addr safe)" and "et_token_addr t = Some a"
    and "get_token_by_eth_contract_addr safe a = None" and "t_counters (st_db s) = [k]"
  shows "\<exists>s'. process_transactions (ret ()) X js dec safe [tx] s = (Ok (), s')
    \<and> t_gnosis_safe_deposits (st_db s') = t_gnosis_safe_deposits (st_db s)
    \<and> t_counters (st_db s') = [k\<lparr>num_invalid_ethereum_transactions := num_invalid_ethereum_transactions k + 1\<rparr>]
    \<and> process_transactions (ret ()) X js dec safe [tx] s' = (Ok (), s')"
proof -
  let ?t = "s\<lparr>st_db := (st_db s)\<lparr>t_gnosis_safe_txs := t_gnosis_safe_txs (st_db s)
      @ [\<lparr>gst_eth_tx_hash = eth_tx_hash_display X h, gst_raw_tx_json = js (rgt_raw tx)\<rparr>]\<rparr>\<rparr>"
  let ?s' = "set_counters (add_invalid_eth k) ?t"
  have "parse_deposit X safe etx t = Err (UnknownToken ''Unknown token transfer'')"
    using assms(6,7) by (simp add: parse_deposit_def res_ok_or_def get_token_by_eth_contract_addr_def)
  from process_eth_invalid [OF this assms(5) _ assms(4), of ?t k] assms(8)
  have "process_eth_transaction X safe etx ?t
      = (Err (Gnosis (UnknownToken ''Unknown token transfer'')), ?s')" by simp
  then have "process_transaction X js dec safe tx s = (Ok (), ?s')"
    using gnosis_safe_tx_insert_new [OF assms(1,2)] assms(3)
    by (simp add: process_transaction_def process_decoded_def raw_decode_def lift_res_def ret_def)
  then have run: "process_transactions (ret ()) X js dec safe [tx] s = (Ok (), ?s')"
    by (simp add: process_transactions_Cons expect_def conn_transaction_def bnd_def)
      (simp add: ret_def)
  moreover have "recorded X (st_db ?s') tx" using assms(2) by (auto simp: recorded_def)
  then have "process_transactions (ret ()) X js dec safe [tx] ?s' = (Ok (), ?s')"
    by (intro process_transactions_all_recorded) simp
  ultimately show ?thesis
    by (intro exI [of _ ?s']) (simp add: add_invalid_eth_def)
qed

text \<open>C35: a plain Ether transfer into the safe (a transfer without token address) as the first transfer
  of a new transaction panics the sync: the transaction is rolled back, so it is not recorded and
  the next poll panics on it again, and no transaction behind it in the list is ever processed.\<close>

theorem ether_transfer_panics:
  assumes "\<not> recorded X (st_db s) tx" and "raw_tx_hash X tx = Ok h"
    and "dec (rgt_raw tx) = Ok (Ethereum etx)" and "etx_transfers etx = t # ts"
    and "eth_addr_eq (et_to t) (asc_safe_addr safe)" and "et_token_addr t = None"
    and "t_counters (st_db s) = [k]"
  shows "\<exists>s'. process_transactions (ret ()) X js dec safe (tx # txs) s
      = (Panic ''failed processing transaction'', s')
    \<and> st_db s' = st_db s \<and> \<not> recorded X (st_db s') tx
    \<and> (\<exists>s''. process_transactions (ret ()) X js dec safe (tx # txs) s'
         = (Panic ''failed processing transaction'', s''))"
proof -
  have panics: "\<exists>s'. process_transactions (ret ()) X js dec safe (tx # txs) u
      = (Panic ''failed processing transaction'', s') \<and> st_db s' = st_db s" if u: "st_db u = st_db s" for u
  proof -
    let ?t = "u\<lparr>st_db := (st_db u)\<lparr>t_gnosis_safe_txs := t_gnosis_safe_txs (st_db u)
        @ [\<lparr>gst_eth_tx_hash = eth_tx_hash_display X h, gst_raw_tx_json = js (rgt_raw tx)\<rparr>]\<rparr>\<rparr>"
    let ?e = "Gnosis (ApiResultParse ''Transfer token address cannot be empty'')"
    have "parse_deposit X safe etx t = Err (ApiResultParse ''Transfer token address cannot be empty'')"
      using assms(6) by (simp add: parse_deposit_def res_ok_or_def)
    from process_eth_invalid [OF this assms(5) _ assms(4), of ?t k] assms(7) u
    have "process_eth_transaction X safe etx ?t = (Err ?e, set_counters (add_invalid_eth k) ?t)" by simp
    then have "process_transaction X js dec safe tx u = (Err ?e, set_counters (add_invalid_eth k) ?t)"
      using gnosis_safe_tx_insert_new [of X u tx h js] assms(1-3) u
      by (simp add: process_transaction_def process_decoded_def raw_decode_def lift_res_def throw_def)
    then show ?thesis
      using u by (simp add: process_transactions_Cons expect_def conn_transaction_def bnd_def)
  qed
  obtain s' where run: "process_transactions (ret ()) X js dec safe (tx # txs) s
      = (Panic ''failed processing transaction'', s')" and db: "st_db s' = st_db s"
    using panics [of s] by blast
  with panics [OF db] assms(1) show ?thesis by auto
qed

end
