(* ===== verification/Invariants.thy ===== *)
theory Invariants
  imports Gnosis_Sync
begin

text \<open>
  The invariant of the whole database and its preservation by every operation that writes: storing
  mint configurations, mints and burns (the ledger side), deposits and withdrawals (the safe side),
  the four matching functions, and the two transactions built from them. The locale \<open>ext_laws\<close>
  collects the documented behaviour of the code outside the repository that preservation relies
  on; theorems that need it take \<open>ext_laws X\<close> as hypothesis.
\<close>

section \<open>The laws used\<close>

locale ext_laws =
  fixes X :: ext
  assumes rowid: "rowid_alloc (new_rowid X)"
    and hex: "hex_codec (hex_encode X) (hex_decode X)"
    and config_codec: "msg_codec (encode_mint_config X) (decode_mint_config X)"
    and config_tx_codec: "msg_codec (encode_mint_config_tx X) (decode_mint_config_tx X)"

section \<open>The invariant\<close>

text \<open>Deposits carry the nonce derived from their own hash.\<close>

definition deposit_wf :: "ext \<Rightarrow> gnosis_safe_deposit \<Rightarrow> bool" where
  "deposit_wf X x \<longleftrightarrow> eth_tx_hash_wf (gsd_eth_tx_hash x) \<and> gsd_expected_mc_mint_tx_nonce_hex x =
     hex_encode X (mint_tx_nonce_to_bytes (EthereumGnosisDeposit (gsd_eth_tx_hash x)))"

definition mint_side_ok :: "ext \<Rightarrow> gnosis_safe_config \<Rightarrow> database \<Rightarrow> bool" where
  "mint_side_ok X cfg d \<longleftrightarrow> mint_tables_ok cfg d \<and> (\<forall>x \<in> set (t_gnosis_safe_deposits d). deposit_wf X x)"

text \<open>The configuration tables are what \<open>lookup_mint_config\<close> relies on.\<close>

definition config_tables_ok :: "ext \<Rightarrow> database \<Rightarrow> bool" where
  "config_tables_ok X d \<longleftrightarrow> ids_ok mct_id (t_mint_config_txs d) \<and> ids_ok mc_id (t_mint_configs d)
     \<and> distinct (map (\<lambda>t. (mct_block_index t, mct_token_id t)) (t_mint_config_txs d))
     \<and> (\<forall>c \<in> set (t_mint_configs d). \<exists>core. mint_config_decode X c = Ok core)"

definition db_ok :: "ext \<Rightarrow> gnosis_safe_config \<Rightarrow> database \<Rightarrow> bool" where
  "db_ok X cfg d \<longleftrightarrow> mint_side_ok X cfg d \<and> burn_tables_ok cfg d \<and> config_tables_ok X d"

lemma side_frames [simp]:
  "mint_side_ok X cfg (d\<lparr>t_counters := a\<rparr>) = mint_side_ok X cfg d"
  "mint_side_ok X cfg (d\<lparr>t_burn_tx_outs := b\<rparr>) = mint_side_ok X cfg d"
  "mint_side_ok X cfg (d\<lparr>t_gnosis_safe_withdrawals := e\<rparr>) = mint_side_ok X cfg d"
  "mint_side_ok X cfg (d\<lparr>t_audited_burns := f\<rparr>) = mint_side_ok X cfg d"
  "mint_side_ok X cfg (d\<lparr>t_mint_configs := g\<rparr>) = mint_side_ok X cfg d"
  "mint_side_ok X cfg (d\<lparr>t_mint_config_txs := h\<rparr>) = mint_side_ok X cfg d"
  "mint_side_ok X cfg (d\<lparr>t_block_audit_data := i\<rparr>) = mint_side_ok X cfg d"
  "mint_side_ok X cfg (d\<lparr>t_block_balance := j\<rparr>) = mint_side_ok X cfg d"
  "mint_side_ok X cfg (d\<lparr>t_gnosis_safe_txs := k\<rparr>) = mint_side_ok X cfg d"
  by (simp_all add: mint_side_ok_def mint_tables_ok_def audited_mints_ok_def)

lemma burn_frames [simp]:
  "burn_tables_ok cfg (d\<lparr>t_mint_txs := b\<rparr>) = burn_tables_ok cfg d"
  "burn_tables_ok cfg (d\<lparr>t_gnosis_safe_deposits := e\<rparr>) = burn_tables_ok cfg d"
  "burn_tables_ok cfg (d\<lparr>t_audited_mints := f\<rparr>) = burn_tables_ok cfg d"
  "burn_tables_ok cfg (d\<lparr>t_mint_configs := g\<rparr>) = burn_tables_ok cfg d"
  "burn_tables_ok cfg (d\<lparr>t_mint_config_txs := h\<rparr>) = burn_tables_ok cfg d"
  "burn_tables_ok cfg (d\<lparr>t_block_audit_data := i\<rparr>) = burn_tables_ok cfg d"
  "burn_tables_ok cfg (d\<lparr>t_block_balance := j\<rparr>) = burn_tables_ok cfg d"
  "burn_tables_ok cfg (d\<lparr>t_gnosis_safe_txs := k\<rparr>) = burn_tables_ok cfg d"
  by (simp_all add: burn_tables_ok_def audited_burns_ok_def)

lemma config_frames [simp]:
  "config_tables_ok X (d\<lparr>t_counters := a\<rparr>) = config_tables_ok X d"
  "config_tables_ok X (d\<lparr>t_mint_txs := b\<rparr>) = config_tables_ok X d"
  "config_tables_ok X (d\<lparr>t_gnosis_safe_deposits := e\<rparr>) = config_tables_ok X d"
  "config_tables_ok X (d\<lparr>t_audited_mints := f\<rparr>) = config_tables_ok X d"
  "config_tables_ok X (d\<lparr>t_burn_tx_outs := g\<rparr>) = config_tables_ok X d"
  "config_tables_ok X (d\<lparr>t_gnosis_safe_withdrawals := h\<rparr>) = config_tables_ok X d"
  "config_tables_ok X (d\<lparr>t_audited_burns := i\<rparr>) = config_tables_ok X d"
  "config_tables_ok X (d\<lparr>t_block_audit_data := j\<rparr>) = config_tables_ok X d"
  "config_tables_ok X (d\<lparr>t_block_balance := k\<rparr>) = config_tables_ok X d"
  "config_tables_ok X (d\<lparr>t_gnosis_safe_txs := l\<rparr>) = config_tables_ok X d"
  by (simp_all add: config_tables_ok_def)

lemma db_ok_frames [simp]:
  "db_ok X cfg (d\<lparr>t_counters := a\<rparr>) = db_ok X cfg d"
  "db_ok X cfg (d\<lparr>t_block_audit_data := i\<rparr>) = db_ok X cfg d"
  "db_ok X cfg (d\<lparr>t_block_balance := j\<rparr>) = db_ok X cfg d"
  "db_ok X cfg (d\<lparr>t_gnosis_safe_txs := k\<rparr>) = db_ok X cfg d"
  by (simp_all add: db_ok_def)

lemma db_ok_empty: "db_ok X cfg empty_database"
  by (simp add: db_ok_def mint_side_ok_def mint_tables_ok_def audited_mints_ok_def burn_tables_ok_def
      audited_burns_ok_def audits_ok_def config_tables_ok_def ids_ok_def empty_database_def)

section \<open>Writes that append a row\<close>

text \<open>A rule for insertions: only the successful case has to be looked at.\<close>

lemma keeps_on_Ok:
  fixes m :: "'a dbm"
  assumes "\<And>s e s'. m s = (Err e, s') \<Longrightarrow> st_db s' = st_db s" and "\<And>s p s'. m s = (Panic p, s') \<Longrightarrow> st_db s' = st_db s"
    and "\<And>s x s'. I (st_db s) \<Longrightarrow> m s = (Ok x, s') \<Longrightarrow> I (st_db s')"
  shows "keeps (\<lambda>s. I (st_db s)) m"
proof (rule keepsI)
  fix s :: state assume I: "I (st_db s)"
  obtain r s' where run: "m s = (r, s')" by fastforce
  then show "I (st_db (snd (m s)))"
    using assms(1) [of s _ s'] assms(2) [of s _ s'] assms(3) [OF I, of _ s'] I by (cases r) simp_all
qed

lemma keeps_sql_insert_Ok:
  assumes "\<And>s u s'. I (st_db s) \<Longrightarrow> sql_insert X rid set_rid get put uniq fk r s = (Ok u, s') \<Longrightarrow> I (st_db s')"
  shows "keeps (\<lambda>s. I (st_db s)) (sql_insert X rid set_rid get put uniq fk r)"
  by (rule keeps_on_Ok; (erule (1) assms)?)
    (auto simp: sql_insert_def Let_def split: option.splits if_splits)

context ext_laws
begin

lemma keeps_mint_insert:
  assumes "mt_id m = None"
  shows "keeps (\<lambda>s. mint_side_ok X cfg (st_db s)) (insert_into_mint_txs X m)"
  unfolding insert_into_mint_txs_def
proof (rule keeps_sql_insert_Ok)
  fix s u s'
  assume ok: "mint_side_ok X cfg (st_db s)" and run: "sql_insert X mt_id (\<lambda>i r. r\<lparr>mt_id := Some i\<rparr>)
     t_mint_txs (\<lambda>t d. d\<lparr>t_mint_txs := t\<rparr>)
     (\<lambda>d r. if list_ex (\<lambda>x. mt_nonce_hex x = mt_nonce_hex r) (t_mint_txs d)
             then Some ''mint_txs.nonce_hex'' else None)
     (\<lambda>d r. case mt_mint_config_id r of None \<Rightarrow> True
              | Some c \<Rightarrow> list_ex (\<lambda>x. mc_id x = Some c) (t_mint_configs d)) m s = (Ok u, s')"
  have ids: "ids_ok mt_id (t_mint_txs (st_db s'))"
    by (rule mt.insert_ids_ok [OF rowid _ assms run])
      (use ok in \<open>simp add: mint_side_ok_def mint_tables_ok_def\<close>)
  from insert_into_mint_txs_OkD [of X m s u s'] run obtain i where
    s': "st_db s' = (st_db s)\<lparr>t_mint_txs := t_mint_txs (st_db s) @ [m\<lparr>mt_id := Some i\<rparr>]\<rparr>"
    and new: "\<forall>x \<in> set (t_mint_txs (st_db s)). mt_nonce_hex x \<noteq> mt_nonce_hex m"
    by (auto simp: insert_into_mint_txs_def)
  have "audited_mints_ok cfg (st_db s')"
    using ok unfolding mint_side_ok_def mint_tables_ok_def audited_mints_ok_def s'
    by (auto intro: audits_ok_mono)
  then show "mint_side_ok X cfg (st_db s')"
    using ok ids new by (auto simp: mint_side_ok_def mint_tables_ok_def s')
qed

lemma keeps_burn_insert:
  assumes "bto_id b = None"
  shows "keeps (\<lambda>s. burn_tables_ok cfg (st_db s)) (insert_into_burn_tx_outs X b)"
  unfolding insert_into_burn_tx_outs_def
proof (rule keeps_sql_insert_Ok)
  fix s u s'
  assume ok: "burn_tables_ok cfg (st_db s)" and run: "sql_insert X bto_id (\<lambda>i r. r\<lparr>bto_id := Some i\<rparr>)
     t_burn_tx_outs (\<lambda>t d. d\<lparr>t_burn_tx_outs := t\<rparr>)
     (\<lambda>d r. if list_ex (\<lambda>x. bto_public_key_hex x = bto_public_key_hex r) (t_burn_tx_outs d)
             then Some ''burn_tx_outs.public_key_hex'' else None)
     (\<lambda>d r. True) b s = (Ok u, s')"
  have ids: "ids_ok bto_id (t_burn_tx_outs (st_db s'))"
    by (rule bto.insert_ids_ok [OF rowid _ assms run]) (use ok in \<open>simp add: burn_tables_ok_def\<close>)
  from insert_into_burn_tx_outs_OkD [of X b s u s'] run obtain i where
    s': "st_db s' = (st_db s)\<lparr>t_burn_tx_outs := t_burn_tx_outs (st_db s) @ [b\<lparr>bto_id := Some i\<rparr>]\<rparr>"
    and new: "\<forall>x \<in> set (t_burn_tx_outs (st_db s)). bto_public_key_hex x \<noteq> bto_public_key_hex b"
    by (auto simp: insert_into_burn_tx_outs_def)
  have "audited_burns_ok cfg (st_db s')"
    using ok unfolding burn_tables_ok_def audited_burns_ok_def s' by (auto intro: audits_ok_mono)
  then show "burn_tables_ok cfg (st_db s')"
    using ok ids new by (auto simp: burn_tables_ok_def s')
qed

lemma deposit_nonce_inject:
  assumes "deposit_wf X x" and "deposit_wf X y"
    and "eth_tx_hash_display X (gsd_eth_tx_hash x) \<noteq> eth_tx_hash_display X (gsd_eth_tx_hash y)"
  shows "gsd_expected_mc_mint_tx_nonce_hex x \<noteq> gsd_expected_mc_mint_tx_nonce_hex y"
  using assms by (auto simp: deposit_wf_def eth_tx_hash_display_def hex_codec.enc_inject [OF hex]
      mint_tx_nonce_bytes simp del: mint_tx_nonce_to_bytes.simps)

lemma keeps_deposit_insert:
  assumes "gsd_id x = None" and "deposit_wf X x"
  shows "keeps (\<lambda>s. mint_side_ok X cfg (st_db s)) (insert_into_gnosis_safe_deposits X x)"
proof (rule keeps_on_Ok)
  fix s u s'
  assume ok: "mint_side_ok X cfg (st_db s)" and run: "insert_into_gnosis_safe_deposits X x s = (Ok u, s')"
  have ids: "ids_ok gsd_id (t_gnosis_safe_deposits (st_db s'))"
    by (rule gsd.insert_ids_ok [OF rowid _ assms(1) run [unfolded insert_into_gnosis_safe_deposits_def]])
      (use ok in \<open>simp add: mint_side_ok_def mint_tables_ok_def\<close>)
  from insert_into_gnosis_safe_deposits_OkD [OF run] obtain i where
    s': "st_db s' = (st_db s)\<lparr>t_gnosis_safe_deposits :=
        t_gnosis_safe_deposits (st_db s) @ [x\<lparr>gsd_id := Some i\<rparr>]\<rparr>"
    and new: "\<forall>y \<in> set (t_gnosis_safe_deposits (st_db s)).
         eth_tx_hash_display X (gsd_eth_tx_hash y) \<noteq> eth_tx_hash_display X (gsd_eth_tx_hash x)" by auto
  have "audited_mints_ok cfg (st_db s')"
    using ok unfolding mint_side_ok_def mint_tables_ok_def audited_mints_ok_def s'
    by (auto intro: audits_ok_mono)
  moreover have "deposit_wf X (x\<lparr>gsd_id := Some i\<rparr>)" using assms(2) by (simp add: deposit_wf_def)
  moreover have "gsd_expected_mc_mint_tx_nonce_hex x \<notin>
      gsd_expected_mc_mint_tx_nonce_hex ` set (t_gnosis_safe_deposits (st_db s))"
    using deposit_nonce_inject [OF _ assms(2)] new ok by (fastforce simp: mint_side_ok_def)
  ultimately show "mint_side_ok X cfg (st_db s')"
    using ok ids by (auto simp: mint_side_ok_def mint_tables_ok_def s')
qed (auto simp: insert_into_gnosis_safe_deposits_def sql_insert_def Let_def split: option.splits if_splits)

lemma keeps_withdrawal_insert:
  assumes "gsw_id x = None"
  shows "keeps (\<lambda>s. burn_tables_ok cfg (st_db s)) (insert_into_gnosis_safe_withdrawals X x)"
proof (rule keeps_on_Ok)
  fix s u s'
  assume ok: "burn_tables_ok cfg (st_db s)" and run: "insert_into_gnosis_safe_withdrawals X x s = (Ok u, s')"
  have ids: "ids_ok gsw_id (t_gnosis_safe_withdrawals (st_db s'))"
    by (rule gsw.insert_ids_ok [OF rowid _ assms(1) run [unfolded insert_into_gnosis_safe_withdrawals_def]])
      (use ok in \<open>simp add: burn_tables_ok_def\<close>)
  from insert_into_gnosis_safe_withdrawals_OkD [OF run] obtain i where
    s': "st_db s' = (st_db s)\<lparr>t_gnosis_safe_withdrawals :=
        t_gnosis_safe_withdrawals (st_db s) @ [x\<lparr>gsw_id := Some i\<rparr>]\<rparr>" by auto
  have "audited_burns_ok cfg (st_db s')"
    using ok unfolding burn_tables_ok_def audited_burns_ok_def s' by (auto intro: audits_ok_mono)
  then show "burn_tables_ok cfg (st_db s')"
    using ok ids by (auto simp: burn_tables_ok_def s')
qed (auto simp: insert_into_gnosis_safe_withdrawals_def sql_insert_def Let_def split: option.splits if_splits)

lemma keeps_config_insert:
  "keeps (\<lambda>s. config_tables_ok X (st_db s)) (insert_into_mint_configs X (from_core_mint_config X j c))"
proof (rule keeps_on_Ok)
  let ?c = "from_core_mint_config X j c"
  fix s u s'
  assume ok: "config_tables_ok X (st_db s)" and run: "insert_into_mint_configs X ?c s = (Ok u, s')"
  have ids: "ids_ok mc_id (t_mint_configs (st_db s'))"
    by (rule mc.insert_ids_ok [OF rowid _ _ run [unfolded insert_into_mint_configs_def]])
      (use ok in \<open>simp_all add: config_tables_ok_def from_core_mint_config_def\<close>)
  from insert_into_mint_configs_OkD [OF run] obtain i where
    s': "st_db s' = (st_db s)\<lparr>t_mint_configs := t_mint_configs (st_db s) @ [?c\<lparr>mc_id := Some i\<rparr>]\<rparr>" by auto
  have "mint_config_decode X (?c\<lparr>mc_id := Some i\<rparr>) = Ok c"
    by (simp add: mint_config_decode_def from_core_mint_config_def msg_codec.dec_enc [OF config_codec])
  then show "config_tables_ok X (st_db s')"
    using ok ids by (auto simp: config_tables_ok_def s')
qed (auto simp: insert_into_mint_configs_def sql_insert_def Let_def split: option.splits if_splits)

lemma keeps_config_tx_insert:
  "keeps (\<lambda>s. config_tables_ok X (st_db s)) (insert_into_mint_config_txs X (from_core_mint_config_tx X b ts tx))"
proof (rule keeps_on_Ok)
  let ?t = "from_core_mint_config_tx X b ts tx"
  fix s u s'
  assume ok: "config_tables_ok X (st_db s)" and run: "insert_into_mint_config_txs X ?t s = (Ok u, s')"
  note run' = run [unfolded insert_into_mint_config_txs_def]
  have ids: "ids_ok mct_id (t_mint_config_txs (st_db s'))"
    by (rule mct.insert_ids_ok [OF rowid _ _ run'])
      (use ok in \<open>simp_all add: config_tables_ok_def from_core_mint_config_tx_def\<close>)
  from run' obtain i where s': "s' = s\<lparr>st_db := (st_db s)\<lparr>t_mint_config_txs :=
      t_mint_config_txs (st_db s) @ [?t\<lparr>mct_id := Some i\<rparr>]\<rparr>, st_last_insert_rowid := i\<rparr>"
    and uniq: "(if list_ex (\<lambda>x. mct_nonce_hex x = mct_nonce_hex ?t) (t_mint_config_txs (st_db s))
             then Some ''mint_config_txs.nonce_hex''
             else if list_ex (\<lambda>x. mct_block_index x = mct_block_index ?t
                               \<and> mct_token_id x = mct_token_id ?t) (t_mint_config_txs (st_db s))
             then Some ''mint_config_txs.block_index, mint_config_txs.token_id''
             else None) = None"
    by (rule mct.insert_OkE)
  have "(mct_block_index ?t, mct_token_id ?t) \<notin>
      (\<lambda>t. (mct_block_index t, mct_token_id t)) ` set (t_mint_config_txs (st_db s))"
    using uniq by (auto simp: list_ex_iff split: if_splits)
  then show "config_tables_ok X (st_db s')"
    using ok ids by (auto simp: config_tables_ok_def s')
qed (auto simp: insert_into_mint_config_txs_def sql_insert_def Let_def split: option.splits if_splits)

end

section \<open>Whole transactions\<close>

lemma keeps_lookup_loop [keeps_intros]: "keeps I (lookup_loop X b mtx msg cs)"
  by (induction cs) (auto intro!: keeps_intros)

lemma keeps_lookup_mint_config [keeps_intros]: "keeps I (lookup_mint_config X b mtx)"
  unfolding lookup_mint_config_def by (intro keeps_intros)

lemma keeps_insert_from_core_mint_tx:
  assumes "\<And>m. mt_id m = None \<Longrightarrow> keeps (\<lambda>s. I (st_db s)) (insert_into_mint_txs X m)"
  shows "keeps (\<lambda>s. I (st_db s)) (insert_from_core_mint_tx X i ts c tx)"
  unfolding insert_from_core_mint_tx_def mint_tx_insert_def by (intro keeps_intros assms)

lemma keeps_burn_tx_out_insert:
  assumes "\<And>b. bto_id b = None \<Longrightarrow> keeps (\<lambda>s. I (st_db s)) (insert_into_burn_tx_outs X b)"
  shows "keeps (\<lambda>s. I (st_db s)) (burn_tx_out_insert X b)"
  unfolding burn_tx_out_insert_def by (intro keeps_intros assms)

lemma keeps_frame_inserts:
  "(\<And>d t. I (d\<lparr>t_mint_configs := t\<rparr>) = I d) \<Longrightarrow> keeps (\<lambda>s. I (st_db s)) (insert_into_mint_configs X c)"
  "(\<And>d t. I (d\<lparr>t_mint_config_txs := t\<rparr>) = I d) \<Longrightarrow> keeps (\<lambda>s. I (st_db s)) (insert_into_mint_config_txs X ct)"
  "(\<And>d t. I (d\<lparr>t_mint_txs := t\<rparr>) = I d) \<Longrightarrow> keeps (\<lambda>s. I (st_db s)) (insert_into_mint_txs X m)"
  "(\<And>d t. I (d\<lparr>t_burn_tx_outs := t\<rparr>) = I d) \<Longrightarrow> keeps (\<lambda>s. I (st_db s)) (insert_into_burn_tx_outs X b)"
  unfolding insert_into_mint_configs_def insert_into_mint_config_txs_def insert_into_mint_txs_def
    insert_into_burn_tx_outs_def
  by (rule keeps_sql_insert; assumption)+

text \<open>Syncing a block keeps whatever its writes keep.\<close>

lemma keeps_sync_block:
  assumes "\<And>d c. I (d\<lparr>t_counters := c\<rparr>) = I d"
    and "\<And>d t. I (d\<lparr>t_block_audit_data := t\<rparr>) = I d" and "\<And>d t. I (d\<lparr>t_block_balance := t\<rparr>) = I d"
    and "\<And>j c. keeps (\<lambda>s. I (st_db s)) (insert_into_mint_configs X (from_core_mint_config X j c))"
    and "\<And>tx. keeps (\<lambda>s. I (st_db s)) (insert_into_mint_config_txs X (from_core_mint_config_tx X (blk_index blk) ts tx))"
    and "\<And>m. mt_id m = None \<Longrightarrow> keeps (\<lambda>s. I (st_db s)) (insert_into_mint_txs X m)"
    and "\<And>b. bto_id b = None \<Longrightarrow> keeps (\<lambda>s. I (st_db s)) (insert_into_burn_tx_outs X b)"
  shows "keeps (\<lambda>s. I (st_db s)) (sync_block_with_conn X blk bc ts)"
  unfolding sync_block_with_conn_def sync_block_tx_def sync_mint_def sync_burn_def Let_def inc_defs
    store_config_txs_def [symmetric] split_def
  by (intro keeps_intros keeps_impl_inc keeps_store_config_txs keeps_insert_from_core_mint_tx
      keeps_burn_tx_out_insert keeps_block_audit_data_set keeps_set_balances_for_block assms)

text \<open>What the typed decoding guarantees of a transaction: hashes are arrays of 32 bytes.\<close>

fun gnosis_transaction_wf :: "gnosis_transaction \<Rightarrow> bool" where
  "gnosis_transaction_wf (Ethereum tx) = (\<forall>t \<in> set (etx_transfers tx). eth_tx_hash_wf (et_tx_hash t))"
| "gnosis_transaction_wf _ = True"

lemma parse_deposit_wf:
  "parse_deposit X safe tx t = Ok x \<Longrightarrow> eth_tx_hash_wf (et_tx_hash t) \<Longrightarrow> deposit_wf X x \<and> gsd_id x = None"
  by (auto simp: parse_deposit_def rbind_eq_Ok gnosis_safe_deposit_new_def deposit_wf_def)

lemma parse_withdrawal_id:
  "parse_withdrawal_with_pub_key_multi_sig_tx X safe m = Ok w \<Longrightarrow> gsw_id w = None"
  unfolding parse_withdrawal_with_pub_key_multi_sig_tx_def
  by (auto simp: rbind_eq_Ok gnosis_safe_withdrawal_new_def split: prod.splits)

context ext_laws
begin

lemma sync_block_keeps_config:
  "keeps (\<lambda>s. config_tables_ok X (st_db s)) (sync_block_with_conn X blk bc ts)"
  by (rule keeps_sync_block [OF _ _ _ keeps_config_insert keeps_config_tx_insert keeps_frame_inserts(3,4)])
    simp_all

lemma sync_block_keeps_db_ok: "keeps (\<lambda>s. db_ok X cfg (st_db s)) (sync_block_with_conn X blk bc ts)"
  unfolding db_ok_def
proof (intro keeps_conj)
  show "keeps (\<lambda>s. mint_side_ok X cfg (st_db s)) (sync_block_with_conn X blk bc ts)"
    by (rule keeps_sync_block [OF _ _ _ keeps_frame_inserts(1,2) keeps_mint_insert keeps_frame_inserts(4)])
      simp_all
  show "keeps (\<lambda>s. burn_tables_ok cfg (st_db s)) (sync_block_with_conn X blk bc ts)"
    by (rule keeps_sync_block [OF _ _ _ keeps_frame_inserts(1,2,3) keeps_burn_insert]) simp_all
qed (rule sync_block_keeps_config)

text \<open>A deposit that was just stored is in the table when it is matched.\<close>

lemma insert_and_match_keeps:
  assumes "safe \<in> set (gsc_safes cfg)" and x: "deposit_wf X x" "gsd_id x = None"
  shows "keeps (\<lambda>s. mint_side_ok X cfg (st_db s))
    (bnd (deposit_insert X x) (\<lambda>x. bnd (attempt (try_match_deposit_with_mint X x safe)) (\<lambda>_. ret ())))"
proof (rule keepsI)
  fix s :: state assume ok: "mint_side_ok X cfg (st_db s)"
  obtain r s1 where ins: "deposit_insert X x s = (r, s1)" by fastforce
  have keep: "keeps (\<lambda>s. mint_side_ok X cfg (st_db s)) (deposit_insert X x)"
    unfolding deposit_insert_def by (intro keeps_intros keeps_deposit_insert x)
  from keepsD [OF keep ok ins] have ok1: "mint_side_ok X cfg (st_db s1)" .
  show "mint_side_ok X cfg (st_db (snd (bnd (deposit_insert X x)
      (\<lambda>x. bnd (attempt (try_match_deposit_with_mint X x safe)) (\<lambda>_. ret ())) s)))"
  proof (cases r)
    case (Ok x')
    obtain r2 s2 where m: "try_match_deposit_with_mint X x' safe s1 = (r2, s2)" by fastforce
    from deposit_insert_OkD [OF ins [unfolded Ok]] have "x' \<in> set (t_gnosis_safe_deposits (st_db s1))"
      by auto
    then have "mint_tables_ok cfg (st_db s2)"
      using try_match_deposit_tables [OF _ rowid _ assms(1) m] ok1 by (simp add: mint_side_ok_def)
    moreover have "keeps (\<lambda>s. \<forall>x \<in> set (t_gnosis_safe_deposits (st_db s)). deposit_wf X x)
        (try_match_deposit_with_mint X x' safe)"
      by (rule keeps_try_match_deposit) simp_all
    from keepsD [OF this _ m] ok1 have "\<forall>x \<in> set (t_gnosis_safe_deposits (st_db s2)). deposit_wf X x"
      by (simp add: mint_side_ok_def)
    ultimately show ?thesis
      using ins Ok m by (cases r2) (simp_all add: mint_side_ok_def bnd_def attempt_def ret_def)
  qed (use ins ok1 in auto)
qed

lemma process_transfer_keeps:
  assumes "safe \<in> set (gsc_safes cfg)" and "eth_tx_hash_wf (et_tx_hash t)"
  shows "keeps (\<lambda>s. mint_side_ok X cfg (st_db s)) (process_transfer X safe tx t)"
proof -
  have inv: "keeps (\<lambda>s. mint_side_ok X cfg (st_db s)) inc_num_invalid_ethereum_transactions"
    by (rule keeps_inc(5)) simp
  show ?thesis
  proof (cases "parse_deposit X safe tx t")
    case (Ok x)
    with parse_deposit_wf [OF Ok assms(2)] insert_and_match_keeps [OF assms(1), of x] show ?thesis
      by (simp add: process_transfer_def lift_res_def attempt_def keeps_ret bnd_def [of "\<lambda>s. (Ok _, s)"]
          ret_def [of "()"]) (auto simp: keeps_def bnd_def ret_def)
  next
    case (Err e)
    then show ?thesis
      using inv by (auto simp: process_transfer_def lift_res_def attempt_def keeps_def bnd_def ret_def throw_def
          split: prod.splits res.splits)
  next
    case (Panic p)
    then show ?thesis
      by (auto simp: process_transfer_def lift_res_def attempt_def keeps_def bnd_def ret_def)
  qed
qed

lemma process_multi_sig_keeps:
  assumes "safe \<in> set (gsc_safes cfg)"
  shows "keeps (\<lambda>s. burn_tables_ok cfg (st_db s)) (process_multi_sig_transaction X safe m)"
proof -
  have match: "keeps (\<lambda>s. burn_tables_ok cfg (st_db s))
      (bnd (withdrawal_insert X w) (\<lambda>w. bnd (attempt (try_match_withdrawal_with_burn X w safe)) (\<lambda>_. ret ())))"
    if w: "gsw_id w = None" for w
  proof (rule keepsI)
    fix s :: state assume ok: "burn_tables_ok cfg (st_db s)"
    obtain r s1 where ins: "withdrawal_insert X w s = (r, s1)" by fastforce
    have keep: "keeps (\<lambda>s. burn_tables_ok cfg (st_db s)) (withdrawal_insert X w)"
      unfolding withdrawal_insert_def by (intro keeps_intros keeps_withdrawal_insert w)
    from keepsD [OF keep ok ins] have ok1: "burn_tables_ok cfg (st_db s1)" .
    show "burn_tables_ok cfg (st_db (snd (bnd (withdrawal_insert X w)
        (\<lambda>w. bnd (attempt (try_match_withdrawal_with_burn X w safe)) (\<lambda>_. ret ())) s)))"
    proof (cases r)
      case (Ok w')
      obtain r2 s2 where m: "try_match_withdrawal_with_burn X w' safe s1 = (r2, s2)" by fastforce
      from withdrawal_insert_OkD [OF ins [unfolded Ok]]
      have "w' \<in> set (t_gnosis_safe_withdrawals (st_db s1))" by auto
      then have "burn_tables_ok cfg (st_db s2)"
        using try_match_withdrawal_tables [OF ok1 rowid _ assms(1) m] by simp
      then show ?thesis
        using ins Ok m by (cases r2) (simp_all add: bnd_def attempt_def ret_def)
    qed (use ins ok1 in auto)
  qed
  have inv: "keeps (\<lambda>s. burn_tables_ok cfg (st_db s)) inc_num_invalid_multi_sig_transactions"
    by (rule keeps_inc(6)) simp
  show ?thesis
  proof (cases "parse_withdrawal_with_pub_key_multi_sig_tx X safe m")
    case (Ok w)
    with match [OF parse_withdrawal_id [OF Ok]] show ?thesis
      by (auto simp: process_multi_sig_transaction_def lift_res_def attempt_def keeps_def bnd_def ret_def)
  qed (use inv in \<open>auto simp: process_multi_sig_transaction_def lift_res_def attempt_def keeps_def bnd_def
      ret_def\<close>)
qed

text \<open>Processing one transaction of an audited safe keeps the whole invariant.\<close>

lemma process_decoded_keeps:
  assumes "safe \<in> set (gsc_safes cfg)" and "\<And>t. dec (rgt_raw tx) = Ok t \<Longrightarrow> gnosis_transaction_wf t"
  shows "keeps (\<lambda>s. db_ok X cfg (st_db s)) (process_decoded X dec safe tx)"
proof -
  have eth: "keeps (\<lambda>s. db_ok X cfg (st_db s)) (process_eth_transaction X safe etx)"
    if "dec (rgt_raw tx) = Ok (Ethereum etx)" for etx
    unfolding db_ok_def
  proof (intro keeps_conj)
    show "keeps (\<lambda>s. mint_side_ok X cfg (st_db s)) (process_eth_transaction X safe etx)"
      unfolding process_eth_transaction_def
      by (intro keeps_for_each process_transfer_keeps assms(1)) (use assms(2) [OF that] in simp)
  qed (rule keeps_process_eth; simp)+
  have multi: "keeps (\<lambda>s. db_ok X cfg (st_db s)) (process_multi_sig_transaction X safe m)" for m
    unfolding db_ok_def
  proof (intro keeps_conj)
    show "keeps (\<lambda>s. burn_tables_ok cfg (st_db s)) (process_multi_sig_transaction X safe m)"
      using assms(1) by (rule process_multi_sig_keeps)
  qed (rule keeps_process_multi_sig; simp)+
  show ?thesis by (intro keeps_process_decodedI eth multi)
qed

lemma process_transaction_keeps:
  assumes "safe \<in> set (gsc_safes cfg)" and "\<And>t. dec (rgt_raw tx) = Ok t \<Longrightarrow> gnosis_transaction_wf t"
  shows "keeps (\<lambda>s. db_ok X cfg (st_db s)) (process_transaction X js dec safe tx)"
  by (intro keeps_process_transactionI process_decoded_keeps assms) simp_all

lemma process_transactions_keeps:
  assumes "safe \<in> set (gsc_safes cfg)" and "\<And>v t. dec v = Ok t \<Longrightarrow> gnosis_transaction_wf t"
    and "keeps (\<lambda>s. db_ok X cfg (st_db s)) pool_get"
  shows "keeps (\<lambda>s. db_ok X cfg (st_db s)) (process_transactions pool_get X js dec safe txs)"
  unfolding process_transactions_def
  by (intro keeps_intros process_transaction_keeps assms)

end

end
