(* ===== verification/Main_Loop.thy ===== *)
theory Main_Loop
  imports Invariants
begin

text \<open>
  The ledger side of the program, \<open>src/bin/main.rs\<close>: opening the database, the synchronization loop
  with the audit of each block, and the command that prints a block's audit data. The ledger
  database, the watcher and \<open>chrono\<close> are parameters; the ledger may change from one iteration to
  the next. The loop is a partial function: not returning is \<open>None\<close>.

  The theorems: the loop returns, and when it succeeds every block of the ledger is synced and the
  stored balances of every block are those recomputed from the ledger's contents.
\<close>

section \<open>Operations\<close>

text \<open>\<open>ReserveAuditorDb::new_from_path\<close>: building the pool, taking a connection and running the
  migrations are parameters; the counters row is then made sure of.\<close>

definition new_from_path :: "unit dbm \<Rightarrow> unit dbm \<Rightarrow> unit dbm \<Rightarrow> unit dbm" where
  "new_from_path pool_build pool_get run_migrations =
     bnd pool_build (\<lambda>_. bnd pool_get (\<lambda>_. bnd run_migrations (\<lambda>_. ensure_exists)))"

definition parse_gnosis_safe_config ::
  "(string \<Rightarrow> (string, string) res) \<Rightarrow> (string \<Rightarrow> string option)
   \<Rightarrow> (string \<Rightarrow> (string, gnosis_safe_config) res) \<Rightarrow> (string \<Rightarrow> (string, gnosis_safe_config) res)
   \<Rightarrow> string \<Rightarrow> (error, gnosis_safe_config) res" where
  "parse_gnosis_safe_config read_to_string extension toml_from_str json_from_str path =
     map_err Gnosis (load_from_path read_to_string extension toml_from_str json_from_str path)"

definition audit_block_data :: "ext \<Rightarrow> sync_block_data \<Rightarrow> gnosis_safe_config \<Rightarrow> unit dbm" where
  "audit_block_data X sync_block_data config =
     bnd (for_each (\<lambda>mint_tx. bnd (attempt (try_match_mint_with_deposit X mint_tx config)) (\<lambda>_. ret ()))
            (sbd_mint_txs sync_block_data)) (\<lambda>_.
     for_each (\<lambda>burn_tx_out. bnd (attempt (try_match_burn_with_withdrawal X burn_tx_out config)) (\<lambda>_. ret ()))
       (sbd_burn_tx_outs sync_block_data))"

record block_data =
  bd_block :: block
  bd_contents :: block_contents

record ledger =
  ldb_num_blocks :: "(string, u64) res"
  ldb_get_block_data :: "u64 \<Rightarrow> (string, block_data) res"

text \<open>The watcher: \<open>poll_block_timestamp\<close> when there is one, and \<open>Utc.timestamp_opt\<close>.\<close>

record watcher =
  wdb_poll_block_timestamp :: "(u64 \<Rightarrow> u64) option"
  wdb_timestamp_opt :: "i64 \<Rightarrow> datetime option"

definition block_timestamp_of :: "watcher \<Rightarrow> block_data \<Rightarrow> datetime option" where
  "block_timestamp_of w block_data = Option.bind (wdb_poll_block_timestamp w) (\<lambda>poll_block_timestamp.
     wdb_timestamp_opt w (as_i64 (poll_block_timestamp (blk_index (bd_block block_data)))))"

text \<open>The exclusive transaction of one iteration, and the iteration; its result says whether the loop
  goes on.\<close>

definition sync_next ::
  "ext \<Rightarrow> gnosis_safe_config option \<Rightarrow> block_data \<Rightarrow> datetime option \<Rightarrow> unit dbm" where
  "sync_next X gnosis_safe_config block_data block_timestamp = conn_transaction (
     bnd (sync_block_with_conn X (bd_block block_data) (bd_contents block_data) block_timestamp)
       (\<lambda>sync_block_data.
     case gnosis_safe_config of None \<Rightarrow> ret ()
     | Some config \<Rightarrow> audit_block_data X sync_block_data config))"

definition sync_iteration ::
  "unit dbm \<Rightarrow> ext \<Rightarrow> gnosis_safe_config option \<Rightarrow> ledger \<Rightarrow> watcher \<Rightarrow> bool dbm" where
  "sync_iteration pool_get X gnosis_safe_config ledger_db watcher_db =
     bnd pool_get (\<lambda>_.
     bnd (lift_res (map_err LedgerDb (ldb_num_blocks ledger_db))) (\<lambda>num_blocks_in_ledger.
     bnd last_synced_block_index (\<lambda>last_index.
     let synced = (case last_index of None \<Rightarrow> 0 | Some block_index \<Rightarrow> block_index + 1) in
     if synced = num_blocks_in_ledger then ret False
     else if synced > num_blocks_in_ledger then ret False
     else
       bnd (lift_res (map_err LedgerDb (ldb_get_block_data ledger_db synced))) (\<lambda>block_data.
       bnd (sync_next X gnosis_safe_config block_data (block_timestamp_of watcher_db block_data)) (\<lambda>_.
       ret True)))))"

definition loop_result :: "(error, bool) res \<Rightarrow> (error, unit) res" where
  "loop_result r = (case r of Ok _ \<Rightarrow> Ok () | Err e \<Rightarrow> Err e | Panic p \<Rightarrow> Panic p)"

partial_function (option) loop_from ::
  "(nat \<Rightarrow> bool dbm) \<Rightarrow> nat \<Rightarrow> state \<Rightarrow> ((error, unit) res \<times> state) option" where
  "loop_from iteration n s =
     (let out = iteration n s in
      if fst out = Ok True then loop_from iteration (Suc n) (snd out)
      else Some (loop_result (fst out), snd out))"

declare loop_from.simps [code]

definition sync_loop ::
  "unit dbm \<Rightarrow> ext \<Rightarrow> gnosis_safe_config option \<Rightarrow> (nat \<Rightarrow> ledger) \<Rightarrow> watcher \<Rightarrow> state
   \<Rightarrow> ((error, unit) res \<times> state) option" where
  "sync_loop pool_get X gnosis_safe_config ledger_at watcher_db =
     loop_from (\<lambda>n. sync_iteration pool_get X gnosis_safe_config (ledger_at n) watcher_db) 0"

text \<open>\<open>cmd_get_block_audit_data\<close> after the database is open: the lines it prints. \<open>to_json\<close> is the
  JSON serialization of the audit data and balances.\<close>

definition cmd_get_block_audit_data ::
  "(block_audit_data \<Rightarrow> balance_map \<Rightarrow> (string, string) res) \<Rightarrow> u64 option \<Rightarrow> bool \<Rightarrow> string list dbm" where
  "cmd_get_block_audit_data to_json block_index_arg json =
     expect ''db transaction failed'' (transaction (
       bnd last_synced_block_index (\<lambda>last_index.
       bnd (ok_or (Other ''Failed figuring out the last block index'')
              (case block_index_arg of Some i \<Rightarrow> Some i | None \<Rightarrow> last_index)) (\<lambda>block_index.
       bnd (block_audit_data_get block_index) (\<lambda>audit_data.
       bnd (get_balances_for_block block_index) (\<lambda>balance_map.
       if json then
         bnd (lift_res (map_err (\<lambda>err. Other (''failed serializing json: '' @ err))
                (to_json audit_data balance_map))) (\<lambda>line. ret [line])
       else ret ((''Block index: '' @ show_u64 block_index)
         # map (\<lambda>(token_id, balance). ''Token '' @ show_u64 token_id @ '': '' @ show_u64 balance)
             balance_map)))))))"

section \<open>The audit of a block\<close>

lemma keeps_try_match_mint:
  assumes "inc_keeps I" and "\<And>d a. I d \<Longrightarrow> I (d\<lparr>t_audited_mints := t_audited_mints d @ [a]\<rparr>)"
  shows "keeps (\<lambda>s. I (st_db s)) (try_match_mint_with_deposit X m cfg)"
  unfolding try_match_mint_with_deposit_def match_mint_with_deposit_def match_mint_tx_def
    associate_deposit_with_mint_def insert_into_audited_mints_def
  by (intro keeps_intros keeps_sql_append keeps_inc assms)

lemma keeps_try_match_burn:
  assumes "inc_keeps I" and "\<And>d a. I d \<Longrightarrow> I (d\<lparr>t_audited_burns := t_audited_burns d @ [a]\<rparr>)"
  shows "keeps (\<lambda>s. I (st_db s)) (try_match_burn_with_withdrawal X b cfg)"
  unfolding try_match_burn_with_withdrawal_def match_burn_with_withdrawal_def match_burn_tx_out_def
    associate_withdrawal_with_burn_def insert_into_audited_burns_def
  by (intro keeps_intros keeps_sql_append keeps_inc assms)

lemma keeps_audit_block_data:
  assumes "inc_keeps I" and "\<And>d a. I d \<Longrightarrow> I (d\<lparr>t_audited_mints := t_audited_mints d @ [a]\<rparr>)"
    and "\<And>d a. I d \<Longrightarrow> I (d\<lparr>t_audited_burns := t_audited_burns d @ [a]\<rparr>)"
  shows "keeps (\<lambda>s. I (st_db s)) (audit_block_data X data cfg)"
  unfolding audit_block_data_def
  by (intro keeps_intros keeps_try_match_mint keeps_try_match_burn assms)

lemma keeps_mint_part:
  assumes "ext_laws X" and "m \<in> set ms"
  shows "keeps (\<lambda>s. db_ok X cfg (st_db s) \<and> set ms \<subseteq> set (t_mint_txs (st_db s)))
    (try_match_mint_with_deposit X m cfg)"
proof (rule keepsI)
  fix s :: state
  assume ok: "db_ok X cfg (st_db s) \<and> set ms \<subseteq> set (t_mint_txs (st_db s))"
  obtain r s' where run: "try_match_mint_with_deposit X m cfg s = (r, s')" by fastforce
  have "m \<in> set (t_mint_txs (st_db s))" using ok assms(2) by blast
  then have "mint_tables_ok cfg (st_db s')"
    using try_match_mint_tables [OF _ ext_laws.rowid [OF assms(1)] _ run] ok
    by (simp add: db_ok_def mint_side_ok_def)
  moreover have frame: "keeps (\<lambda>s. (\<forall>x \<in> set (t_gnosis_safe_deposits (st_db s)). deposit_wf X x)
      \<and> burn_tables_ok cfg (st_db s) \<and> config_tables_ok X (st_db s) \<and> set ms \<subseteq> set (t_mint_txs (st_db s)))
      (try_match_mint_with_deposit X m cfg)"
    by (rule keeps_try_match_mint) simp_all
  ultimately show "db_ok X cfg (st_db (snd (try_match_mint_with_deposit X m cfg s)))
      \<and> set ms \<subseteq> set (t_mint_txs (st_db (snd (try_match_mint_with_deposit X m cfg s))))"
    using keepsD [OF frame _ run] ok run by (simp add: db_ok_def mint_side_ok_def)
qed

lemma keeps_burn_part:
  assumes "ext_laws X" and "b \<in> set bs"
  shows "keeps (\<lambda>s. db_ok X cfg (st_db s) \<and> set bs \<subseteq> set (t_burn_tx_outs (st_db s)))
    (try_match_burn_with_withdrawal X b cfg)"
proof (rule keepsI)
  fix s :: state
  assume ok: "db_ok X cfg (st_db s) \<and> set bs \<subseteq> set (t_burn_tx_outs (st_db s))"
  obtain r s' where run: "try_match_burn_with_withdrawal X b cfg s = (r, s')" by fastforce
  have "b \<in> set (t_burn_tx_outs (st_db s))" using ok assms(2) by blast
  then have "burn_tables_ok cfg (st_db s')"
    using try_match_burn_tables [OF _ ext_laws.rowid [OF assms(1)] _ run] ok by (simp add: db_ok_def)
  moreover have frame: "keeps (\<lambda>s. mint_side_ok X cfg (st_db s) \<and> config_tables_ok X (st_db s)
      \<and> set bs \<subseteq> set (t_burn_tx_outs (st_db s))) (try_match_burn_with_withdrawal X b cfg)"
    by (rule keeps_try_match_burn) simp_all
  ultimately show "db_ok X cfg (st_db (snd (try_match_burn_with_withdrawal X b cfg s)))
      \<and> set bs \<subseteq> set (t_burn_tx_outs (st_db (snd (try_match_burn_with_withdrawal X b cfg s))))"
    using keepsD [OF frame _ run] ok run by (simp add: db_ok_def)
qed

text \<open>Auditing a block whose rows are stored keeps the invariant, and never fails.\<close>

lemma audit_block_data_keeps:
  assumes "ext_laws X" and "db_ok X cfg (st_db s)" and "set (sbd_mint_txs data) \<subseteq> set (t_mint_txs (st_db s))"
    and "set (sbd_burn_tx_outs data) \<subseteq> set (t_burn_tx_outs (st_db s))"
    and run: "audit_block_data X data cfg s = (r, s')"
  shows "db_ok X cfg (st_db s')"
proof -
  let ?ms = "sbd_mint_txs data" and ?bs = "sbd_burn_tx_outs data"
  let ?mints = "for_each (\<lambda>m. bnd (attempt (try_match_mint_with_deposit X m cfg)) (\<lambda>_. ret ())) ?ms"
  let ?burns = "for_each (\<lambda>b. bnd (attempt (try_match_burn_with_withdrawal X b cfg)) (\<lambda>_. ret ())) ?bs"
  obtain r1 s1 where mints: "?mints s = (r1, s1)" by fastforce
  have "keeps (\<lambda>s. db_ok X cfg (st_db s) \<and> set ?ms \<subseteq> set (t_mint_txs (st_db s))) ?mints"
    by (intro keeps_for_each keeps_bnd keeps_attempt keeps_ret keeps_mint_part assms(1))
  from keepsD [OF this _ mints] assms(2,3) have ok1: "db_ok X cfg (st_db s1)" by simp
  have "keeps (\<lambda>s. set ?bs \<subseteq> set (t_burn_tx_outs (st_db s))) ?mints"
    by (intro keeps_for_each keeps_bnd keeps_attempt keeps_ret keeps_try_match_mint) simp_all
  from keepsD [OF this _ mints] assms(4) have bs1: "set ?bs \<subseteq> set (t_burn_tx_outs (st_db s1))" by simp
  have "keeps (\<lambda>s. db_ok X cfg (st_db s) \<and> set ?bs \<subseteq> set (t_burn_tx_outs (st_db s))) ?burns"
    by (intro keeps_for_each keeps_bnd keeps_attempt keeps_ret keeps_burn_part assms(1))
  then have "db_ok X cfg (st_db (snd (?burns s1)))"
    using ok1 bs1 by (auto simp: keeps_def)
  with run mints ok1 show ?thesis
    by (cases r1) (auto simp: audit_block_data_def)
qed

lemma attempt_not_Err: "attempt m s \<noteq> (Err e, s')"
  by (auto simp: attempt_def split: prod.splits res.splits)

lemma for_each_attempt_not_Err:
  "for_each (\<lambda>x. bnd (attempt (f x)) (\<lambda>_. ret ())) xs s \<noteq> (Err e, s')"
  by (induction xs arbitrary: s)
    (auto simp: ret_def attempt_not_Err elim!: bnd_eq_ErrE bnd_eq_OkE)

lemma audit_block_data_not_Err: "audit_block_data X data cfg s \<noteq> (Err e, s')"
  unfolding audit_block_data_def by (auto simp: for_each_attempt_not_Err elim!: bnd_eq_ErrE)

section \<open>One iteration\<close>

text \<open>The number of synced blocks, as a property of the database.\<close>

definition chain_at :: "nat \<Rightarrow> database \<Rightarrow> bool" where
  "chain_at n d \<longleftrightarrow> chain_ok d \<and> (\<exists>c. t_counters d = [c] \<and> num_blocks_synced c = int n)"

lemma chain_at_frames [simp]:
  "chain_at n (d\<lparr>t_audited_mints := a\<rparr>) = chain_at n d" "chain_at n (d\<lparr>t_audited_burns := b\<rparr>) = chain_at n d"
  "chain_at n (d\<lparr>t_gnosis_safe_deposits := e\<rparr>) = chain_at n d"
  "chain_at n (d\<lparr>t_gnosis_safe_withdrawals := f\<rparr>) = chain_at n d"
  "chain_at n (d\<lparr>t_gnosis_safe_txs := g\<rparr>) = chain_at n d"
  by (simp_all add: chain_at_def chain_ok_def)

lemma inc_keeps_chain_at: "inc_keeps (chain_at n)"
  unfolding inc_keeps_def keeps_def
proof (intro allI impI)
  fix upd :: "(i64 \<Rightarrow> i64) \<Rightarrow> counters \<Rightarrow> counters" and s :: state
  assume "\<forall>f c. ledger_counts (upd f c) = ledger_counts c" and ok: "chain_at n (st_db s)"
  then have upd: "\<forall>f c. num_blocks_synced (upd f c) = num_blocks_synced c" by (simp add: ledger_counts_def)
  from ok obtain c where c: "t_counters (st_db s) = [c]" by (auto simp: chain_at_def)
  with ok upd show "chain_at n (st_db (snd (impl_inc upd s)))"
    by (auto simp: chain_at_def chain_ok_def)
qed

lemma chain_at_initial: "chain_at 0 (empty_database\<lparr>t_counters := [counters_default]\<rparr>)"
  by (simp add: chain_at_def chain_ok_def empty_database_def counters_default_def)

lemma chain_at_last_synced:
  assumes "chain_at n (st_db s)"
  shows "last_synced_block_index s = (Ok (if n = 0 then None else Some (as_u64 (int (n - 1)))), s)"
proof (cases n)
  case 0
  then show ?thesis using assms
    by (auto simp: chain_at_def chain_ok_def last_synced_block_index_def max_option_def)
next
  case (Suc k)
  with assms obtain c where "t_counters (st_db s) = [c]" "num_blocks_synced c = int n"
    by (auto simp: chain_at_def)
  with last_synced_chain [of "st_db s" c] assms Suc show ?thesis
    by (simp add: chain_at_def last_synced_block_index_def)
qed

text \<open>The balances recomputed from the contents of the ledger's blocks.\<close>

primrec ledger_balances ::
  "ext \<Rightarrow> (nat \<Rightarrow> block_contents) \<Rightarrow> (nat \<Rightarrow> datetime option) \<Rightarrow> nat \<Rightarrow> (token_id \<Rightarrow> u64)" where
  "ledger_balances X bc ts 0 = (\<lambda>_. 0)"
| "ledger_balances X bc ts (Suc k) = block_effect X (of_nat k) (ts k) (bc k) (ledger_balances X bc ts k)"

definition history_ok ::
  "ext \<Rightarrow> (nat \<Rightarrow> block_contents) \<Rightarrow> (nat \<Rightarrow> datetime option) \<Rightarrow> nat \<Rightarrow> database \<Rightarrow> bool" where
  "history_ok X bc ts n d \<longleftrightarrow> (\<forall>k < n. balances_at d (of_nat k) = ledger_balances X bc ts (Suc k))"

lemma as_u64_int [simp]: "as_u64 (int n) = of_nat n"
  by (simp add: as_u64_def)

lemma unat_of_nat_u64: "n < 2 ^ 63 \<Longrightarrow> unat (of_nat n :: u64) = n"
  by (simp add: unat_of_nat)

lemma of_nat_u64_inject: "m < 2 ^ 63 \<Longrightarrow> n < 2 ^ 63 \<Longrightarrow> (of_nat m :: u64) = of_nat n \<longleftrightarrow> m = n"
  by (metis unat_of_nat_u64)

lemma balances_at_frames [simp]:
  "balances_at (d\<lparr>t_audited_mints := a\<rparr>) j = balances_at d j"
  "balances_at (d\<lparr>t_audited_burns := b\<rparr>) j = balances_at d j"
  "balances_at (d\<lparr>t_counters := c\<rparr>) j = balances_at d j"
  by (simp_all add: balances_at_def block_rows_def)

lemma sync_next_OkE:
  assumes "sync_next X gcfg bd ts s = (Ok u, s')"
  obtains data s1 where "sync_block_with_conn X (bd_block bd) (bd_contents bd) ts s = (Ok data, s1)"
    and "(case gcfg of None \<Rightarrow> ret () | Some config \<Rightarrow> audit_block_data X data config) s1 = (Ok (), s')"
  using assms unfolding sync_next_def by (auto simp: conn_transaction_Ok elim!: bnd_eq_OkE)

lemma keeps_audit_option:
  assumes "inc_keeps I" and "\<And>d a. I d \<Longrightarrow> I (d\<lparr>t_audited_mints := t_audited_mints d @ [a]\<rparr>)"
    and "\<And>d a. I d \<Longrightarrow> I (d\<lparr>t_audited_burns := t_audited_burns d @ [a]\<rparr>)"
  shows "keeps (\<lambda>s. I (st_db s)) (case gcfg of None \<Rightarrow> ret () | Some config \<Rightarrow> audit_block_data X data config)"
  by (intro keeps_intros keeps_audit_block_data assms)

lemma sync_next_chain:
  assumes X: "ext_laws X" and "chain_at n (st_db s)" and n: "n < 2 ^ 63" and "config_tables_ok X (st_db s)"
    and "sync_next X gcfg bd ts s = (Ok u, s')"
  shows "blk_index (bd_block bd) = of_nat n \<and> chain_at (Suc n) (st_db s') \<and> config_tables_ok X (st_db s')
    \<and> balances_at (st_db s') (of_nat n) = block_effect X (of_nat n) ts (bd_contents bd)
         (balances_before (st_db s) (of_nat n))
    \<and> (\<forall>j. j \<noteq> of_nat n \<longrightarrow> balances_at (st_db s') j = balances_at (st_db s) j)"
proof -
  obtain data s1 where sync: "sync_block_with_conn X (bd_block bd) (bd_contents bd) ts s = (Ok data, s1)"
    and audit: "(case gcfg of None \<Rightarrow> ret () | Some config \<Rightarrow> audit_block_data X data config) s1 = (Ok (), s')"
    using assms(5) by (rule sync_next_OkE)
  obtain c where c: "t_counters (st_db s) = [c]" "num_blocks_synced c = int n" and ok: "chain_ok (st_db s)"
    using assms(2) by (auto simp: chain_at_def)
  have bound: "num_blocks_synced c < 2 ^ 63"
    using n c(2) by (metis of_nat_less_iff of_nat_numeral of_nat_power)
  have ids: "ids_ok mc_id (t_mint_configs (st_db s))" using assms(4) by (simp add: config_tables_ok_def)
  note step = sync_block_chain [OF ok c(1) bound ids ext_laws.rowid [OF X] sync]
    sync_block_account [OF ok c(1) bound ids ext_laws.rowid [OF X] sync]
  have idx: "blk_index (bd_block bd) = of_nat n"
    using step(1) c(2) by (metis as_u64_as_i64 as_u64_int)
  obtain c' where "t_counters (st_db s1) = [c']" "num_blocks_synced c' = num_blocks_synced c + 1"
    using step(1) by blast
  then have chain1: "chain_at (Suc n) (st_db s1)"
    using step(1) c(2) by (auto simp: chain_at_def)
  have conf1: "config_tables_ok X (st_db s1)"
    using keepsD [OF ext_laws.sync_block_keeps_config [OF X] assms(4) sync] .
  have "chain_at (Suc n) (st_db s')"
    by (rule keepsD [OF keeps_audit_option [where I = "chain_at (Suc n)"] chain1 audit])
      (simp_all add: inc_keeps_chain_at)
  moreover have "config_tables_ok X (st_db s')"
    by (rule keepsD [OF keeps_audit_option [where I = "config_tables_ok X"] conf1 audit]) simp_all
  moreover have "balances_at (st_db s') = balances_at (st_db s1)"
    by (rule keepsD [OF keeps_audit_option [where I = "\<lambda>d. balances_at d = balances_at (st_db s1)"] refl audit])
      (simp_all add: fun_eq_iff)
  ultimately show ?thesis using step(2) idx by simp
qed

section \<open>The loop\<close>

lemma iteration_done:
  assumes "chain_at N (st_db s)" and "ldb_num_blocks ledger = Ok (of_nat N)" and "N < 2 ^ 63"
  shows "sync_iteration (ret ()) X gcfg ledger w s = (Ok False, s)"
  using assms chain_at_last_synced [OF assms(1)]
  by (cases N) (simp_all add: sync_iteration_def lift_res_def ret_def Let_def)

lemma iteration_next:
  assumes "chain_at n (st_db s)" and "ldb_num_blocks ledger = Ok (of_nat N)" and "N < 2 ^ 63" and "n < N"
  shows "sync_iteration (ret ()) X gcfg ledger w s =
    (case ldb_get_block_data ledger (of_nat n) of
       Ok bd \<Rightarrow> bnd (sync_next X gcfg bd (block_timestamp_of w bd)) (\<lambda>_. ret True) s
     | Err e \<Rightarrow> (Err (LedgerDb e), s) | Panic p \<Rightarrow> (Panic p, s))"
proof -
  have synced: "(case (if n = 0 then None else Some (as_u64 (int (n - 1)))) of
      None \<Rightarrow> 0 | Some i \<Rightarrow> i + 1) = (of_nat n :: u64)"
    by (cases n) simp_all
  have n: "n < 2 ^ 63" using assms(3,4) by simp
  then have "(of_nat n :: u64) \<noteq> of_nat N" "\<not> (of_nat n :: u64) > of_nat N"
    using assms(3,4) by (simp_all add: of_nat_u64_inject word_less_nat_alt unat_of_nat_u64)
  then show ?thesis
    using assms(2) chain_at_last_synced [OF assms(1)] synced
    by (simp add: sync_iteration_def lift_res_def ret_def Let_def bnd_def split: res.split)
qed

text \<open>The blocks of a ledger that has \<open>N\<close> of them.\<close>

definition ledger_has :: "ledger \<Rightarrow> watcher \<Rightarrow> nat \<Rightarrow> (nat \<Rightarrow> block_contents) \<Rightarrow> (nat \<Rightarrow> datetime option) \<Rightarrow> bool" where
  "ledger_has ledger w N bc ts \<longleftrightarrow> ldb_num_blocks ledger = Ok (of_nat N) \<and> N < 2 ^ 63
     \<and> (\<forall>k < N. \<forall>bd. ldb_get_block_data ledger (of_nat k) = Ok bd \<longrightarrow>
          bd_contents bd = bc k \<and> block_timestamp_of w bd = ts k)"

lemma history_ok_next:
  assumes "history_ok X bc ts n d" and "n < 2 ^ 63"
    and "balances_at d' (of_nat n) = block_effect X (of_nat n) (ts n) (bc n) (balances_before d (of_nat n))"
    and "\<forall>j. j \<noteq> of_nat n \<longrightarrow> balances_at d' j = balances_at d j"
  shows "history_ok X bc ts (Suc n) d'"
proof -
  have before: "balances_before d (of_nat n) = ledger_balances X bc ts n"
  proof (cases n)
    case (Suc m)
    then have "(of_nat n :: u64) \<noteq> 0" using assms(2) of_nat_u64_inject [of n 0] by simp
    with Suc assms(1) show ?thesis by (simp add: balances_before_def history_ok_def)
  qed (simp add: balances_before_def)
  show ?thesis
    unfolding history_ok_def
  proof (intro allI impI)
    fix k assume "k < Suc n"
    then consider "k = n" | "k < n" by linarith
    then show "balances_at d' (of_nat k) = ledger_balances X bc ts (Suc k)"
    proof cases
      case 1
      with assms(3) before show ?thesis by simp
    next
      case 2
      then have "(of_nat k :: u64) \<noteq> of_nat n" using assms(2) by (simp add: of_nat_u64_inject)
      with 2 assms(1,4) show ?thesis by (simp add: history_ok_def)
    qed
  qed
qed

lemma loop_from_returns:
  assumes X: "ext_laws X" and "ledger_has ledger w N bc ts"
    and "n \<le> N" and "chain_at n (st_db s)" and "config_tables_ok X (st_db s)" and "history_ok X bc ts n (st_db s)"
  shows "\<exists>r s'. loop_from (\<lambda>_. sync_iteration (ret ()) X gcfg ledger w) k s = Some (r, s')
    \<and> (r = Ok () \<longrightarrow> chain_at N (st_db s') \<and> history_ok X bc ts N (st_db s'))"
  using assms(3-6)
proof (induction "N - n" arbitrary: n s k)
  case 0
  then have "n = N" by simp
  with 0 assms(2) have "sync_iteration (ret ()) X gcfg ledger w s = (Ok False, s)"
    by (intro iteration_done) (auto simp: ledger_has_def)
  with 0 \<open>n = N\<close> show ?case by (subst loop_from.simps) (simp add: loop_result_def)
next
  case (Suc m)
  then have n: "n < N" by simp
  note it = iteration_next [of n s ledger N X gcfg w]
  show ?case
  proof (cases "ldb_get_block_data ledger (of_nat n)")
    case (Ok bd)
    have bd: "bd_contents bd = bc n" "block_timestamp_of w bd = ts n" and small: "n < 2 ^ 63"
      using assms(2) Ok n by (auto simp: ledger_has_def)
    obtain r1 s1 where run: "sync_next X gcfg bd (ts n) s = (r1, s1)" by fastforce
    show ?thesis
    proof (cases r1)
      case r1: (Ok u)
      from sync_next_chain [OF X Suc.prems(2) small Suc.prems(3) run [unfolded r1]]
      have chain: "chain_at (Suc n) (st_db s1)" and conf: "config_tables_ok X (st_db s1)"
        and b: "balances_at (st_db s1) (of_nat n) = block_effect X (of_nat n) (ts n) (bc n)
           (balances_before (st_db s) (of_nat n))"
        "\<forall>j. j \<noteq> of_nat n \<longrightarrow> balances_at (st_db s1) j = balances_at (st_db s) j"
        using bd by auto
      have hist: "history_ok X bc ts (Suc n) (st_db s1)"
        by (rule history_ok_next [OF Suc.prems(4) small b])
      have "sync_iteration (ret ()) X gcfg ledger w s = (Ok True, s1)"
        using it Suc.prems(2) assms(2) n Ok bd run r1 by (simp add: ledger_has_def bnd_def ret_def)
      moreover have "m = N - Suc n" and "Suc n \<le> N" using Suc.hyps(2) n by simp_all
      note Suc.hyps(1) [OF this chain conf hist, of "Suc k"]
      ultimately show ?thesis by (subst loop_from.simps) simp
    qed (use it Suc.prems(2) assms(2) n Ok bd run in
        \<open>subst loop_from.simps; simp add: ledger_has_def bnd_def loop_result_def\<close>)+
  qed (use it Suc.prems(2) assms(2) n in \<open>subst loop_from.simps; simp add: ledger_has_def loop_result_def\<close>)+
qed

text \<open>C14: the synchronization loop returns, whatever the blocks contain: it never runs forever on a
  ledger of \<open>N\<close> blocks. When it returns success, exactly the \<open>N\<close> blocks are synced, and the balances
  stored for every block are the ones recomputed from the ledger's contents from the first block
  on; the Gnosis audit running inside the same transactions does not disturb them.\<close>

theorem sync_loop_returns:
  assumes "ext_laws X" and "ledger_has ledger w N bc ts" and "chain_at n (st_db s)" and "n \<le> N"
    and "config_tables_ok X (st_db s)" and "history_ok X bc ts n (st_db s)"
  shows "\<exists>r s'. sync_loop (ret ()) X gcfg (\<lambda>_. ledger) w s = Some (r, s')
    \<and> (r = Ok () \<longrightarrow> last_synced_block_index s' = (Ok (if N = 0 then None else Some (of_nat (N - 1))), s')
         \<and> (\<forall>k < N. balances_at (st_db s') (of_nat k) = ledger_balances X bc ts (Suc k)))"
proof -
  obtain r s' where run: "loop_from (\<lambda>_. sync_iteration (ret ()) X gcfg ledger w) 0 s = Some (r, s')"
    and ok: "r = Ok () \<longrightarrow> chain_at N (st_db s') \<and> history_ok X bc ts N (st_db s')"
    using loop_from_returns [OF assms(1,2,4,3,5,6)] by blast
  have "last_synced_block_index s' = (Ok (if N = 0 then None else Some (of_nat (N - 1))), s')
      \<and> (\<forall>k < N. balances_at (st_db s') (of_nat k) = ledger_balances X bc ts (Suc k))" if "r = Ok ()"
    using ok that chain_at_last_synced [of N s', unfolded as_u64_int] by (auto simp: history_ok_def)
  with run show ?thesis unfolding sync_loop_def by blast
qed

text \<open>An iteration is atomic: if the next block cannot be stored, the database is as before and the
  block will be tried again; a Gnosis audit that fails to match never makes it fail.\<close>

lemma sync_next_atomic:
  "case sync_next X gcfg bd ts s of
     (Ok u, s') \<Rightarrow> (\<exists>data s1. sync_block_with_conn X (bd_block bd) (bd_contents bd) ts s = (Ok data, s1)
        \<and> (case gcfg of None \<Rightarrow> s' = s1 | Some config \<Rightarrow> audit_block_data X data config s1 = (Ok (), s')))
   | (Err e, s') \<Rightarrow> st_db s' = st_db s
        \<and> (\<exists>s1. sync_block_with_conn X (bd_block bd) (bd_contents bd) ts s = (Err e, s1))
   | (Panic p, s') \<Rightarrow> st_db s' = st_db s"
proof -
  obtain r s' where run: "sync_next X gcfg bd ts s = (r, s')" by fastforce
  show ?thesis
  proof (cases r)
    case (Ok u)
    with run show ?thesis
      by (auto elim!: sync_next_OkE simp: ret_def split: option.splits)
  next
    case (Err e)
    with run obtain t where t: "bnd (sync_block_with_conn X (bd_block bd) (bd_contents bd) ts) (\<lambda>data.
        case gcfg of None \<Rightarrow> ret () | Some config \<Rightarrow> audit_block_data X data config) s = (Err e, t)"
      and s': "s' = rollback s t"
      by (auto simp: sync_next_def conn_transaction_Err)
    from t have "\<exists>s1. sync_block_with_conn X (bd_block bd) (bd_contents bd) ts s = (Err e, s1)"
      by (auto elim!: bnd_eq_ErrE simp: ret_def audit_block_data_not_Err split: option.splits)
    with run Err s' show ?thesis by simp
  next
    case (Panic p)
    with run have "st_db s' = st_db s" by (auto simp: sync_next_def conn_transaction_Panic)
    with run Panic show ?thesis by simp
  qed
qed

end
