(* ===== verification/Ext_Ref.thy ===== *)
theory Ext_Ref
  imports Main_Loop
begin

text \<open>
  An executable instance of the code outside the repository, \<open>ext_ref\<close>, with the proof that it
  satisfies \<open>ext_laws\<close>, and the concrete data the examples of the development evaluate: a safe that
  audits one token, a deposit with the mint it funds, a burn with the withdrawal it allows. The
  message encodings are a simple self-delimiting format (the crate uses protobuf): every encoder
  comes with the law that the decoder reads its output back and leaves the rest of the input.
\<close>

section \<open>A self-delimiting encoding\<close>

type_synonym 'a reader = "bytes \<Rightarrow> ('a \<times> bytes) option"

definition put_u64 :: "u64 \<Rightarrow> bytes" where
  "put_u64 w = map (\<lambda>n. if bit w n then 1 else 0) [0..<64]"

definition get_u64 :: "u64 reader" where
  "get_u64 bs = (if length bs < 64 then None
     else Some (horner_sum of_bool 2 (map (\<lambda>b. b = 1) (take 64 bs)), drop 64 bs))"

primrec put_bytes :: "bytes \<Rightarrow> bytes" where
  "put_bytes [] = [0]"
| "put_bytes (b # bs) = 1 # b # put_bytes bs"

fun get_bytes :: "bytes reader" where
  "get_bytes (t # b # bs) = (if t = 0 then Some ([], b # bs)
     else case get_bytes bs of None \<Rightarrow> None | Some (r, rest) \<Rightarrow> Some (b # r, rest))"
| "get_bytes [t] = (if t = 0 then Some ([], []) else None)"
| "get_bytes [] = None"

definition put_config :: "core_mint_config \<Rightarrow> bytes" where
  "put_config c = put_u64 (cmc_token_id c) @ put_u64 (cmc_mint_limit c) @ put_bytes (cmc_signer_set c)"

definition get_config :: "core_mint_config reader" where
  "get_config bs =
     Option.bind (get_u64 bs) (\<lambda>(t, bs).
     Option.bind (get_u64 bs) (\<lambda>(l, bs).
     Option.bind (get_bytes bs) (\<lambda>(s, bs).
     Some (\<lparr>cmc_token_id = t, cmc_signer_set = s, cmc_mint_limit = l\<rparr>, bs))))"

primrec put_configs :: "core_mint_config list \<Rightarrow> bytes" where
  "put_configs [] = [0]"
| "put_configs (c # cs) = 1 # put_config c @ put_configs cs"

text \<open>Reading a list of configs: \<open>fuel\<close> bounds the number of elements; the input's length is always
  enough.\<close>

primrec get_configs :: "nat \<Rightarrow> core_mint_config list reader" where
  "get_configs 0 bs = None"
| "get_configs (Suc fuel) bs = (case bs of [] \<Rightarrow> None
     | t # bs \<Rightarrow> if t = 0 then Some ([], bs)
       else Option.bind (get_config bs) (\<lambda>(c, bs).
            Option.bind (get_configs fuel bs) (\<lambda>(cs, bs). Some (c # cs, bs))))"

definition put_config_tx :: "core_mint_config_tx \<Rightarrow> bytes" where
  "put_config_tx t = put_u64 (cmct_token_id t) @ put_u64 (cmct_total_mint_limit t)
     @ put_u64 (cmct_tombstone_block t) @ put_bytes (cmct_nonce t) @ put_bytes (cmct_rest t)
     @ put_configs (cmct_configs t)"

definition get_config_tx :: "core_mint_config_tx reader" where
  "get_config_tx bs =
     Option.bind (get_u64 bs) (\<lambda>(tok, bs).
     Option.bind (get_u64 bs) (\<lambda>(lim, bs).
     Option.bind (get_u64 bs) (\<lambda>(tomb, bs).
     Option.bind (get_bytes bs) (\<lambda>(nonce, bs).
     Option.bind (get_bytes bs) (\<lambda>(r, bs).
     Option.bind (get_configs (Suc (length bs)) bs) (\<lambda>(cs, bs).
     Some (\<lparr>cmct_token_id = tok, cmct_configs = cs, cmct_nonce = nonce, cmct_total_mint_limit = lim,
       cmct_tombstone_block = tomb, cmct_rest = r\<rparr>, bs)))))))"

definition run_reader :: "'a reader \<Rightarrow> bytes \<Rightarrow> (string, 'a) res" where
  "run_reader get bs = (case get bs of Some (x, []) \<Rightarrow> Ok x | _ \<Rightarrow> Err ''failed to decode'')"

lemma get_put_u64 [simp]: "get_u64 (put_u64 w @ rest) = Some (w, rest)"
proof -
  have bits: "map (\<lambda>b. b = (1 :: u8)) (put_u64 w) = map (bit w) [0..<64]"
    by (simp add: put_u64_def)
  have len: "length (put_u64 w) = 64" by (simp add: put_u64_def)
  have "take_bit 64 w = w"
    using take_bit_length_eq [of w] by simp
  then have "horner_sum of_bool 2 (map (\<lambda>b. b = 1) (put_u64 w)) = w"
    by (simp only: bits horner_sum_bit_eq_take_bit)
  with len show ?thesis by (simp add: get_u64_def)
qed

lemma get_put_bytes [simp]: "get_bytes (put_bytes bs @ rest) = Some (bs, rest)"
  by (induction bs) (cases rest; simp)+

lemma get_put_config [simp]: "get_config (put_config c @ rest) = Some (c, rest)"
  by (simp add: get_config_def put_config_def)

lemma get_put_configs [simp]:
  "length cs < fuel \<Longrightarrow> get_configs fuel (put_configs cs @ rest) = Some (cs, rest)"
  by (induction cs arbitrary: fuel) (case_tac fuel; simp)+

lemma length_put_configs: "length cs < length (put_configs cs)"
  by (induction cs) auto

lemma get_put_config_tx: "get_config_tx (put_config_tx t @ rest) = Some (t, rest)"
proof -
  have "length (cmct_configs t) < Suc (length (put_configs (cmct_configs t) @ rest))"
    using length_put_configs [of "cmct_configs t"] by simp
  from get_put_configs [OF this, of rest] show ?thesis
    by (simp add: get_config_tx_def put_config_tx_def del: get_configs.simps)
qed

lemma run_reader_codec:
  assumes "\<And>x rest. get (put x @ rest) = Some (x, rest)"
  shows "msg_codec put (run_reader get)"
  using assms [of _ "[]"] by unfold_locales (simp add: run_reader_def)

section \<open>The instance\<close>

text \<open>Signatures verify when they equal the signer set; an output is a burn when its payload has two
  bytes, the value and the token.\<close>

definition ext_ref :: ext where
  "ext_ref = \<lparr>hex_encode = hex_encode_ref, hex_decode = hex_decode_ref, new_rowid = rowid_ref,
     encode_mint_config = put_config, decode_mint_config = run_reader get_config,
     encode_mint_config_tx = put_config_tx, decode_mint_config_tx = run_reader get_config_tx,
     encode_mint_tx = (\<lambda>tx. put_bytes (cmt_signature tx)), decode_mint_tx = (\<lambda>_. Err ''not available''),
     encode_tx_out = (\<lambda>out. put_bytes (to_public_key out) @ put_bytes (to_rest out)),
     decode_tx_out = (\<lambda>_. Err ''not available''),
     prefix_hash = mtp_nonce,
     signer_set_verify = (\<lambda>signers message sig. if sig = signers then Ok [signers] else Err ''bad signature''),
     view_key_match_burn = (\<lambda>out. case to_rest out of [v, t] \<Rightarrow>
         Ok \<lparr>amt_value = ucast v, amt_token_id = ucast t\<rparr> | _ \<Rightarrow> Err ''not a burn''),
     b58_address = (\<lambda>spend view. Ok ''address''),
     ristretto_public = Ok, burn_shared_secret = id, decrypt_memo = (\<lambda>out k. to_rest out),
     memo_type_of = (\<lambda>m. Ok OtherMemo), memo_data = id\<rparr>"

lemma ext_ref_hex [simp]: "hex_encode ext_ref = hex_encode_ref" "hex_decode ext_ref = hex_decode_ref"
  "new_rowid ext_ref = rowid_ref"
  by (simp_all add: ext_ref_def)

interpretation ref: ext_laws ext_ref
proof
  fix ids :: "i32 list"
  assume "\<forall>i \<in> set ids. 0 < i"
  then show "new_rowid ext_ref ids \<notin> set ids" and "0 < new_rowid ext_ref ids"
    using rowid_ref.new_fresh rowid_ref.new_pos by auto
next
  show "decode_mint_config ext_ref (encode_mint_config ext_ref x) = Ok x" for x
    using msg_codec.dec_enc [OF run_reader_codec [OF get_put_config]] by (simp add: ext_ref_def)
  show "decode_mint_config_tx ext_ref (encode_mint_config_tx ext_ref x) = Ok x" for x
    using msg_codec.dec_enc [OF run_reader_codec [OF get_put_config_tx]] by (simp add: ext_ref_def)
qed (use hex_ref.dec_enc hex_ref.enc_dec hex_ref.length_enc in auto)

end
