(* ===== verification/Fetcher.thy ===== *)
theory Fetcher
  imports Gnosis_Sync
begin

text \<open>
  Fetching the transactions of a safe, \<open>src/gnosis/fetcher.rs\<close>, and the thread that polls,
  \<open>src/gnosis/sync_thread.rs\<close>. The HTTP client is a parameter that may answer every request
  differently: \<open>http_get n url\<close> is its answer to request number \<open>n\<close>. URL joining is a parameter as
  well. The two loops are partial functions: not returning is \<open>None\<close>.

  The theorems: exactly the transactions of all pages are returned, in order, and only when the last
  page was reached; a service whose next links lead in a cycle is polled forever; the thread
  returns once it sees the stop flag.
\<close>

section \<open>Fetching\<close>

type_synonym url = string

record all_transactions_response =
  atr_count :: u64
  atr_next :: "url option"
  atr_previous :: "url option"
  atr_results :: "json list"

text \<open>A response of the service: status code and its text, and the body decoded as
  \<open>AllTransactionsResponse\<close>.\<close>

record http_response =
  hr_status :: nat
  hr_status_text :: string
  hr_json :: "(string, all_transactions_response) res"

record gnosis_safe_fetcher =
  gsf_base_url :: url

definition ends_with_slash :: "string \<Rightarrow> bool" where
  "ends_with_slash s \<longleftrightarrow> s \<noteq> [] \<and> last s = CHR ''/''"

definition fetcher_new ::
  "(url \<Rightarrow> string) \<Rightarrow> (url \<Rightarrow> string \<Rightarrow> (string, url) res) \<Rightarrow> (string, unit) res \<Rightarrow> url
   \<Rightarrow> (gnosis_error, gnosis_safe_fetcher) res" where
  "fetcher_new url_path url_join client_build base_url =
     rbind (if \<not> ends_with_slash (url_path base_url)
            then map_err UrlParse (url_join base_url (url_path base_url @ ''/'')) else Ok base_url) (\<lambda>base_url.
     rbind (map_err (\<lambda>e. GnosisOther (''Failed to create reqwest client: '' @ e)) client_build) (\<lambda>_.
     Ok \<lparr>gsf_base_url = base_url\<rparr>))"

definition get_all_transaction_data_from_url ::
  "(url \<Rightarrow> (string, http_response) res) \<Rightarrow> url \<Rightarrow> (gnosis_error, all_transactions_response) res" where
  "get_all_transaction_data_from_url http_get url =
     rbind (map_err (\<lambda>err. GnosisOther (''Failed to fetch '' @ [CHR 0x27] @ url @ [CHR 0x27] @ '': '' @ err))
              (http_get url)) (\<lambda>response.
     if hr_status response \<noteq> 200 then
       Err (GnosisOther (''Failed to fetch '' @ [CHR 0x27] @ url @ [CHR 0x27] @ '': Expected status 200, got ''
         @ hr_status_text response))
     else map_err (\<lambda>err. ApiResultParse (''Failed parsing JSON from '' @ [CHR 0x27] @ url @ [CHR 0x27] @ '': '' @ err))
       (hr_json response))"

definition raw_from_value :: "json \<Rightarrow> raw_gnosis_transaction" where
  "raw_from_value raw = \<lparr>rgt_raw = raw\<rparr>"

text \<open>What the loop returns when a page cannot be read.\<close>

definition page_error ::
  "(gnosis_error, all_transactions_response) res \<Rightarrow> (gnosis_error, raw_gnosis_transaction list) res" where
  "page_error r = (case r of Err e \<Rightarrow> Err e | Panic p \<Rightarrow> Panic p | Ok _ \<Rightarrow> Ok [])"

partial_function (option) fetch_loop ::
  "(nat \<Rightarrow> url \<Rightarrow> (string, http_response) res) \<Rightarrow> nat \<Rightarrow> url \<Rightarrow> raw_gnosis_transaction list
   \<Rightarrow> (gnosis_error, raw_gnosis_transaction list) res option" where
  "fetch_loop http_get n url raw_transactions =
     (let page = get_all_transaction_data_from_url (http_get n) url in
      case res_ok page of
        None \<Rightarrow> Some (page_error page)
      | Some response \<Rightarrow>
          (case atr_next response of
             Some next_url \<Rightarrow> fetch_loop http_get (Suc n) next_url
               (raw_transactions @ map raw_from_value (atr_results response))
           | None \<Rightarrow> Some (Ok (raw_transactions @ map raw_from_value (atr_results response)))))"

declare fetch_loop.simps [code]

definition all_transactions_path :: "eth_addr \<Rightarrow> string" where
  "all_transactions_path safe_addr = ''api/v1/safes/'' @ eth_addr_str safe_addr
     @ ''/all-transactions/?executed=true&queued=false&trusted=true''"

definition get_all_transaction_data ::
  "(url \<Rightarrow> string \<Rightarrow> (string, url) res) \<Rightarrow> (nat \<Rightarrow> url \<Rightarrow> (string, http_response) res) \<Rightarrow> gnosis_safe_fetcher
   \<Rightarrow> eth_addr \<Rightarrow> (gnosis_error, raw_gnosis_transaction list) res option" where
  "get_all_transaction_data url_join http_get self safe_addr =
     (case map_err UrlParse (url_join (gsf_base_url self) (all_transactions_path safe_addr)) of
        Ok url \<Rightarrow> fetch_loop http_get 0 url []
      | Err e \<Rightarrow> Some (Err e)
      | Panic p \<Rightarrow> Some (Panic p))"

section \<open>Polling\<close>

text \<open>\<open>GnosisSync\<close>: the fetcher and the safe; the database handle and the logger are left out.\<close>

record gnosis_sync =
  gs_fetcher :: gnosis_safe_fetcher
  gs_audited_safe :: audited_safe_config

definition gnosis_sync_new ::
  "(url \<Rightarrow> string) \<Rightarrow> (url \<Rightarrow> string \<Rightarrow> (string, url) res) \<Rightarrow> (string, unit) res \<Rightarrow> audited_safe_config
   \<Rightarrow> (gnosis_error, gnosis_sync) res" where
  "gnosis_sync_new url_path url_join client_build audited_safe =
     rbind (fetcher_new url_path url_join client_build (asc_api_url audited_safe)) (\<lambda>fetcher.
     Ok \<lparr>gs_fetcher = fetcher, gs_audited_safe = audited_safe\<rparr>)"

text \<open>The thread: \<open>stop_requested n\<close> is what the \<open>n\<close>-th read of the flag sees, \<open>poll_once n\<close> is the
  \<open>n\<close>-th poll, which may not return. A panic ends the thread.\<close>

partial_function (option) poll_loop ::
  "(nat \<Rightarrow> bool) \<Rightarrow> (nat \<Rightarrow> state \<Rightarrow> ((error, unit) res \<times> state) option) \<Rightarrow> nat \<Rightarrow> nat \<Rightarrow> state
   \<Rightarrow> ((error, unit) res \<times> state) option" where
  "poll_loop stop_requested poll_once poll_interval n s =
     (if stop_requested n then Some (Ok (), s)
      else case poll_once n s of
        None \<Rightarrow> None
      | Some out \<Rightarrow> if fst out = Ok ()
          then poll_loop stop_requested poll_once poll_interval (Suc n) (sleep poll_interval (snd out))
          else Some out)"

declare poll_loop.simps [code]

text \<open>One poll: fetch, then process. \<open>http_get n\<close> is the client during the \<open>n\<close>-th poll.\<close>

definition poll_with ::
  "unit dbm \<Rightarrow> ext \<Rightarrow> (json \<Rightarrow> string) \<Rightarrow> (json \<Rightarrow> (string, gnosis_transaction) res)
   \<Rightarrow> (url \<Rightarrow> string \<Rightarrow> (string, url) res) \<Rightarrow> (nat \<Rightarrow> url \<Rightarrow> (string, http_response) res)
   \<Rightarrow> gnosis_sync \<Rightarrow> state \<Rightarrow> ((error, unit) res \<times> state) option" where
  "poll_with pool_get X json_to_string decode_value url_join http_get self s =
     map_option (\<lambda>fetched. poll pool_get X json_to_string decode_value (gs_audited_safe self) fetched s)
       (get_all_transaction_data url_join http_get (gs_fetcher self) (asc_safe_addr (gs_audited_safe self)))"

definition thread_entry_point ::
  "unit dbm \<Rightarrow> ext \<Rightarrow> (json \<Rightarrow> string) \<Rightarrow> (json \<Rightarrow> (string, gnosis_transaction) res)
   \<Rightarrow> (url \<Rightarrow> string) \<Rightarrow> (url \<Rightarrow> string \<Rightarrow> (string, url) res) \<Rightarrow> (string, unit) res
   \<Rightarrow> (nat \<Rightarrow> nat \<Rightarrow> url \<Rightarrow> (string, http_response) res) \<Rightarrow> (nat \<Rightarrow> bool) \<Rightarrow> audited_safe_config \<Rightarrow> nat
   \<Rightarrow> state \<Rightarrow> ((error, unit) res \<times> state) option" where
  "thread_entry_point pool_get X json_to_string decode_value url_path url_join client_build http_get
     stop_requested audited_safe poll_interval s =
     (case gnosis_sync_new url_path url_join client_build audited_safe of
        Ok sync \<Rightarrow> poll_loop stop_requested
          (\<lambda>n. poll_with pool_get X json_to_string decode_value url_join (http_get n) sync) poll_interval 0 s
      | Err e \<Rightarrow> Some (Panic ''Failed creating sync object'', s)
      | Panic p \<Rightarrow> Some (Panic p, s))"

section \<open>All pages\<close>

text \<open>The pages the service answers with from a URL on: each but the last names the next URL.\<close>

fun serves :: "(nat \<Rightarrow> url \<Rightarrow> (string, http_response) res) \<Rightarrow> nat \<Rightarrow> url \<Rightarrow> all_transactions_response list \<Rightarrow> bool"
  where
  "serves http_get n url [] = False"
| "serves http_get n url [p] \<longleftrightarrow>
     get_all_transaction_data_from_url (http_get n) url = Ok p \<and> atr_next p = None"
| "serves http_get n url (p # q # ps) \<longleftrightarrow>
     get_all_transaction_data_from_url (http_get n) url = Ok p
     \<and> (case atr_next p of None \<Rightarrow> False | Some u \<Rightarrow> serves http_get (Suc n) u (q # ps))"

definition page_transactions :: "all_transactions_response list \<Rightarrow> raw_gnosis_transaction list" where
  "page_transactions ps = concat (map (\<lambda>p. map raw_from_value (atr_results p)) ps)"

lemma fetch_loop_serves:
  "serves http_get n url ps \<Longrightarrow> fetch_loop http_get n url acc = Some (Ok (acc @ page_transactions ps))"
proof (induction http_get n url ps arbitrary: acc rule: serves.induct)
  case (2 http_get n url p)
  then show ?case by (subst fetch_loop.simps) (simp add: res_ok_def page_transactions_def Let_def)
next
  case (3 http_get n url p q ps)
  then obtain u where p: "get_all_transaction_data_from_url (http_get n) url = Ok p" "atr_next p = Some u"
    and rest: "serves http_get (Suc n) u (q # ps)" by (auto split: option.splits)
  from 3(1) [OF p(2) rest] p show ?case
    by (subst fetch_loop.simps) (simp add: res_ok_def page_transactions_def Let_def)
qed simp

lemma serves_Cons:
  assumes "get_all_transaction_data_from_url (http_get n) url = Ok p" and "atr_next p = Some u"
    and "serves http_get (Suc n) u ps"
  shows "serves http_get n url (p # ps)"
  using assms by (cases ps) simp_all

lemma fetch_loop_Ok:
  "fetch_loop http_get n url acc = Some r \<Longrightarrow> r = Ok txs \<Longrightarrow>
     \<exists>ps. serves http_get n url ps \<and> txs = acc @ page_transactions ps"
proof (induction arbitrary: txs rule: fetch_loop.raw_induct [rotated, consumes 1, case_names step])
  case (step fl http_get n url acc r)
  show ?case
  proof (cases "get_all_transaction_data_from_url (http_get n) url")
    case page: (Ok p)
    show ?thesis
    proof (cases "atr_next p")
      case None
      with step page have "txs = acc @ page_transactions [p]" by (simp add: res_ok_def page_transactions_def)
      moreover have "serves http_get n url [p]" using page None by simp
      ultimately show ?thesis by blast
    next
      case (Some u)
      with step(2) page have "fl http_get (Suc n) u (acc @ map raw_from_value (atr_results p)) = Some r"
        by (simp add: res_ok_def)
      from step(1) [OF this step(3)] obtain ps where ps: "serves http_get (Suc n) u ps"
        and "txs = (acc @ map raw_from_value (atr_results p)) @ page_transactions ps" by blast
      then have "txs = acc @ page_transactions (p # ps)" by (simp add: page_transactions_def)
      with serves_Cons [OF page Some ps] show ?thesis by blast
    qed
  qed (use step in \<open>simp_all add: res_ok_def page_error_def\<close>)
qed

text \<open>C27: fetching is complete: it succeeds with a list of transactions exactly when the service answers
  the request and every page it links to up to one without a next link, and the list then is the
  results of all those pages in order. In particular a failure on any page leaves nothing.\<close>

theorem fetch_complete:
  "get_all_transaction_data url_join http_get self safe_addr = Some (Ok txs) \<longleftrightarrow>
     (\<exists>url ps. url_join (gsf_base_url self) (all_transactions_path safe_addr) = Ok url
        \<and> serves http_get 0 url ps \<and> txs = page_transactions ps)"
proof (cases "url_join (gsf_base_url self) (all_transactions_path safe_addr)")
  case (Ok url)
  have "fetch_loop http_get 0 url [] = Some (Ok txs) \<longleftrightarrow>
      (\<exists>ps. serves http_get 0 url ps \<and> txs = page_transactions ps)"
    using fetch_loop_Ok [of http_get 0 url "[]"] fetch_loop_serves [of http_get 0 url _ "[]"] by fastforce
  with Ok show ?thesis by (simp add: get_all_transaction_data_def)
qed (auto simp: get_all_transaction_data_def)

lemma fetch_loop_endless:
  "fetch_loop http_get n url acc = Some r \<Longrightarrow>
     (\<And>n u. u \<in> U \<Longrightarrow> \<exists>p v. get_all_transaction_data_from_url (http_get n) u = Ok p \<and> atr_next p = Some v \<and> v \<in> U)
     \<Longrightarrow> url \<in> U \<Longrightarrow> False"
proof (induction rule: fetch_loop.raw_induct [rotated, consumes 1, case_names step])
  case (step fl http_get n url acc r)
  obtain p v where page: "get_all_transaction_data_from_url (http_get n) url = Ok p" "atr_next p = Some v" and v: "v \<in> U"
    using step(3) [OF step(4)] by blast
  from page step(2) have "fl http_get (Suc n) v (acc @ map raw_from_value (atr_results p)) = Some r"
    by (simp add: res_ok_def)
  from step(1) [OF this step(3) v] show ?case .
qed

text \<open>C40: the number of pages is not bounded: when the first URL is in a set of URLs, each of which the
  service answers, at every request, with a page whose next link is in the set again, the fetch never
  returns. The set may be finite, so a cycle of links is enough, whatever the service does elsewhere.\<close>

theorem fetch_endless:
  assumes "\<And>n u. u \<in> U \<Longrightarrow>
      \<exists>p v. get_all_transaction_data_from_url (http_get n) u = Ok p \<and> atr_next p = Some v \<and> v \<in> U"
    and "url_join (gsf_base_url self) (all_transactions_path safe_addr) = Ok url" and "url \<in> U"
  shows "get_all_transaction_data url_join http_get self safe_addr = None"
proof (cases "fetch_loop http_get 0 url []")
  case (Some r)
  with fetch_loop_endless [OF this assms(1,3)] show ?thesis by blast
qed (simp add: get_all_transaction_data_def assms(2))

section \<open>The thread\<close>

lemma poll_loop_returns:
  assumes "stop_requested (n + k)" and "\<And>m s. \<exists>out. poll_once m s = Some out"
  shows "\<exists>out. poll_loop stop_requested poll_once poll_interval n s = Some out"
  using assms(1)
proof (induction k arbitrary: n s)
  case 0
  then show ?case by (subst poll_loop.simps) simp
next
  case (Suc k)
  obtain out where "poll_once n s = Some out" using assms(2) by blast
  with Suc.IH [of "Suc n"] Suc.prems show ?case
    by (subst poll_loop.simps) auto
qed

end
