(* ===== verification/System.thy ===== *)
theory System
  imports Main_Loop Fetcher
begin

text \<open>
  The running program: the ledger thread and one thread per audited safe share one database. Every
  write happens in an exclusive transaction (\<open>conn.exclusive_transaction\<close> in \<open>sync_loop\<close> and in
  \<open>process_transactions\<close>), so a run is an interleaving of such transactions; what a thread does
  between them changes no table. The relation \<open>sys_step\<close> has one rule per kind of transaction. The
  ledger thread may submit any block of the ledger at any time: the transaction itself checks that
  it is the next one.

  The theorems: in every reachable state the matches are one to one and agree, blocks are synced
  without gaps and the stored balances are those recomputed from the ledger; and every step
  implements a step of the abstract audit, in which matches are never undone.
\<close>

section \<open>The step relation\<close>

inductive sys_step ::
  "ext \<Rightarrow> gnosis_safe_config \<Rightarrow> (json \<Rightarrow> string) \<Rightarrow> (json \<Rightarrow> (string, gnosis_transaction) res)
   \<Rightarrow> (nat \<Rightarrow> block_contents) \<Rightarrow> (nat \<Rightarrow> datetime option) \<Rightarrow> state \<Rightarrow> state \<Rightarrow> bool"
  for X cfg js dec bc ts where
  sync_block_step: "\<lbrakk>sync_next X (Some cfg) bd (ts k) s = (r, s'); blk_index (bd_block bd) = of_nat k; k < 2 ^ 63;
     bd_contents bd = bc k\<rbrakk> \<Longrightarrow> sys_step X cfg js dec bc ts s s'"
| gnosis_step: "\<lbrakk>safe \<in> set (gsc_safes cfg); conn_transaction (process_transaction X js dec safe tx) s = (r, s')\<rbrakk>
     \<Longrightarrow> sys_step X cfg js dec bc ts s s'"
| fetch_failed_step: "sys_step X cfg js dec bc ts s (s\<lparr>st_num_failed_gnosis_get_all_transaction_data :=
     st_num_failed_gnosis_get_all_transaction_data s + 1\<rparr>)"
| sleep_step: "sys_step X cfg js dec bc ts s (sleep ms s)"

inductive_cases sys_stepE [consumes 1, case_names sync_block gnosis fetch_failed sleep]:
  "sys_step X cfg js dec bc ts s s'"

text \<open>A process on a newly created database.\<close>

definition sys_init :: "state \<Rightarrow> bool" where
  "sys_init s \<longleftrightarrow> st_db s = empty_database\<lparr>t_counters := [counters_default]\<rparr>"

definition sys_inv ::
  "ext \<Rightarrow> gnosis_safe_config \<Rightarrow> (nat \<Rightarrow> block_contents) \<Rightarrow> (nat \<Rightarrow> datetime option) \<Rightarrow> state \<Rightarrow> bool" where
  "sys_inv X cfg bc ts s \<longleftrightarrow> db_ok X cfg (st_db s)
     \<and> (\<exists>n \<le> 2 ^ 63. chain_at n (st_db s) \<and> history_ok X bc ts n (st_db s))"

section \<open>Invariants of a transition system\<close>

locale step_invariant =
  fixes init :: "'s \<Rightarrow> bool" and step :: "'s \<Rightarrow> 's \<Rightarrow> bool" and I :: "'s \<Rightarrow> bool"
  assumes init_inv: "init s \<Longrightarrow> I s" and step_inv: "I s \<Longrightarrow> step s s' \<Longrightarrow> I s'"
begin

lemma reach_inv:
  assumes "init s" and "step\<^sup>*\<^sup>* s s'"
  shows "I s'"
  using assms(2) by (induction rule: rtranclp_induct) (auto intro: init_inv assms(1) step_inv)

end

section \<open>Each transaction keeps the invariant\<close>

lemma history_frames [simp]:
  "history_ok X bc ts n (d\<lparr>t_gnosis_safe_deposits := a\<rparr>) = history_ok X bc ts n d"
  "history_ok X bc ts n (d\<lparr>t_gnosis_safe_withdrawals := b\<rparr>) = history_ok X bc ts n d"
  "history_ok X bc ts n (d\<lparr>t_gnosis_safe_txs := c\<rparr>) = history_ok X bc ts n d"
  "history_ok X bc ts n (d\<lparr>t_audited_mints := e\<rparr>) = history_ok X bc ts n d"
  "history_ok X bc ts n (d\<lparr>t_audited_burns := f\<rparr>) = history_ok X bc ts n d"
  "history_ok X bc ts n (d\<lparr>t_counters := g\<rparr>) = history_ok X bc ts n d"
  by (simp_all add: history_ok_def balances_at_def block_rows_def)

lemma keeps_process_transaction:
  assumes "inc_keeps I" and "\<And>d a. I d \<Longrightarrow> I (d\<lparr>t_audited_mints := t_audited_mints d @ [a]\<rparr>)"
    and "\<And>d a. I d \<Longrightarrow> I (d\<lparr>t_audited_burns := t_audited_burns d @ [a]\<rparr>)"
    and "\<And>d t. I (d\<lparr>t_gnosis_safe_deposits := t\<rparr>) = I d"
    and "\<And>d t. I (d\<lparr>t_gnosis_safe_withdrawals := t\<rparr>) = I d"
    and "\<And>d t. I (d\<lparr>t_gnosis_safe_txs := t\<rparr>) = I d"
  shows "keeps (\<lambda>s. I (st_db s)) (process_transaction X js dec safe tx)"
  by (intro keeps_process_transactionI keeps_process_decoded) (simp_all add: assms)

lemma inc_keeps_conj: "inc_keeps I \<Longrightarrow> inc_keeps J \<Longrightarrow> inc_keeps (\<lambda>d. I d \<and> J d)"
  unfolding inc_keeps_def by (intro allI impI keeps_conj) blast+

context ext_laws
begin

lemma gnosis_keeps_inv:
  assumes "\<And>v t. dec v = Ok t \<Longrightarrow> gnosis_transaction_wf t" and "safe \<in> set (gsc_safes cfg)"
    and inv: "sys_inv X cfg bc ts s" and run: "conn_transaction (process_transaction X js dec safe tx) s = (r, s')"
  shows "sys_inv X cfg bc ts s'"
proof -
  obtain n where n: "n \<le> 2 ^ 63" "chain_at n (st_db s) \<and> history_ok X bc ts n (st_db s)"
    using inv by (auto simp: sys_inv_def)
  have "keeps (\<lambda>s. db_ok X cfg (st_db s)) (conn_transaction (process_transaction X js dec safe tx))"
    by (intro keeps_conn_transaction process_transaction_keeps assms(1,2))
  from keepsD [OF this _ run] inv have "db_ok X cfg (st_db s')" by (simp add: sys_inv_def)
  moreover have "keeps (\<lambda>s. chain_at n (st_db s) \<and> history_ok X bc ts n (st_db s))
      (conn_transaction (process_transaction X js dec safe tx))"
    by (intro keeps_conn_transaction keeps_process_transaction [where I = "\<lambda>d. chain_at n d \<and> history_ok X bc ts n d"])
      (simp_all add: inc_keeps_conj inc_keeps_chain_at)
  note keepsD [OF this n(2) run]
  ultimately show ?thesis using n(1) by (auto simp: sys_inv_def)
qed

lemma sync_next_db_ok:
  assumes "db_ok X cfg (st_db s)" and "chain_at n (st_db s)" and "n < 2 ^ 63"
    and gcfg: "gcfg = None \<or> gcfg = Some cfg" and run: "sync_next X gcfg bd t s = (Ok u, s')"
  shows "db_ok X cfg (st_db s')"
proof -
  obtain data s1 where sync: "sync_block_with_conn X (bd_block bd) (bd_contents bd) t s = (Ok data, s1)"
    and audit: "(case gcfg of None \<Rightarrow> ret () | Some config \<Rightarrow> audit_block_data X data config) s1 = (Ok (), s')"
    using run by (rule sync_next_OkE)
  obtain c where c: "t_counters (st_db s) = [c]" "num_blocks_synced c = int n" and ok: "chain_ok (st_db s)"
    using assms(2) by (auto simp: chain_at_def)
  have bound: "num_blocks_synced c < 2 ^ 63"
    using assms(3) c(2) by (metis of_nat_less_iff of_nat_numeral of_nat_power)
  have ids: "ids_ok mc_id (t_mint_configs (st_db s))"
    using assms(1) by (simp add: db_ok_def config_tables_ok_def)
  have "db_ok X cfg (st_db s1)"
    using keepsD [OF sync_block_keeps_db_ok assms(1) sync] .
  moreover have "set (sbd_mint_txs data) \<subseteq> set (t_mint_txs (st_db s1))"
    "set (sbd_burn_tx_outs data) \<subseteq> set (t_burn_tx_outs (st_db s1))"
    by (rule sync_block_OkE [OF ok c(1) bound ids rowid sync]; simp)+
  ultimately show ?thesis
    using audit_block_data_keeps [OF ext_laws_axioms, of cfg s1 data "Ok ()" s'] audit gcfg by (auto simp: ret_def)
qed

text \<open>A block transaction: either the next block is stored, or the database is unchanged. Without a
  configuration no audit runs, and the invariant for any configuration is kept.\<close>

lemma sync_block_changes:
  assumes n: "n \<le> 2 ^ 63" "chain_at n (st_db s)" and ok: "db_ok X cfg (st_db s)"
    and run: "sync_next X gcfg bd t s = (r, s')" and k: "blk_index (bd_block bd) = of_nat k" "k < 2 ^ 63"
    and changed: "st_db s' \<noteq> st_db s"
  shows "r = Ok () \<and> k = n"
proof (cases r)
  case (Ok u)
  obtain c where c: "t_counters (st_db s) = [c]" "num_blocks_synced c = int n"
    using n(2) by (auto simp: chain_at_def)
  have "(of_nat k :: u64) = of_nat n"
  proof (rule ccontr)
    assume "(of_nat k :: u64) \<noteq> of_nat n"
    with k(1) c(2) have "blk_index (bd_block bd) \<noteq> as_u64 (num_blocks_synced c)" by simp
    from sync_block_refused [OF c(1) this] run Ok show False by (auto elim: sync_next_OkE)
  qed
  then have "unat (of_nat k :: u64) = unat (of_nat n :: u64)" by simp
  with k(2) n(1) have "k = n" by (simp add: unat_of_nat)
  with Ok show ?thesis by simp
next
  case (Err e)
  with run changed show ?thesis by (auto simp: sync_next_def conn_transaction_Err)
next
  case (Panic p)
  with run changed show ?thesis by (auto simp: sync_next_def conn_transaction_Panic)
qed

lemma sync_block_stores:
  assumes n: "chain_at n (st_db s)" "history_ok X bc ts n (st_db s)" "n < 2 ^ 63" and ok: "db_ok X cfg (st_db s)"
    and gcfg: "gcfg = None \<or> gcfg = Some cfg" and run: "sync_next X gcfg bd (ts n) s = (Ok (), s')"
    and bd: "bd_contents bd = bc n"
  shows "chain_at (Suc n) (st_db s') \<and> sys_inv X cfg bc ts s'"
proof -
  have conf: "config_tables_ok X (st_db s)" using ok by (simp add: db_ok_def)
  note step = sync_next_chain [OF ext_laws_axioms n(1,3) conf run]
  have "history_ok X bc ts (Suc n) (st_db s')"
    using history_ok_next [OF n(2,3), of "st_db s'"] step bd by simp
  moreover have "db_ok X cfg (st_db s')" by (rule sync_next_db_ok [OF ok n(1,3) gcfg run])
  moreover have "chain_at (Suc n) (st_db s')" "Suc n \<le> 2 ^ 63" using step n(3) by simp_all
  ultimately show ?thesis unfolding sys_inv_def by blast
qed

lemma sync_block_keeps_inv:
  assumes inv: "sys_inv X cfg bc ts s" and run: "sync_next X gcfg bd (ts k) s = (r, s')"
    and k: "blk_index (bd_block bd) = of_nat k" "k < 2 ^ 63" "bd_contents bd = bc k"
    and gcfg: "gcfg = None \<or> gcfg = Some cfg"
  shows "sys_inv X cfg bc ts s' \<and> (st_db s' = st_db s
    \<or> (\<exists>n. chain_at n (st_db s) \<and> chain_at (Suc n) (st_db s')))"
proof (cases "st_db s' = st_db s")
  case True
  with inv show ?thesis by (simp add: sys_inv_def)
next
  case False
  obtain n where n: "n \<le> 2 ^ 63" "chain_at n (st_db s)" "history_ok X bc ts n (st_db s)"
    and ok: "db_ok X cfg (st_db s)"
    using inv by (auto simp: sys_inv_def)
  from sync_block_changes [OF n(1,2) ok run k(1,2) False] have r: "r = Ok ()" and "k = n" by simp_all
  with run k have "sync_next X gcfg bd (ts n) s = (Ok (), s')" "n < 2 ^ 63" "bd_contents bd = bc n" by simp_all
  from sync_block_stores [OF n(2,3) this(2) ok gcfg this(1,3)] n(2) show ?thesis by blast
qed

end

text \<open>The program's own step relation as an instance: typed decoding guarantees the shape of hashes.\<close>

locale audit_system = ext_laws +
  fixes dec :: "json \<Rightarrow> (string, gnosis_transaction) res"
  assumes dec_wf: "dec v = Ok t \<Longrightarrow> gnosis_transaction_wf t"

lemma sys_init_inv: "sys_init s \<Longrightarrow> sys_inv X cfg bc ts s"
  unfolding sys_inv_def sys_init_def
  by (intro conjI exI [of _ 0]) (simp_all add: db_ok_empty chain_at_initial history_ok_def)

sublocale audit_system \<subseteq> sys: step_invariant sys_init "sys_step X cfg js dec bc ts" "sys_inv X cfg bc ts"
  for cfg js bc ts
proof
  show "sys_inv X cfg bc ts s" if "sys_init s" for s using that by (rule sys_init_inv)
  show "sys_inv X cfg bc ts s'" if inv: "sys_inv X cfg bc ts s" and step: "sys_step X cfg js dec bc ts s s'" for s s'
    using step
  proof (cases rule: sys_stepE)
    case (sync_block bd k r)
    show ?thesis
      by (rule sync_block_keeps_inv [OF inv sync_block(1,2) _ sync_block(4), THEN conjunct1])
        (use sync_block(3) in simp_all)
  next
    case (gnosis safe tx r)
    show ?thesis
      by (rule gnosis_keeps_inv [where dec = dec, OF _ gnosis(1) inv gnosis(2)]) (rule dec_wf)
  qed (use inv in \<open>simp_all add: sys_inv_def\<close>)
qed

context audit_system
begin

lemma reachable_inv: "sys_init s0 \<Longrightarrow> (sys_step X cfg js dec bc ts)\<^sup>*\<^sup>* s0 s \<Longrightarrow> sys_inv X cfg bc ts s"
  by (rule sys.reach_inv)

lemma step_keeps_inv: "sys_inv X cfg bc ts s \<Longrightarrow> sys_step X cfg js dec bc ts s s' \<Longrightarrow> sys_inv X cfg bc ts s'"
  by (rule sys.step_inv)

end

section \<open>Every reachable state\<close>

lemma sys_inv_links:
  assumes "sys_inv X cfg bc ts s"
  shows "inj_on (mint_links (st_db s)) (dom (mint_links (st_db s)))"
    and "inj_on (burn_links (st_db s)) (dom (burn_links (st_db s)))"
  using assms
  unfolding sys_inv_def db_ok_def mint_side_ok_def mint_links_def burn_links_def mint_tables_ok_def
    burn_tables_ok_def audited_mints_ok_def audited_burns_ok_def
  by (blast intro: mint_pairing.links_one_to_one burn_pairing.links_one_to_one)+

text \<open>C1: whatever the ledger thread and the safe threads do and however their transactions interleave,
  in every reachable state: matches between mints and deposits and between burns and withdrawals are
  one to one and only between objects that agree; the synced blocks are the first \<open>n\<close> of the ledger
  without a gap; and the balances stored for each of them are those recomputed from the ledger.\<close>

theorem reachable_states_safe:
  assumes "audit_system X dec" and "sys_init s0" and "(sys_step X cfg js dec bc ts)\<^sup>*\<^sup>* s0 s"
  shows "mint_tables_ok cfg (st_db s) \<and> inj_on (mint_links (st_db s)) (dom (mint_links (st_db s)))
    \<and> burn_tables_ok cfg (st_db s) \<and> inj_on (burn_links (st_db s)) (dom (burn_links (st_db s)))
    \<and> (\<exists>n \<le> 2 ^ 63. last_synced_block_index s = (Ok (if n = 0 then None else Some (of_nat (n - 1))), s)
         \<and> (\<forall>k < n. balances_at (st_db s) (of_nat k) = ledger_balances X bc ts (Suc k)))"
proof -
  have inv: "sys_inv X cfg bc ts s"
    by (rule audit_system.reachable_inv [OF assms])
  then obtain n where n: "n \<le> 2 ^ 63" "chain_at n (st_db s)" "history_ok X bc ts n (st_db s)"
    and "mint_tables_ok cfg (st_db s)" "burn_tables_ok cfg (st_db s)"
    by (auto simp: sys_inv_def db_ok_def mint_side_ok_def)
  moreover have "last_synced_block_index s = (Ok (if n = 0 then None else Some (of_nat (n - 1))), s)"
    by (rule chain_at_last_synced [OF n(2), unfolded as_u64_int])
  ultimately show ?thesis using sys_inv_links [OF inv] by (auto simp: history_ok_def)
qed

section \<open>The abstract audit\<close>

text \<open>What the audit promises, without tables: a number of blocks and two growing one-to-one relations.\<close>

record audit_spec =
  sp_blocks :: nat
  sp_mints :: "i32 \<rightharpoonup> i32"
  sp_burns :: "i32 \<rightharpoonup> i32"

definition spec_step :: "audit_spec \<Rightarrow> audit_spec \<Rightarrow> bool" where
  "spec_step a a' \<longleftrightarrow> (sp_blocks a' = sp_blocks a \<or> sp_blocks a' = Suc (sp_blocks a))
     \<and> sp_mints a \<subseteq>\<^sub>m sp_mints a' \<and> inj_on (sp_mints a') (dom (sp_mints a'))
     \<and> sp_burns a \<subseteq>\<^sub>m sp_burns a' \<and> inj_on (sp_burns a') (dom (sp_burns a'))"

definition abs_audit :: "database \<Rightarrow> audit_spec" where
  "abs_audit d = \<lparr>sp_blocks = nat (num_blocks_synced (hd (t_counters d))), sp_mints = mint_links d,
     sp_burns = burn_links d\<rparr>"

lemma links_mono: "links al ag as \<subseteq>\<^sub>m links al ag (as @ bs)"
  unfolding links_def by (simp add: map_le_map_add)

text \<open>Audit tables only grow at the end.\<close>

definition audits_grow :: "database \<Rightarrow> database \<Rightarrow> bool" where
  "audits_grow d d' \<longleftrightarrow> (\<exists>as bs. t_audited_mints d' = t_audited_mints d @ as \<and> t_audited_burns d' = t_audited_burns d @ bs)"

lemma audits_grow_refl [simp]: "audits_grow d d"
  by (simp add: audits_grow_def)

lemma audits_grow_frames [simp]:
  "audits_grow d (e\<lparr>t_counters := a\<rparr>) = audits_grow d e" "audits_grow d (e\<lparr>t_mint_txs := b\<rparr>) = audits_grow d e"
  "audits_grow d (e\<lparr>t_burn_tx_outs := c\<rparr>) = audits_grow d e" "audits_grow d (e\<lparr>t_mint_configs := f\<rparr>) = audits_grow d e"
  "audits_grow d (e\<lparr>t_mint_config_txs := g\<rparr>) = audits_grow d e" "audits_grow d (e\<lparr>t_block_balance := h\<rparr>) = audits_grow d e"
  "audits_grow d (e\<lparr>t_block_audit_data := i\<rparr>) = audits_grow d e" "audits_grow d (e\<lparr>t_gnosis_safe_txs := j\<rparr>) = audits_grow d e"
  "audits_grow d (e\<lparr>t_gnosis_safe_deposits := k\<rparr>) = audits_grow d e"
  "audits_grow d (e\<lparr>t_gnosis_safe_withdrawals := l\<rparr>) = audits_grow d e"
  by (simp_all add: audits_grow_def)

lemma audits_grow_append:
  "audits_grow d e \<Longrightarrow> audits_grow d (e\<lparr>t_audited_mints := t_audited_mints e @ [a]\<rparr>)"
  "audits_grow d e \<Longrightarrow> audits_grow d (e\<lparr>t_audited_burns := t_audited_burns e @ [b]\<rparr>)"
  by (auto simp: audits_grow_def)

lemma sync_next_grows: "keeps (\<lambda>s. audits_grow d (st_db s)) (sync_next X gcfg bd t)"
  unfolding sync_next_def
  by (intro keeps_conn_transaction keeps_bnd keeps_audit_option keeps_sync_block keeps_frame_inserts
      audits_grow_append) (simp_all add: audits_grow_append)

lemma process_transaction_grows:
  "keeps (\<lambda>s. audits_grow d (st_db s)) (conn_transaction (process_transaction X js dec safe tx))"
  by (intro keeps_conn_transaction keeps_process_transaction) (simp_all add: audits_grow_append)

lemma sys_step_grows:
  assumes "sys_step X cfg js dec bc ts s s'"
  shows "audits_grow (st_db s) (st_db s')"
  using assms
proof (cases rule: sys_stepE)
  case (sync_block bd k r)
  then show ?thesis using keepsD [OF sync_next_grows audits_grow_refl] by blast
next
  case (gnosis safe tx r)
  then show ?thesis using keepsD [OF process_transaction_grows audits_grow_refl] by blast
qed simp_all

lemma chain_at_blocks: "chain_at n d \<Longrightarrow> sp_blocks (abs_audit d) = n"
  by (auto simp: chain_at_def abs_audit_def)

lemma sys_step_blocks:
  assumes "audit_system X dec" and "sys_inv X cfg bc ts s" and "sys_step X cfg js dec bc ts s s'"
  shows "sp_blocks (abs_audit (st_db s')) = sp_blocks (abs_audit (st_db s))
    \<or> sp_blocks (abs_audit (st_db s')) = Suc (sp_blocks (abs_audit (st_db s)))"
proof -
  obtain n where n: "chain_at n (st_db s)"
    using assms(2) by (auto simp: sys_inv_def)
  show ?thesis
    using assms(3)
  proof (cases rule: sys_stepE)
    case (sync_block bd k r)
    have "st_db s' = st_db s \<or> (\<exists>n. chain_at n (st_db s) \<and> chain_at (Suc n) (st_db s'))"
      by (rule ext_laws.sync_block_keeps_inv [OF audit_system.axioms(1) [OF assms(1)] assms(2) sync_block(1,2) _
            sync_block(4), THEN conjunct2]) (use sync_block(3) in simp_all)
    then show ?thesis by (auto simp: chain_at_blocks)
  next
    case (gnosis safe tx r)
    have "keeps (\<lambda>s. chain_at n (st_db s)) (conn_transaction (process_transaction X js dec safe tx))"
      by (intro keeps_conn_transaction keeps_process_transaction) (simp_all add: inc_keeps_chain_at)
    from keepsD [OF this n gnosis(2)] n show ?thesis by (simp add: chain_at_blocks)
  qed simp_all
qed

text \<open>C2: the program implements the abstract audit: from a state that satisfies the invariant, every
  transaction of any thread, failed ones included, is a step of the specification on the number of
  synced blocks and the two relations. Blocks are counted one at a time, and a match once made is
  never undone or changed.\<close>

theorem system_implements_spec:
  assumes "audit_system X dec" and "sys_inv X cfg bc ts s" and "sys_step X cfg js dec bc ts s s'"
  shows "sys_inv X cfg bc ts s' \<and> spec_step (abs_audit (st_db s)) (abs_audit (st_db s'))"
proof -
  have inv: "sys_inv X cfg bc ts s'"
    by (rule audit_system.step_keeps_inv [OF assms])
  obtain as bs where grow: "t_audited_mints (st_db s') = t_audited_mints (st_db s) @ as"
    "t_audited_burns (st_db s') = t_audited_burns (st_db s) @ bs"
    using sys_step_grows [OF assms(3)] by (auto simp: audits_grow_def)
  have "sp_mints (abs_audit (st_db s)) \<subseteq>\<^sub>m sp_mints (abs_audit (st_db s'))"
    "sp_burns (abs_audit (st_db s)) \<subseteq>\<^sub>m sp_burns (abs_audit (st_db s'))"
    by (simp_all add: abs_audit_def mint_links_def burn_links_def grow links_mono)
  moreover have "inj_on (mint_links (st_db s')) (dom (mint_links (st_db s')))"
    "inj_on (burn_links (st_db s')) (dom (burn_links (st_db s')))"
    using inv by (simp_all add: sys_inv_links)
  moreover have "sp_blocks (abs_audit (st_db s')) = sp_blocks (abs_audit (st_db s))
      \<or> sp_blocks (abs_audit (st_db s')) = Suc (sp_blocks (abs_audit (st_db s)))"
    using sys_step_blocks [OF assms] by simp
  ultimately show ?thesis using inv by (simp add: spec_step_def abs_audit_def)
qed

end
