(* ===== verification/Audit_Complete.thy ===== *)
theory Audit_Complete
  imports System
begin

text \<open>
  Completeness of the audit. The invariant of \<open>System\<close> says that every match is right; here: no match is
  missed. In every reachable state a mint and a deposit of the tables that agree are linked, and so
  are a burn and a withdrawal that agree when no other withdrawal names the same output key. The
  argument is the same for both sides and stands in the locale \<open>audit_side\<close>: a pair can come into
  being by a new ledger row or by a new safe row, and the audit that follows the insert, in the
  same transaction, links it.
\<close>

section \<open>Missing no pair\<close>

text \<open>A row is the only one with its key.\<close>

definition only_key :: "('g \<Rightarrow> 'k) \<Rightarrow> 'g list \<Rightarrow> 'g \<Rightarrow> bool" where
  "only_key kg gs g \<longleftrightarrow> (\<forall>g' \<in> set gs. kg g' = kg g \<longrightarrow> g' = g)"

lemma only_key_append: "only_key kg (gs @ gs') g \<Longrightarrow> only_key kg gs g"
  by (simp add: only_key_def)

lemma only_key_distinct: "distinct (map kg gs) \<Longrightarrow> g \<in> set gs \<Longrightarrow> only_key kg gs g"
  by (auto simp: only_key_def distinct_map inj_on_def)

definition linked ::
  "('l \<Rightarrow> i32 option) \<Rightarrow> ('g \<Rightarrow> i32 option) \<Rightarrow> ('a \<Rightarrow> i32) \<Rightarrow> ('a \<Rightarrow> i32) \<Rightarrow> 'a list \<Rightarrow> 'l \<Rightarrow> 'g \<Rightarrow> bool" where
  "linked lid gid al ag as l g \<longleftrightarrow> (\<exists>a \<in> set as. lid l = Some (al a) \<and> gid g = Some (ag a))"

lemma linked_append: "linked lid gid al ag as l g \<Longrightarrow> linked lid gid al ag (as @ bs) l g"
  by (auto simp: linked_def)

lemma linked_iff_links:
  assumes "distinct (map al as)" and "lid l = Some i" and "gid g = Some j"
  shows "linked lid gid al ag as l g \<longleftrightarrow> links al ag as i = Some j"
  using assms links_in [OF _ assms(1)] by (auto simp: linked_def dest: links_SomeD)

locale audit_side =
  fixes lid :: "'l \<Rightarrow> i32 option" and gid :: "'g \<Rightarrow> i32 option"
    and al :: "'a \<Rightarrow> i32" and ag :: "'a \<Rightarrow> i32" and agree :: "'l \<Rightarrow> 'g \<Rightarrow> bool"
    and kl :: "'l \<Rightarrow> string" and kg :: "'g \<Rightarrow> string"
    and ls :: "database \<Rightarrow> 'l list" and gs :: "database \<Rightarrow> 'g list" and as :: "database \<Rightarrow> 'a list"
    and inv :: "database \<Rightarrow> bool" and for_safe :: "audited_safe_config \<Rightarrow> 'g \<Rightarrow> bool"
    and match_l :: "'l \<Rightarrow> 'g dbm" and match_g :: "'g \<Rightarrow> audited_safe_config \<Rightarrow> 'l dbm"
  assumes same_key: "agree l g \<Longrightarrow> kl l = kg g"
    and inv_audits: "inv d \<Longrightarrow> audits_ok lid gid al ag agree (ls d) (gs d) (as d)
      \<and> ids_ok lid (ls d) \<and> ids_ok gid (gs d) \<and> distinct (map kl (ls d))"
    and match_l_grows: "inv (st_db s) \<Longrightarrow> l \<in> set (ls (st_db s)) \<Longrightarrow> match_l l s = (r, s') \<Longrightarrow>
      inv (st_db s') \<and> ls (st_db s') = ls (st_db s) \<and> gs (st_db s') = gs (st_db s)
      \<and> (\<exists>bs. as (st_db s') = as (st_db s) @ bs)"
    and match_g_grows: "inv (st_db s) \<Longrightarrow> g \<in> set (gs (st_db s)) \<Longrightarrow> for_safe c g \<Longrightarrow> match_g g c s = (r2, s') \<Longrightarrow>
      inv (st_db s') \<and> ls (st_db s') = ls (st_db s) \<and> gs (st_db s') = gs (st_db s)
      \<and> (\<exists>bs. as (st_db s') = as (st_db s) @ bs)"
    and match_pair: "inv (st_db s) \<Longrightarrow> l \<in> set (ls (st_db s)) \<Longrightarrow> g \<in> set (gs (st_db s)) \<Longrightarrow> agree l g \<Longrightarrow>
      only_key kg (gs (st_db s)) g \<Longrightarrow>
      \<forall>a \<in> set (as (st_db s)). lid l \<noteq> Some (al a) \<and> gid g \<noteq> Some (ag a) \<Longrightarrow>
      (\<exists>s'. match_l l s = (Ok g, s') \<and> linked lid gid al ag (as (st_db s')) l g)
      \<and> (for_safe c g \<longrightarrow> (\<exists>s'. match_g g c s = (Ok l, s') \<and> linked lid gid al ag (as (st_db s')) l g))"
begin

text \<open>Every pair is linked whose ledger row is not in \<open>L\<close> and whose safe row is not in \<open>G\<close>.\<close>

definition complete_but :: "'l set \<Rightarrow> 'g set \<Rightarrow> database \<Rightarrow> bool" where
  "complete_but L G d \<longleftrightarrow> (\<forall>l \<in> set (ls d) - L. \<forall>g \<in> set (gs d) - G. agree l g \<longrightarrow> only_key kg (gs d) g \<longrightarrow>
     linked lid gid al ag (as d) l g)"

text \<open>A pair that agrees is either linked already or both its rows are still free.\<close>

lemma linked_or_free:
  assumes "inv d" and l: "l \<in> set (ls d)" and g: "g \<in> set (gs d)" and "agree l g" and "only_key kg (gs d) g"
  shows "linked lid gid al ag (as d) l g \<or> (\<forall>a \<in> set (as d). lid l \<noteq> Some (al a) \<and> gid g \<noteq> Some (ag a))"
proof (rule disjCI, rule ccontr)
  assume "\<not> (\<forall>a \<in> set (as d). lid l \<noteq> Some (al a) \<and> gid g \<noteq> Some (ag a))"
    and free: "\<not> linked lid gid al ag (as d) l g"
  then obtain a where a: "a \<in> set (as d)" and hit: "lid l = Some (al a) \<or> gid g = Some (ag a)" by blast
  note inv = inv_audits [OF assms(1)]
  from a inv obtain l' g' where l': "l' \<in> set (ls d)" "lid l' = Some (al a)"
    and g': "g' \<in> set (gs d)" "gid g' = Some (ag a)" and agree': "agree l' g'"
    unfolding audits_ok_def by blast
  have "linked lid gid al ag (as d) l g" using hit
  proof
    assume hit: "lid l = Some (al a)"
    with l' l inv have "l' = l" by (auto intro: ids_ok_inj)
    with same_key [OF agree'] same_key [OF assms(4)] g'(1) assms(5) have "g' = g"
      by (simp add: only_key_def)
    with a hit g' show ?thesis by (auto simp: linked_def)
  next
    assume hit: "gid g = Some (ag a)"
    with g' g inv have "g' = g" by (auto intro: ids_ok_inj)
    with same_key [OF agree'] same_key [OF assms(4)] have "kl l' = kl l" by simp
    with l'(1) l inv have "l' = l" by (auto simp: distinct_map inj_on_def)
    with a hit l' show ?thesis by (auto simp: linked_def)
  qed
  with free show False by blast
qed

lemma match_l_links:
  assumes "inv (st_db s)" and l: "l \<in> set (ls (st_db s))" and "match_l l s = (r, s')"
    and "g \<in> set (gs (st_db s))" and "agree l g" and "only_key kg (gs (st_db s)) g"
  shows "linked lid gid al ag (as (st_db s')) l g"
  using linked_or_free [OF assms(1,2,4-6)] match_pair [OF assms(1,2,4-6)] match_l_grows [OF assms(1-3)] assms(3)
  by (auto intro: linked_append)

lemma match_g_links:
  assumes "inv (st_db s)" and g: "g \<in> set (gs (st_db s))" "for_safe c g" and "match_g g c s = (r2, s')"
    and "l \<in> set (ls (st_db s))" and "agree l g" and "only_key kg (gs (st_db s)) g"
  shows "linked lid gid al ag (as (st_db s')) l g"
  using linked_or_free [OF assms(1,5,2,6,7)] match_pair [OF assms(1,5,2,6,7), of c] match_g_grows [OF assms(1-4)] assms(3,4)
  by (auto intro: linked_append)

text \<open>A new safe row opens only pairs of its own; the match that follows closes them.\<close>

lemma complete_new_g:
  "complete_but {} {} d \<Longrightarrow> ls d' = ls d \<Longrightarrow> gs d' = gs d @ [g] \<Longrightarrow> as d' = as d \<Longrightarrow> complete_but {} {g} d'"
  by (auto simp: complete_but_def dest: only_key_append)

lemma complete_new_l:
  "complete_but {} {} d \<Longrightarrow> ls d' = ls d @ ms \<Longrightarrow> gs d' = gs d \<Longrightarrow> as d' = as d \<Longrightarrow> complete_but (set ms) {} d'"
  by (auto simp: complete_but_def)

lemma match_l_completes:
  assumes "inv (st_db s)" and "complete_but (insert l L) {} (st_db s)" and "l \<in> set (ls (st_db s))"
    and "match_l l s = (r, s')"
  shows "complete_but L {} (st_db s')"
proof -
  note grows = match_l_grows [OF assms(1,3,4)]
  show ?thesis
    unfolding complete_but_def
  proof (intro ballI impI)
    fix k g assume k: "k \<in> set (ls (st_db s')) - L" and g: "g \<in> set (gs (st_db s')) - {}" and kg: "agree k g"
      and only: "only_key kg (gs (st_db s')) g"
    show "linked lid gid al ag (as (st_db s')) k g"
    proof (cases "k = l")
      case True
      with match_l_links [OF assms(1,3,4)] g kg only grows show ?thesis by simp
    next
      case False
      with assms(2) k g kg only grows have "linked lid gid al ag (as (st_db s)) k g" by (simp add: complete_but_def)
      with grows show ?thesis by (auto intro: linked_append)
    qed
  qed
qed

lemma match_g_completes:
  assumes "inv (st_db s)" and "complete_but {} {g} (st_db s)" and "g \<in> set (gs (st_db s))" and "for_safe c g"
    and "match_g g c s = (r, s')"
  shows "complete_but {} {} (st_db s')"
proof -
  note grows = match_g_grows [OF assms(1,3-5)]
  show ?thesis
    unfolding complete_but_def
  proof (intro ballI impI)
    fix l h assume l: "l \<in> set (ls (st_db s')) - {}" and h: "h \<in> set (gs (st_db s')) - {}" and lh: "agree l h"
      and only: "only_key kg (gs (st_db s')) h"
    show "linked lid gid al ag (as (st_db s')) l h"
    proof (cases "h = g")
      case True
      with match_g_links [OF assms(1,3-5)] l lh only grows show ?thesis by simp
    next
      case False
      with assms(2) l h lh only grows have "linked lid gid al ag (as (st_db s)) l h" by (simp add: complete_but_def)
      with grows show ?thesis by (auto intro: linked_append)
    qed
  qed
qed

text \<open>Sound and complete: links are exactly the pairs that agree.\<close>

lemma links_exact:
  assumes "inv d" and "complete_but {} {} d" and l: "l \<in> set (ls d)" and g: "g \<in> set (gs d)"
    and "only_key kg (gs d) g"
  shows "\<exists>i j. lid l = Some i \<and> gid g = Some j \<and> (links al ag (as d) i = Some j \<longleftrightarrow> agree l g)"
proof -
  note inv = inv_audits [OF assms(1)]
  obtain i j where i: "lid l = Some i" and j: "gid g = Some j" using inv l g unfolding ids_ok_def by blast
  have "agree l g" if link: "links al ag (as d) i = Some j"
  proof -
    from links_SomeD [OF link] inv obtain l' g' where "l' \<in> set (ls d)" "lid l' = Some i" "g' \<in> set (gs d)"
      "gid g' = Some j" "agree l' g'"
      unfolding audits_ok_def by blast
    with inv l g i j show ?thesis by (metis ids_ok_inj)
  qed
  moreover have "links al ag (as d) i = Some j" if "agree l g"
    using that assms(2,5) l g linked_iff_links [of al "as d" lid l i gid g j ag] i j inv by (auto simp: complete_but_def audits_ok_def)
  ultimately show ?thesis using i j by blast
qed

text \<open>The audit of a block's new ledger rows.\<close>

lemma audit_rows_complete:
  assumes "for_each (\<lambda>l. bnd (attempt (match_l l)) (\<lambda>_. ret ())) ms s = (Ok u, s')"
    and "inv (st_db s)" and "set ms \<subseteq> set (ls (st_db s))" and "complete_but (set ms) {} (st_db s)"
  shows "inv (st_db s') \<and> complete_but {} {} (st_db s')"
  using assms
proof (induction ms arbitrary: s)
  case (Cons l ms)
  obtain r t where run: "match_l l s = (r, t)" by fastforce
  have l: "l \<in> set (ls (st_db s))" using Cons.prems(3) by simp
  have "for_each (\<lambda>l. bnd (attempt (match_l l)) (\<lambda>_. ret ())) ms t = (Ok u, s')"
    using Cons.prems(1) run by (cases r) (auto simp: bnd_def attempt_def ret_def)
  moreover note match_l_grows [OF Cons.prems(2) l run]
  moreover have "complete_but (set ms) {} (st_db t)"
    using match_l_completes [OF Cons.prems(2) _ l run] Cons.prems(4) by simp
  ultimately show ?case using Cons.IH [of t] Cons.prems(3) by simp
qed (simp add: ret_def)

text \<open>Storing a safe row and matching it.\<close>

lemma insert_and_match_complete:
  assumes ins: "\<And>s g t. inv (st_db s) \<Longrightarrow> ins s = (Ok g, t) \<Longrightarrow> inv (st_db t) \<and> ls (st_db t) = ls (st_db s)
      \<and> gs (st_db t) = gs (st_db s) @ [g] \<and> as (st_db t) = as (st_db s) \<and> for_safe c g"
    and failed: "\<And>s r t. ins s = (r, t) \<Longrightarrow> \<forall>g. r \<noteq> Ok g \<Longrightarrow> st_db t = st_db s"
  shows "keeps (\<lambda>s. inv (st_db s) \<and> complete_but {} {} (st_db s))
    (bnd ins (\<lambda>g. bnd (attempt (match_g g c)) (\<lambda>_. ret ())))"
proof (rule keepsI)
  fix s :: state assume ok: "inv (st_db s) \<and> complete_but {} {} (st_db s)"
  obtain r t where run: "ins s = (r, t)" by fastforce
  let ?run = "bnd ins (\<lambda>g. bnd (attempt (match_g g c)) (\<lambda>_. ret ())) s"
  show "inv (st_db (snd ?run)) \<and> complete_but {} {} (st_db (snd ?run))"
  proof (cases r)
    case (Ok g)
    note new = ins [OF conjunct1 [OF ok] run [unfolded Ok]]
    have open1: "complete_but {} {g} (st_db t)" using complete_new_g [OF conjunct2 [OF ok]] new by blast
    obtain r2 u where m: "match_g g c t = (r2, u)" by fastforce
    have "inv (st_db u)" using match_g_grows [of t g c r2 u] new m by simp
    moreover have "complete_but {} {} (st_db u)"
      using match_g_completes [OF _ open1 _ _ m] new by simp
    ultimately show ?thesis using run Ok m by (cases r2) (simp_all add: bnd_def attempt_def ret_def)
  qed (use run failed [OF run] ok in auto)
qed

end

section \<open>The two sides\<close>

text \<open>No two safes of the configuration have the same address; the code does not check it.\<close>

definition safes_distinct :: "gnosis_safe_config \<Rightarrow> bool" where
  "safes_distinct cfg \<longleftrightarrow> (\<forall>c \<in> set (gsc_safes cfg). \<forall>c' \<in> set (gsc_safes cfg).
     eth_addr_eq (asc_safe_addr c) (asc_safe_addr c') \<longrightarrow> c = c')"

lemma lookup_safe:
  assumes "safes_distinct cfg" and "c \<in> set (gsc_safes cfg)" and "eth_addr_eq a (asc_safe_addr c)"
  shows "get_audited_safe_config_by_safe_addr cfg a = Some c"
proof (cases "get_audited_safe_config_by_safe_addr cfg a")
  case None
  then show ?thesis
    using assms(2,3) by (auto simp: get_audited_safe_config_by_safe_addr_def find_None_iff eth_addr_eq_sym)
next
  case (Some c')
  from get_audited_safe_config_by_safe_addr_Some [OF Some] have "c' \<in> set (gsc_safes cfg)"
    "eth_addr_eq (asc_safe_addr c') (asc_safe_addr c)"
    using assms(3) by (auto intro: eth_addr_eq_trans)
  with assms(1,2) Some show ?thesis by (auto simp: safes_distinct_def)
qed

definition deposit_of_safe :: "gnosis_safe_config \<Rightarrow> audited_safe_config \<Rightarrow> gnosis_safe_deposit \<Rightarrow> bool" where
  "deposit_of_safe cfg c x \<longleftrightarrow> c \<in> set (gsc_safes cfg) \<and> eth_addr_eq (gsd_safe_addr x) (asc_safe_addr c)"

definition withdrawal_of_safe :: "gnosis_safe_config \<Rightarrow> audited_safe_config \<Rightarrow> gnosis_safe_withdrawal \<Rightarrow> bool" where
  "withdrawal_of_safe cfg c w \<longleftrightarrow> c \<in> set (gsc_safes cfg) \<and> eth_addr_eq (gsw_safe_addr w) (asc_safe_addr c)"

lemma agree_verifies:
  assumes "safes_distinct cfg"
  shows "mint_deposit_agree cfg m x \<Longrightarrow> \<exists>c. get_audited_safe_config_by_safe_addr cfg (gsd_safe_addr x) = Some c
      \<and> verify_mint_tx_matches_deposit m x c = Ok ()"
    and "burn_withdrawal_agree cfg b w \<Longrightarrow> \<exists>c. get_audited_safe_config_by_safe_addr cfg (gsw_safe_addr w) = Some c
      \<and> verify_burn_tx_out_matches_withdrawal b w c = Ok ()"
  using lookup_safe [OF assms]
  by (auto simp: mint_deposit_agree_def verify_mint_Ok burn_withdrawal_agree_def verify_burn_Ok)

lemma mint_side_grows:
  shows "keeps (\<lambda>s. t_mint_txs (st_db s) = ms \<and> t_gnosis_safe_deposits (st_db s) = xs
      \<and> (\<exists>bs. t_audited_mints (st_db s) = as @ bs)) (try_match_mint_with_deposit X m cfg)"
    and "keeps (\<lambda>s. t_mint_txs (st_db s) = ms \<and> t_gnosis_safe_deposits (st_db s) = xs
      \<and> (\<exists>bs. t_audited_mints (st_db s) = as @ bs)) (try_match_deposit_with_mint X x c)"
  by (rule keeps_try_match_mint keeps_try_match_deposit; force)+

lemma burn_side_grows:
  shows "keeps (\<lambda>s. t_burn_tx_outs (st_db s) = ms \<and> t_gnosis_safe_withdrawals (st_db s) = xs
      \<and> (\<exists>bs. t_audited_burns (st_db s) = as @ bs)) (try_match_burn_with_withdrawal X b cfg)"
    and "keeps (\<lambda>s. t_burn_tx_outs (st_db s) = ms \<and> t_gnosis_safe_withdrawals (st_db s) = xs
      \<and> (\<exists>bs. t_audited_burns (st_db s) = as @ bs)) (try_match_withdrawal_with_burn X w c)"
  by (rule keeps_try_match_burn keeps_try_match_withdrawal; force)+

lemma mint_match_grows:
  "try_match_mint_with_deposit X m cfg s = (r, s') \<Longrightarrow> t_mint_txs (st_db s') = t_mint_txs (st_db s)
     \<and> t_gnosis_safe_deposits (st_db s') = t_gnosis_safe_deposits (st_db s)
     \<and> (\<exists>bs. t_audited_mints (st_db s') = t_audited_mints (st_db s) @ bs)"
  "try_match_deposit_with_mint X x c s = (r2, s') \<Longrightarrow> t_mint_txs (st_db s') = t_mint_txs (st_db s)
     \<and> t_gnosis_safe_deposits (st_db s') = t_gnosis_safe_deposits (st_db s)
     \<and> (\<exists>bs. t_audited_mints (st_db s') = t_audited_mints (st_db s) @ bs)"
  by (erule keepsD [OF mint_side_grows(1), rotated] keepsD [OF mint_side_grows(2), rotated]; simp)+

lemma burn_match_grows:
  "try_match_burn_with_withdrawal X b cfg s = (r, s') \<Longrightarrow> t_burn_tx_outs (st_db s') = t_burn_tx_outs (st_db s)
     \<and> t_gnosis_safe_withdrawals (st_db s') = t_gnosis_safe_withdrawals (st_db s)
     \<and> (\<exists>bs. t_audited_burns (st_db s') = t_audited_burns (st_db s) @ bs)"
  "try_match_withdrawal_with_burn X w c s = (r2, s') \<Longrightarrow> t_burn_tx_outs (st_db s') = t_burn_tx_outs (st_db s)
     \<and> t_gnosis_safe_withdrawals (st_db s') = t_gnosis_safe_withdrawals (st_db s)
     \<and> (\<exists>bs. t_audited_burns (st_db s') = t_audited_burns (st_db s) @ bs)"
  by (erule keepsD [OF burn_side_grows(1), rotated] keepsD [OF burn_side_grows(2), rotated]; simp)+

lemma free_rows:
  "\<forall>a \<in> set (t_audited_mints d). mt_id m \<noteq> Some (am_mint_tx_id a) \<and> gsd_id x \<noteq> Some (am_gnosis_safe_deposit_id a) \<Longrightarrow>
     \<not> mint_is_audited d m \<and> \<not> deposit_is_audited d x"
  "\<forall>a \<in> set (t_audited_burns d). bto_id b \<noteq> Some (ab_burn_tx_out_id a) \<and> gsw_id w \<noteq> Some (ab_gnosis_safe_withdrawal_id a) \<Longrightarrow>
     \<not> burn_is_audited d b \<and> \<not> withdrawal_is_audited d w"
  by (auto simp: mint_is_audited_def deposit_is_audited_def burn_is_audited_def withdrawal_is_audited_def list_ex_iff)

lemma linked_by_linked:
  "linked_by cfg m x d d' \<Longrightarrow> linked mt_id gsd_id am_mint_tx_id am_gnosis_safe_deposit_id (t_audited_mints d') m x"
  "burn_linked_by cfg b w d d' \<Longrightarrow> linked bto_id gsw_id ab_burn_tx_out_id ab_gnosis_safe_withdrawal_id (t_audited_burns d') b w"
proof -
  show "linked mt_id gsd_id am_mint_tx_id am_gnosis_safe_deposit_id (t_audited_mints d') m x"
    if l: "linked_by cfg m x d d'"
  proof -
    from l obtain i j where "mt_id m = Some i" "gsd_id x = Some j" "mint_links d' i = Some j"
      by (auto simp: linked_by_def)
    then show ?thesis unfolding mint_links_def linked_def by (metis links_SomeD)
  qed
  show "linked bto_id gsw_id ab_burn_tx_out_id ab_gnosis_safe_withdrawal_id (t_audited_burns d') b w"
    if l: "burn_linked_by cfg b w d d'"
  proof -
    from l obtain i j where "bto_id b = Some i" "gsw_id w = Some j" "burn_links d' i = Some j"
      by (auto simp: burn_linked_by_def)
    then show ?thesis unfolding burn_links_def linked_def by (metis links_SomeD)
  qed
qed

locale audit_run = ext_laws +
  fixes cfg :: gnosis_safe_config
  assumes safes: "safes_distinct cfg"

sublocale audit_run \<subseteq> mints: audit_side mt_id gsd_id am_mint_tx_id am_gnosis_safe_deposit_id
  "mint_deposit_agree cfg" mt_nonce_hex gsd_expected_mc_mint_tx_nonce_hex t_mint_txs t_gnosis_safe_deposits
  t_audited_mints "mint_side_ok X cfg" "deposit_of_safe cfg" "\<lambda>m. try_match_mint_with_deposit X m cfg"
  "try_match_deposit_with_mint X"
proof
  show "mt_nonce_hex m = gsd_expected_mc_mint_tx_nonce_hex x" if "mint_deposit_agree cfg m x" for m x
    using that by (simp add: mint_deposit_agree_def)
  show "audits_ok mt_id gsd_id am_mint_tx_id am_gnosis_safe_deposit_id (mint_deposit_agree cfg) (t_mint_txs d)
      (t_gnosis_safe_deposits d) (t_audited_mints d) \<and> ids_ok mt_id (t_mint_txs d)
      \<and> ids_ok gsd_id (t_gnosis_safe_deposits d) \<and> distinct (map mt_nonce_hex (t_mint_txs d))"
    if "mint_side_ok X cfg d" for d
    using that by (simp add: mint_side_ok_def mint_tables_ok_def audited_mints_ok_def)
next
  fix s :: state and m r s' assume ok: "mint_side_ok X cfg (st_db s)" and m: "m \<in> set (t_mint_txs (st_db s))"
    and run: "try_match_mint_with_deposit X m cfg s = (r, s')"
  have "mint_tables_ok cfg (st_db s')" using try_match_mint_tables [OF _ rowid m run] ok by (simp add: mint_side_ok_def)
  with ok mint_match_grows(1) [OF run]
  show "mint_side_ok X cfg (st_db s') \<and> t_mint_txs (st_db s') = t_mint_txs (st_db s)
      \<and> t_gnosis_safe_deposits (st_db s') = t_gnosis_safe_deposits (st_db s)
      \<and> (\<exists>bs. t_audited_mints (st_db s') = t_audited_mints (st_db s) @ bs)"
    by (simp add: mint_side_ok_def)
next
  fix s :: state and x c r s' assume ok: "mint_side_ok X cfg (st_db s)" and x: "x \<in> set (t_gnosis_safe_deposits (st_db s))"
    and c: "deposit_of_safe cfg c x" and run: "try_match_deposit_with_mint X x c s = (r, s')"
  have "mint_tables_ok cfg (st_db s')"
    using try_match_deposit_tables [OF _ rowid x _ run] ok c by (simp add: mint_side_ok_def deposit_of_safe_def)
  with ok mint_match_grows(2) [OF run]
  show "mint_side_ok X cfg (st_db s') \<and> t_mint_txs (st_db s') = t_mint_txs (st_db s)
      \<and> t_gnosis_safe_deposits (st_db s') = t_gnosis_safe_deposits (st_db s)
      \<and> (\<exists>bs. t_audited_mints (st_db s') = t_audited_mints (st_db s) @ bs)"
    by (simp add: mint_side_ok_def)
next
  fix s :: state and m x c assume ok: "mint_side_ok X cfg (st_db s)" and m: "m \<in> set (t_mint_txs (st_db s))"
    and x: "x \<in> set (t_gnosis_safe_deposits (st_db s))" and agree: "mint_deposit_agree cfg m x"
    and free: "\<forall>a \<in> set (t_audited_mints (st_db s)). mt_id m \<noteq> Some (am_mint_tx_id a) \<and> gsd_id x \<noteq> Some (am_gnosis_safe_deposit_id a)"
  from agree_verifies(1) [OF safes agree] obtain d where
    d: "get_audited_safe_config_by_safe_addr cfg (gsd_safe_addr x) = Some d" "verify_mint_tx_matches_deposit m x d = Ok ()"
    by blast
  note run = match_pair_run [OF _ rowid m conjunct1 [OF free_rows(1) [OF free]] x conjunct2 [OF free_rows(1) [OF free]] d]
  have "d = c" if "deposit_of_safe cfg c x"
    using that d(1) lookup_safe [OF safes] by (auto simp: deposit_of_safe_def)
  with run ok show "(\<exists>s'. try_match_mint_with_deposit X m cfg s = (Ok x, s')
        \<and> linked mt_id gsd_id am_mint_tx_id am_gnosis_safe_deposit_id (t_audited_mints (st_db s')) m x)
      \<and> (deposit_of_safe cfg c x \<longrightarrow> (\<exists>s'. try_match_deposit_with_mint X x c s = (Ok m, s')
        \<and> linked mt_id gsd_id am_mint_tx_id am_gnosis_safe_deposit_id (t_audited_mints (st_db s')) m x))"
    by (auto simp: mint_side_ok_def intro: linked_by_linked)
qed

sublocale audit_run \<subseteq> burns: audit_side bto_id gsw_id ab_burn_tx_out_id ab_gnosis_safe_withdrawal_id
  "burn_withdrawal_agree cfg" bto_public_key_hex gsw_mc_tx_out_public_key_hex t_burn_tx_outs t_gnosis_safe_withdrawals
  t_audited_burns "burn_tables_ok cfg" "withdrawal_of_safe cfg" "\<lambda>b. try_match_burn_with_withdrawal X b cfg"
  "try_match_withdrawal_with_burn X"
proof
  show "bto_public_key_hex b = gsw_mc_tx_out_public_key_hex w" if "burn_withdrawal_agree cfg b w" for b w
    using that by (simp add: burn_withdrawal_agree_def)
  show "audits_ok bto_id gsw_id ab_burn_tx_out_id ab_gnosis_safe_withdrawal_id (burn_withdrawal_agree cfg) (t_burn_tx_outs d)
      (t_gnosis_safe_withdrawals d) (t_audited_burns d) \<and> ids_ok bto_id (t_burn_tx_outs d)
      \<and> ids_ok gsw_id (t_gnosis_safe_withdrawals d) \<and> distinct (map bto_public_key_hex (t_burn_tx_outs d))"
    if "burn_tables_ok cfg d" for d
    using that by (simp add: burn_tables_ok_def audited_burns_ok_def)
next
  fix s :: state and b r s' assume ok: "burn_tables_ok cfg (st_db s)" and b: "b \<in> set (t_burn_tx_outs (st_db s))"
    and run: "try_match_burn_with_withdrawal X b cfg s = (r, s')"
  from try_match_burn_tables [OF ok rowid b run] burn_match_grows(1) [OF run]
  show "burn_tables_ok cfg (st_db s') \<and> t_burn_tx_outs (st_db s') = t_burn_tx_outs (st_db s)
      \<and> t_gnosis_safe_withdrawals (st_db s') = t_gnosis_safe_withdrawals (st_db s)
      \<and> (\<exists>bs. t_audited_burns (st_db s') = t_audited_burns (st_db s) @ bs)" by simp
next
  fix s :: state and w c r s' assume ok: "burn_tables_ok cfg (st_db s)" and w: "w \<in> set (t_gnosis_safe_withdrawals (st_db s))"
    and c: "withdrawal_of_safe cfg c w" and run: "try_match_withdrawal_with_burn X w c s = (r, s')"
  from try_match_withdrawal_tables [OF ok rowid w _ run] c burn_match_grows(2) [OF run]
  show "burn_tables_ok cfg (st_db s') \<and> t_burn_tx_outs (st_db s') = t_burn_tx_outs (st_db s)
      \<and> t_gnosis_safe_withdrawals (st_db s') = t_gnosis_safe_withdrawals (st_db s)
      \<and> (\<exists>bs. t_audited_burns (st_db s') = t_audited_burns (st_db s) @ bs)" by (simp add: withdrawal_of_safe_def)
next
  fix s :: state and b w c assume ok: "burn_tables_ok cfg (st_db s)" and b: "b \<in> set (t_burn_tx_outs (st_db s))"
    and w: "w \<in> set (t_gnosis_safe_withdrawals (st_db s))" and agree: "burn_withdrawal_agree cfg b w"
    and only: "only_key gsw_mc_tx_out_public_key_hex (t_gnosis_safe_withdrawals (st_db s)) w"
    and free: "\<forall>a \<in> set (t_audited_burns (st_db s)). bto_id b \<noteq> Some (ab_burn_tx_out_id a) \<and> gsw_id w \<noteq> Some (ab_gnosis_safe_withdrawal_id a)"
  from agree_verifies(2) [OF safes agree] obtain d where
    d: "get_audited_safe_config_by_safe_addr cfg (gsw_safe_addr w) = Some d" "verify_burn_tx_out_matches_withdrawal b w d = Ok ()"
    by blast
  note run = match_burn_pair_run [OF ok rowid b conjunct1 [OF free_rows(2) [OF free]] w conjunct2 [OF free_rows(2) [OF free]] d]
  have "d = c" if "withdrawal_of_safe cfg c w"
    using that d(1) lookup_safe [OF safes] by (auto simp: withdrawal_of_safe_def)
  with run only show "(\<exists>s'. try_match_burn_with_withdrawal X b cfg s = (Ok w, s')
        \<and> linked bto_id gsw_id ab_burn_tx_out_id ab_gnosis_safe_withdrawal_id (t_audited_burns (st_db s')) b w)
      \<and> (withdrawal_of_safe cfg c w \<longrightarrow> (\<exists>s'. try_match_withdrawal_with_burn X w c s = (Ok b, s')
        \<and> linked bto_id gsw_id ab_burn_tx_out_id ab_gnosis_safe_withdrawal_id (t_audited_burns (st_db s')) b w))"
    by (auto simp: only_key_def intro: linked_by_linked)
qed

section \<open>Every transaction misses no pair\<close>

lemma insert_failed:
  assumes "\<forall>x. r \<noteq> Ok x"
  shows "deposit_insert X x s = (r, t) \<Longrightarrow> st_db t = st_db s" and "withdrawal_insert X w s = (r2, t) \<Longrightarrow> \<forall>x. r2 \<noteq> Ok x \<Longrightarrow> st_db t = st_db s"
  using assms
  by (auto simp: deposit_insert_def withdrawal_insert_def insert_into_gnosis_safe_deposits_def
      insert_into_gnosis_safe_withdrawals_def sql_insert_def Let_def bnd_def throw_def ret_def last_insert_rowid_eq
      split: option.splits if_splits prod.splits res.splits)

lemma parsed_of_safe:
  "parse_deposit X safe tx t = Ok x \<Longrightarrow> gsd_safe_addr x = et_to t"
  "parse_withdrawal_with_pub_key_multi_sig_tx X safe m = Ok w \<Longrightarrow> gsw_safe_addr w = mst_safe m"
  unfolding parse_deposit_def parse_withdrawal_with_pub_key_multi_sig_tx_def
  by (auto simp: rbind_eq_Ok gnosis_safe_deposit_new_def gnosis_safe_withdrawal_new_def split: prod.splits)

context audit_run
begin

definition mints_complete :: "database \<Rightarrow> bool" where
  "mints_complete d \<longleftrightarrow> mint_side_ok X cfg d \<and> mints.complete_but {} {} d"

definition burns_complete :: "database \<Rightarrow> bool" where
  "burns_complete d \<longleftrightarrow> burn_tables_ok cfg d \<and> burns.complete_but {} {} d"

lemma complete_frames [simp]:
  "mints_complete (d\<lparr>t_counters := a\<rparr>) = mints_complete d" "burns_complete (d\<lparr>t_counters := a\<rparr>) = burns_complete d"
  "mints_complete (d\<lparr>t_gnosis_safe_withdrawals := b\<rparr>) = mints_complete d"
  "burns_complete (d\<lparr>t_gnosis_safe_deposits := e\<rparr>) = burns_complete d"
  "mints_complete (d\<lparr>t_audited_burns := f\<rparr>) = mints_complete d"
  "burns_complete (d\<lparr>t_audited_mints := g\<rparr>) = burns_complete d"
  "mints_complete (d\<lparr>t_gnosis_safe_txs := h\<rparr>) = mints_complete d"
  "burns_complete (d\<lparr>t_gnosis_safe_txs := h\<rparr>) = burns_complete d"
  by (simp_all add: mints_complete_def burns_complete_def mints.complete_but_def burns.complete_but_def)

lemma store_deposit_complete:
  assumes "deposit_wf X x" and "gsd_id x = None" and "deposit_of_safe cfg c x"
  shows "keeps (\<lambda>s. mints_complete (st_db s))
    (bnd (deposit_insert X x) (\<lambda>x. bnd (attempt (try_match_deposit_with_mint X x c)) (\<lambda>_. ret ())))"
  unfolding mints_complete_def
proof (rule mints.insert_and_match_complete)
  show "st_db t = st_db s" if "deposit_insert X x s = (r, t)" "\<forall>g. r \<noteq> Ok g" for s r t
    using insert_failed(1) [OF that(2,1)] .
  fix s :: state and g t assume ok: "mint_side_ok X cfg (st_db s)" and run: "deposit_insert X x s = (Ok g, t)"
  have "keeps (\<lambda>s. mint_side_ok X cfg (st_db s)) (deposit_insert X x)"
    unfolding deposit_insert_def by (intro keeps_intros keeps_deposit_insert assms)
  from keepsD [OF this ok run] deposit_insert_OkD [OF run] assms(3)
  show "mint_side_ok X cfg (st_db t) \<and> t_mint_txs (st_db t) = t_mint_txs (st_db s)
      \<and> t_gnosis_safe_deposits (st_db t) = t_gnosis_safe_deposits (st_db s) @ [g]
      \<and> t_audited_mints (st_db t) = t_audited_mints (st_db s) \<and> deposit_of_safe cfg c g"
    by (auto simp: deposit_of_safe_def)
qed

lemma store_withdrawal_complete:
  assumes "gsw_id w = None" and "withdrawal_of_safe cfg c w"
  shows "keeps (\<lambda>s. burns_complete (st_db s))
    (bnd (withdrawal_insert X w) (\<lambda>w. bnd (attempt (try_match_withdrawal_with_burn X w c)) (\<lambda>_. ret ())))"
  unfolding burns_complete_def
proof (rule burns.insert_and_match_complete)
  show "st_db t = st_db s" if "withdrawal_insert X w s = (r, t)" "\<forall>g. r \<noteq> Ok g" for s r t
    using insert_failed(2) [OF _ that] that(2) by blast
  fix s :: state and g t assume ok: "burn_tables_ok cfg (st_db s)" and run: "withdrawal_insert X w s = (Ok g, t)"
  have "keeps (\<lambda>s. burn_tables_ok cfg (st_db s)) (withdrawal_insert X w)"
    unfolding withdrawal_insert_def by (intro keeps_intros keeps_withdrawal_insert assms)
  from keepsD [OF this ok run] withdrawal_insert_OkD [OF run] assms(2)
  show "burn_tables_ok cfg (st_db t) \<and> t_burn_tx_outs (st_db t) = t_burn_tx_outs (st_db s)
      \<and> t_gnosis_safe_withdrawals (st_db t) = t_gnosis_safe_withdrawals (st_db s) @ [g]
      \<and> t_audited_burns (st_db t) = t_audited_burns (st_db s) \<and> withdrawal_of_safe cfg c g"
    by (auto simp: withdrawal_of_safe_def)
qed

lemma process_transfer_complete:
  assumes "safe \<in> set (gsc_safes cfg)" and "eth_tx_hash_wf (et_tx_hash t)"
  shows "keeps (\<lambda>s. mints_complete (st_db s)) (process_transfer X safe tx t)"
proof -
  have "keeps (\<lambda>s. mints_complete (st_db s))
      (bnd (deposit_insert X x) (\<lambda>x. bnd (attempt (try_match_deposit_with_mint X x safe)) (\<lambda>_. ret ())))"
    if "parse_deposit X safe tx t = Ok x" "eth_addr_eq (et_to t) (asc_safe_addr safe)" for x
    using parse_deposit_wf [OF that(1) assms(2)] parsed_of_safe(1) [OF that(1)] that(2) assms(1)
    by (intro store_deposit_complete) (simp_all add: deposit_of_safe_def)
  then show ?thesis
    unfolding process_transfer_def
    by (intro keeps_if keeps_ret keeps_bnd_attempt_lift_res)
      (simp_all add: map_err_eq_Ok keeps_bnd keeps_inc keeps_throw)
qed

lemma process_multi_sig_complete:
  assumes "safe \<in> set (gsc_safes cfg)"
  shows "keeps (\<lambda>s. burns_complete (st_db s)) (process_multi_sig_transaction X safe m)"
proof -
  have "keeps (\<lambda>s. burns_complete (st_db s))
      (bnd (withdrawal_insert X w) (\<lambda>w. bnd (attempt (try_match_withdrawal_with_burn X w safe)) (\<lambda>_. ret ())))"
    if "parse_withdrawal_with_pub_key_multi_sig_tx X safe m = Ok w" "eth_addr_eq (mst_safe m) (asc_safe_addr safe)" for w
    using parse_withdrawal_id [OF that(1)] parsed_of_safe(2) [OF that(1)] that(2) assms(1)
    by (intro store_withdrawal_complete) (simp_all add: withdrawal_of_safe_def)
  then show ?thesis
    unfolding process_multi_sig_transaction_def
    by (auto intro!: keeps_ret keeps_bnd_attempt_lift_res keeps_inc simp: map_err_eq_Ok)
qed

lemma process_transaction_complete:
  assumes "safe \<in> set (gsc_safes cfg)" and "\<And>t. dec (rgt_raw tx) = Ok t \<Longrightarrow> gnosis_transaction_wf t"
  shows "keeps (\<lambda>s. mints_complete (st_db s) \<and> burns_complete (st_db s)) (process_transaction X js dec safe tx)"
proof (intro keeps_conj keeps_process_transactionI keeps_process_decodedI)
  show "keeps (\<lambda>s. mints_complete (st_db s)) (process_eth_transaction X safe etx)"
    if "dec (rgt_raw tx) = Ok (Ethereum etx)" for etx
    unfolding process_eth_transaction_def
    by (intro keeps_for_each process_transfer_complete assms(1)) (use assms(2) [OF that] in simp)
qed (simp_all add: keeps_process_eth keeps_process_multi_sig process_multi_sig_complete assms(1))

end

context audit_run
begin

text \<open>Storing a block opens pairs of its own rows only.\<close>

lemma sync_block_opens:
  assumes ok: "db_ok X cfg (st_db s)" and complete: "mints_complete (st_db s)" "burns_complete (st_db s)"
    and n: "chain_at n (st_db s)" "n < 2 ^ 63"
    and run: "sync_block_with_conn X blk bc ts s = (Ok data, s')"
  shows "mints.complete_but (set (sbd_mint_txs data)) {} (st_db s') \<and> set (sbd_mint_txs data) \<subseteq> set (t_mint_txs (st_db s'))
    \<and> burns.complete_but (set (sbd_burn_tx_outs data)) {} (st_db s')
    \<and> set (sbd_burn_tx_outs data) \<subseteq> set (t_burn_tx_outs (st_db s'))"
proof -
  obtain c where c: "t_counters (st_db s) = [c]" "num_blocks_synced c = int n" and chain: "chain_ok (st_db s)"
    using n(1) by (auto simp: chain_at_def)
  have bound: "num_blocks_synced c < 2 ^ 63"
    using n(2) c(2) by (metis of_nat_less_iff of_nat_numeral of_nat_power)
  have ids: "ids_ok mc_id (t_mint_configs (st_db s))" using ok by (simp add: db_ok_def config_tables_ok_def)
  from sync_block_OkE [OF chain c(1) bound ids rowid run] obtain d1 bm k where
    d1: "outside_configs d1 = outside_configs (st_db s)"
    and d': "st_db s' = d1\<lparr>t_mint_txs := t_mint_txs (st_db s) @ sbd_mint_txs data,
        t_burn_tx_outs := t_burn_tx_outs (st_db s) @ sbd_burn_tx_outs data, t_counters := [k],
        t_block_audit_data := t_block_audit_data (st_db s) @ [block_audit_data_new (blk_index blk)],
        t_block_balance := t_block_balance (st_db s) @ balance_rows (blk_index blk) bm\<rparr>"
    by metis
  have "t_gnosis_safe_deposits d1 = t_gnosis_safe_deposits (st_db s)" "t_audited_mints d1 = t_audited_mints (st_db s)"
    "t_gnosis_safe_withdrawals d1 = t_gnosis_safe_withdrawals (st_db s)" "t_audited_burns d1 = t_audited_burns (st_db s)"
    using d1 by (cases d1; cases "st_db s"; simp add: outside_configs_def)+
  with d' complete show ?thesis
    using mints.complete_new_l [of "st_db s" "st_db s'"] burns.complete_new_l [of "st_db s" "st_db s'"]
    by (simp add: mints_complete_def burns_complete_def)
qed

lemma audit_block_completes:
  assumes run: "audit_block_data X data cfg s = (Ok u, s')"
    and mints: "mint_side_ok X cfg (st_db s)" "mints.complete_but (set (sbd_mint_txs data)) {} (st_db s)"
      "set (sbd_mint_txs data) \<subseteq> set (t_mint_txs (st_db s))"
    and burns: "burn_tables_ok cfg (st_db s)" "burns.complete_but (set (sbd_burn_tx_outs data)) {} (st_db s)"
      "set (sbd_burn_tx_outs data) \<subseteq> set (t_burn_tx_outs (st_db s))"
  shows "mints_complete (st_db s') \<and> burns_complete (st_db s')"
proof -
  let ?bs = "set (sbd_burn_tx_outs data)"
  let ?burns = "\<lambda>d. burn_tables_ok cfg d \<and> burns.complete_but ?bs {} d \<and> ?bs \<subseteq> set (t_burn_tx_outs d)"
  obtain v t where m: "for_each (\<lambda>m. bnd (attempt (try_match_mint_with_deposit X m cfg)) (\<lambda>_. ret ()))
      (sbd_mint_txs data) s = (Ok v, t)"
    and b: "for_each (\<lambda>b. bnd (attempt (try_match_burn_with_withdrawal X b cfg)) (\<lambda>_. ret ()))
      (sbd_burn_tx_outs data) t = (Ok u, s')"
    using run unfolding audit_block_data_def by (elim bnd_eq_OkE)
  have "keeps (\<lambda>s. ?burns (st_db s)) (for_each (\<lambda>m. bnd (attempt (try_match_mint_with_deposit X m cfg)) (\<lambda>_. ret ()))
      (sbd_mint_txs data))"
    by (intro keeps_for_each keeps_bnd keeps_attempt keeps_ret keeps_try_match_mint)
      (simp_all add: burns.complete_but_def)
  from keepsD [OF this _ m] burns have burns_t: "?burns (st_db t)" by simp
  have "keeps (\<lambda>s. mints_complete (st_db s)) (for_each (\<lambda>b. bnd (attempt (try_match_burn_with_withdrawal X b cfg))
      (\<lambda>_. ret ())) (sbd_burn_tx_outs data))"
    by (intro keeps_for_each keeps_bnd keeps_attempt keeps_ret keeps_try_match_burn) simp_all
  from keepsD [OF this _ b] mints.audit_rows_complete [OF m mints(1,3,2)] have "mints_complete (st_db s')"
    by (simp add: mints_complete_def)
  moreover from burns.audit_rows_complete [OF b] burns_t have "burns_complete (st_db s')"
    by (simp add: burns_complete_def)
  ultimately show ?thesis ..
qed

lemma sync_next_complete:
  assumes "db_ok X cfg (st_db s)" and "mints_complete (st_db s)" "burns_complete (st_db s)"
    and "chain_at n (st_db s)" "n < 2 ^ 63" and "sync_next X (Some cfg) bd ts s = (Ok u, s')"
  shows "mints_complete (st_db s') \<and> burns_complete (st_db s')"
proof -
  obtain data s1 where sync: "sync_block_with_conn X (bd_block bd) (bd_contents bd) ts s = (Ok data, s1)"
    and audit: "audit_block_data X data cfg s1 = (Ok (), s')"
    using assms(6) by (auto elim: sync_next_OkE)
  from keepsD [OF sync_block_keeps_db_ok assms(1) sync] sync_block_opens [OF assms(1-5) sync]
  show ?thesis by (intro audit_block_completes [OF audit]) (simp_all add: db_ok_def)
qed

end

section \<open>Every reachable state\<close>

locale complete_audit = audit_run X cfg + audit_system X dec
  for X :: ext and cfg :: gnosis_safe_config and dec :: "json \<Rightarrow> (string, gnosis_transaction) res"

sublocale complete_audit \<subseteq> audit: step_invariant sys_init "sys_step X cfg js dec bc ts"
  "\<lambda>s. sys_inv X cfg bc ts s \<and> mints_complete (st_db s) \<and> burns_complete (st_db s)"
  for js bc ts
proof
  fix s assume init: "sys_init s"
  then have "db_ok X cfg (st_db s)" by (simp add: sys_init_def db_ok_empty)
  with init show "sys_inv X cfg bc ts s \<and> mints_complete (st_db s) \<and> burns_complete (st_db s)"
    by (simp add: sys_init_inv mints_complete_def burns_complete_def db_ok_def mints.complete_but_def
        burns.complete_but_def) (simp add: sys_init_def empty_database_def)
next
  fix s s' assume inv: "sys_inv X cfg bc ts s \<and> mints_complete (st_db s) \<and> burns_complete (st_db s)"
    and step: "sys_step X cfg js dec bc ts s s'"
  have "mints_complete (st_db s') \<and> burns_complete (st_db s')"
    using step
  proof (cases rule: sys_stepE)
    case (sync_block bd k r)
    obtain n where n: "n \<le> 2 ^ 63" "chain_at n (st_db s)" and ok: "db_ok X cfg (st_db s)"
      using inv by (auto simp: sys_inv_def)
    show ?thesis
    proof (cases "st_db s' = st_db s")
      case False
      from sync_block_changes [OF n ok sync_block(1,2) _ False] sync_block(3) have "r = Ok ()" "n < 2 ^ 63" by auto
      with sync_next_complete [OF ok _ _ n(2)] sync_block(1) inv show ?thesis by blast
    qed (use inv in simp)
  next
    case (gnosis safe tx r)
    have "keeps (\<lambda>s. mints_complete (st_db s) \<and> burns_complete (st_db s))
        (conn_transaction (process_transaction X js dec safe tx))"
      by (rule keeps_conn_transaction [where I = "\<lambda>d. mints_complete d \<and> burns_complete d"])
        (rule process_transaction_complete [OF gnosis(1)], rule dec_wf)
    from keepsD [OF this _ gnosis(2)] inv show ?thesis by simp
  qed (use inv in simp_all)
  with step_keeps_inv [OF conjunct1 [OF inv] step]
  show "sys_inv X cfg bc ts s' \<and> mints_complete (st_db s') \<and> burns_complete (st_db s')" ..
qed

context complete_audit
begin

lemma reachable_complete:
  assumes "sys_init s0" and "(sys_step X cfg js dec bc ts)\<^sup>*\<^sup>* s0 s"
  shows "mints_complete (st_db s)" and "burns_complete (st_db s)"
  using audit.reach_inv [OF assms] by simp_all

lemma links_iff_agree:
  assumes "sys_init s0" and "(sys_step X cfg js dec bc ts)\<^sup>*\<^sup>* s0 s"
  shows "m \<in> set (t_mint_txs (st_db s)) \<Longrightarrow> x \<in> set (t_gnosis_safe_deposits (st_db s)) \<Longrightarrow> \<exists>i j.
      mt_id m = Some i \<and> gsd_id x = Some j \<and> (mint_links (st_db s) i = Some j \<longleftrightarrow> mint_deposit_agree cfg m x)"
    and "b \<in> set (t_burn_tx_outs (st_db s)) \<Longrightarrow> w \<in> set (t_gnosis_safe_withdrawals (st_db s)) \<Longrightarrow>
      only_key gsw_mc_tx_out_public_key_hex (t_gnosis_safe_withdrawals (st_db s)) w \<Longrightarrow> \<exists>i j.
      bto_id b = Some i \<and> gsw_id w = Some j \<and> (burn_links (st_db s) i = Some j \<longleftrightarrow> burn_withdrawal_agree cfg b w)"
  using reachable_complete [OF assms] mints.links_exact [of "st_db s" m x, folded mint_links_def]
    burns.links_exact [of "st_db s" b w, folded burn_links_def]
  by (simp_all add: mints_complete_def burns_complete_def mint_side_ok_def mint_tables_ok_def only_key_distinct)

end

text \<open>C3: the audit is exact: in every reachable state, however the transactions of the ledger thread and
  the safe threads interleave, a stored mint is matched with a stored deposit if and only if the two
  agree (the nonce of the mint is the one derived from the deposit's hash, the amounts are equal and the token is
  the one configured for the deposit's contract), and a stored burn is matched with a stored withdrawal,
  the only one that names its output key, if and only if the two agree. No two configured safes have the
  same address.\<close>

theorem audit_exact:
  assumes "audit_system X dec" and "safes_distinct cfg" and "sys_init s0"
    and "(sys_step X cfg js dec bc ts)\<^sup>*\<^sup>* s0 s"
  shows "(\<forall>m \<in> set (t_mint_txs (st_db s)). \<forall>x \<in> set (t_gnosis_safe_deposits (st_db s)). \<exists>i j.
      mt_id m = Some i \<and> gsd_id x = Some j \<and> (mint_links (st_db s) i = Some j \<longleftrightarrow> mint_deposit_agree cfg m x))
    \<and> (\<forall>b \<in> set (t_burn_tx_outs (st_db s)). \<forall>w \<in> set (t_gnosis_safe_withdrawals (st_db s)).
      only_key gsw_mc_tx_out_public_key_hex (t_gnosis_safe_withdrawals (st_db s)) w \<longrightarrow>
      (\<exists>i j. bto_id b = Some i \<and> gsw_id w = Some j
        \<and> (burn_links (st_db s) i = Some j \<longleftrightarrow> burn_withdrawal_agree cfg b w)))"
proof -
  have "complete_audit X cfg dec"
    using assms(1,2) by (simp add: complete_audit_def audit_run_def audit_run_axioms_def audit_system_def)
  note exact = complete_audit.links_iff_agree [OF this assms(3,4)]
  then show ?thesis by simp
qed

end
