(* ===== verification/No_Panic.thy ===== *)
theory No_Panic
  imports System
begin

text \<open>
  The audit never gets in the way of the ledger. The transaction of a block stores the block and then tries to
  match each of its mints and burns; a panic there would roll the block back, and the loop would
  meet it again. Here: in every reachable state the matching functions return, and so the block's
  transaction succeeds exactly when storing the block does.
\<close>

section \<open>Computations that do not panic\<close>

definition no_panic :: "('s, 'e, 'a) comp \<Rightarrow> bool" where
  "no_panic m \<longleftrightarrow> (\<forall>s p s'. m s \<noteq> (Panic p, s'))"

named_theorems no_panic_intros "computations that never panic"

lemma no_panic_basic [no_panic_intros]:
  "no_panic (ret x)" "no_panic (throw e)" "no_panic (query f)" "no_panic (ok_or e y)"
  by (auto simp: no_panic_def comp_defs split: option.splits)

lemma no_panic_bnd [no_panic_intros]: "no_panic m \<Longrightarrow> (\<And>x. no_panic (f x)) \<Longrightarrow> no_panic (bnd m f)"
  unfolding no_panic_def by (metis bnd_eq_PanicE)

lemma no_panic_if [no_panic_intros]: "no_panic a \<Longrightarrow> no_panic b \<Longrightarrow> no_panic (if c then a else b)"
  by simp

lemma no_panic_impl_inc [no_panic_intros]: "no_panic (impl_inc upd)"
  unfolding impl_inc_def update_counters_def counters_get_def
  by (intro no_panic_intros) (simp_all add: no_panic_def)

lemma no_panic_counts [no_panic_intros]:
  "no_panic (count_deposit_error e)" "no_panic (count_mint_error e)"
  "no_panic (count_withdrawal_error e)" "no_panic (count_burn_error e)"
  by (cases e; simp add: inc_defs no_panic_impl_inc)+

lemma no_panic_verify:
  "no_panic (lift_res (verify_mint_tx_matches_deposit m x c))"
  "no_panic (lift_res (verify_burn_tx_out_matches_withdrawal b w c))"
  using verify_mint_outcomes [of m x c] verify_burn_outcomes [of b w c] by (auto simp: no_panic_def lift_res_def)

lemma no_panic_associate:
  "no_panic (associate_deposit_with_mint X j i)" "no_panic (associate_withdrawal_with_burn X j i)"
  by (simp_all add: no_panic_def associate_deposit_with_mint_def insert_into_audited_mints_def
      associate_withdrawal_with_burn_def insert_into_audited_burns_def am.insert_no_panic ab.insert_no_panic)

lemma count_errors_no_panic:
  assumes "\<And>p t. m s \<noteq> (Panic p, t)" and "\<And>e. no_panic (c e)"
  shows "count_errors c m s \<noteq> (Panic p, s')"
  using assms unfolding no_panic_def
  by (auto simp: count_errors_def bnd_def attempt_def throw_def ret_def split: prod.splits res.splits)

section \<open>The matching functions\<close>

text \<open>Rows found in a table have an id, which is what the \<open>expect\<close> calls rely on.\<close>

lemma panic_simps:
  "verify_mint_tx_matches_deposit m x c \<noteq> Panic p" "verify_burn_tx_out_matches_withdrawal b w c \<noteq> Panic p"
  "associate_deposit_with_mint X j i s \<noteq> (Panic p, s')" "associate_withdrawal_with_burn X j i s \<noteq> (Panic p, s')"
  using verify_mint_outcomes [of m x c] verify_burn_outcomes [of b w c] no_panic_associate
  by (auto simp: no_panic_def)

lemma found_rows:
  "find_unaudited_deposit_by_nonce n s = (Ok (first_row (filter (\<lambda>x. gsd_expected_mc_mint_tx_nonce_hex x = n
     \<and> \<not> deposit_is_audited (st_db s) x) (t_gnosis_safe_deposits (st_db s)))), s)"
  "find_unaudited_mint_tx_by_nonce n s = (Ok (first_row (filter (\<lambda>x. mt_nonce_hex x = n
     \<and> \<not> mint_is_audited (st_db s) x) (t_mint_txs (st_db s)))), s)"
  "find_unaudited_withdrawal_by_public_key n s = (Ok (first_row (filter (\<lambda>x. gsw_mc_tx_out_public_key_hex x = n
     \<and> \<not> withdrawal_is_audited (st_db s) x) (t_gnosis_safe_withdrawals (st_db s)))), s)"
  "find_unaudited_burn_tx_out_by_public_key n s = (Ok (first_row (filter (\<lambda>x. bto_public_key_hex x = n
     \<and> \<not> burn_is_audited (st_db s) x) (t_burn_tx_outs (st_db s)))), s)"
  by (simp_all add: find_unaudited_deposit_by_nonce_def find_unaudited_mint_tx_by_nonce_def
      find_unaudited_withdrawal_by_public_key_def find_unaudited_burn_tx_out_by_public_key_def)

lemma found_row_id: "ids_ok rid t \<Longrightarrow> first_row (filter P t) = Some r \<Longrightarrow> rid r \<noteq> None"
  by (auto simp: ids_ok_def dest!: first_row_Some)

lemmas match_tx_defs = match_mint_tx_def match_deposit_tx_def match_burn_tx_out_def match_withdrawal_tx_def
  deposit_getters withdrawal_getters mint_tx_id_def burn_tx_out_id_def

lemma match_tx_no_panic:
  "ids_ok gsd_id (t_gnosis_safe_deposits (st_db s)) \<Longrightarrow> match_mint_tx X m cfg i s \<noteq> (Panic p, s')"
  "ids_ok mt_id (t_mint_txs (st_db s)) \<Longrightarrow> match_deposit_tx X x c j s \<noteq> (Panic p, s')"
  "ids_ok gsw_id (t_gnosis_safe_withdrawals (st_db s)) \<Longrightarrow> match_burn_tx_out X b cfg i s \<noteq> (Panic p, s')"
  "ids_ok bto_id (t_burn_tx_outs (st_db s)) \<Longrightarrow> match_withdrawal_tx X w c j s \<noteq> (Panic p, s')"
  using no_panic_impl_inc [unfolded no_panic_def]
  by (auto simp: match_tx_defs bnd_def comp_defs query_def found_rows panic_simps inc_defs
      dest: found_row_id split: option.splits prod.splits res.splits)

lemma try_match_mint_no_panic:
  "ids_ok gsd_id (t_gnosis_safe_deposits (st_db s)) \<Longrightarrow> try_match_mint_with_deposit X m cfg s \<noteq> (Panic p, s')"
  unfolding try_match_mint_with_deposit_def
  by (rule count_errors_no_panic) (auto simp: no_panic_counts match_mint_with_deposit_def bnd_def comp_defs
      transaction_no_retry no_retry_match_tx conn_transaction_Panic match_tx_no_panic(1) split: option.splits)

lemma try_match_deposit_no_panic:
  "ids_ok mt_id (t_mint_txs (st_db s)) \<Longrightarrow> try_match_deposit_with_mint X x c s \<noteq> (Panic p, s')"
  unfolding try_match_deposit_with_mint_def
  by (rule count_errors_no_panic) (auto simp: no_panic_counts match_deposit_with_mint_def bnd_def comp_defs
      transaction_no_retry no_retry_match_tx conn_transaction_Panic match_tx_no_panic(2) split: option.splits)

lemma try_match_burn_no_panic:
  "ids_ok gsw_id (t_gnosis_safe_withdrawals (st_db s)) \<Longrightarrow> try_match_burn_with_withdrawal X b cfg s \<noteq> (Panic p, s')"
  unfolding try_match_burn_with_withdrawal_def
  by (rule count_errors_no_panic) (auto simp: no_panic_counts match_burn_with_withdrawal_def bnd_def comp_defs
      transaction_no_retry no_retry_match_burn_txs conn_transaction_Panic match_tx_no_panic(3) split: option.splits)

lemma try_match_withdrawal_no_panic:
  "ids_ok bto_id (t_burn_tx_outs (st_db s)) \<Longrightarrow> try_match_withdrawal_with_burn X w c s \<noteq> (Panic p, s')"
  unfolding try_match_withdrawal_with_burn_def
  by (rule count_errors_no_panic) (auto simp: no_panic_counts match_withdrawal_with_burn_def bnd_def comp_defs
      transaction_no_retry no_retry_match_burn_txs conn_transaction_Panic match_tx_no_panic(4) split: option.splits)

lemma match_no_panic:
  assumes "db_ok X cfg (st_db s)"
  shows "try_match_mint_with_deposit X m cfg' s \<noteq> (Panic p, s')"
    "try_match_deposit_with_mint X x c s \<noteq> (Panic p, s')"
    "try_match_burn_with_withdrawal X b cfg' s \<noteq> (Panic p, s')"
    "try_match_withdrawal_with_burn X w c s \<noteq> (Panic p, s')"
  using assms by (simp_all add: db_ok_def mint_side_ok_def mint_tables_ok_def burn_tables_ok_def
      try_match_mint_no_panic try_match_deposit_no_panic try_match_burn_no_panic try_match_withdrawal_no_panic)

section \<open>The audit of a block returns\<close>

lemma for_each_attempt_returns:
  assumes "\<And>x s p s'. x \<in> set xs \<Longrightarrow> I s \<Longrightarrow> f x s \<noteq> (Panic p, s')" and "\<And>x. x \<in> set xs \<Longrightarrow> keeps I (f x)" and "I s"
  shows "\<exists>s'. for_each (\<lambda>x. bnd (attempt (f x)) (\<lambda>_. ret ())) xs s = (Ok (), s')"
  using assms
proof (induction xs arbitrary: s)
  case (Cons x xs)
  obtain r t where run: "f x s = (r, t)" by fastforce
  have "r \<noteq> Panic p" for p using Cons.prems(1) [of x s p t] Cons.prems(3) run by auto
  moreover have "I t" using keepsD [OF Cons.prems(2) Cons.prems(3) run] by simp
  then have "\<exists>s'. for_each (\<lambda>x. bnd (attempt (f x)) (\<lambda>_. ret ())) xs t = (Ok (), s')"
    using Cons.prems(1,2) by (intro Cons.IH) auto
  ultimately show ?case
    using run by (cases r) (auto simp: bnd_def attempt_def ret_def)
qed (simp add: ret_def)

lemma audit_block_data_returns:
  assumes X: "ext_laws X" and ok: "db_ok X cfg (st_db s)" and ms: "set (sbd_mint_txs data) \<subseteq> set (t_mint_txs (st_db s))"
    and bs: "set (sbd_burn_tx_outs data) \<subseteq> set (t_burn_tx_outs (st_db s))"
  shows "\<exists>s'. audit_block_data X data cfg s = (Ok (), s')"
proof -
  let ?M = "\<lambda>s. db_ok X cfg (st_db s) \<and> set (sbd_mint_txs data) \<subseteq> set (t_mint_txs (st_db s))"
  let ?B = "\<lambda>s. db_ok X cfg (st_db s) \<and> set (sbd_burn_tx_outs data) \<subseteq> set (t_burn_tx_outs (st_db s))"
  let ?mints = "for_each (\<lambda>m. bnd (attempt (try_match_mint_with_deposit X m cfg)) (\<lambda>_. ret ())) (sbd_mint_txs data)"
  have "\<exists>t. ?mints s = (Ok (), t)"
    by (rule for_each_attempt_returns [where I = ?M]) (use ok ms in \<open>auto simp: match_no_panic keeps_mint_part X\<close>)
  then obtain t where mints: "?mints s = (Ok (), t)" by blast
  have keep: "keeps ?M ?mints"
    by (intro keeps_for_each keeps_bnd keeps_attempt keeps_ret keeps_mint_part X)
  have "keeps (\<lambda>s. set (sbd_burn_tx_outs data) \<subseteq> set (t_burn_tx_outs (st_db s))) ?mints"
    by (intro keeps_for_each keeps_bnd keeps_attempt keeps_ret keeps_try_match_mint) simp_all
  from keepsD [OF this bs mints] keepsD [OF keep _ mints] ok ms have "?B t" by simp
  then have "\<exists>s'. for_each (\<lambda>b. bnd (attempt (try_match_burn_with_withdrawal X b cfg)) (\<lambda>_. ret ()))
      (sbd_burn_tx_outs data) t = (Ok (), s')"
    by (intro for_each_attempt_returns [where I = ?B]) (auto simp: match_no_panic keeps_burn_part X)
  with mints show ?thesis by (simp add: audit_block_data_def)
qed

section \<open>Every reachable state\<close>

lemma sync_next_like_sync_block:
  assumes X: "ext_laws X" and inv: "sys_inv X cfg bc ts s" and k: "blk_index (bd_block bd) = of_nat k" "k < 2 ^ 63"
  shows "fst (sync_next X (Some cfg) bd t s) = (case fst (sync_block_with_conn X (bd_block bd) (bd_contents bd) t s) of
    Ok _ \<Rightarrow> Ok () | Err e \<Rightarrow> Err e | Panic p \<Rightarrow> Panic p)"
proof -
  obtain n where n: "n \<le> 2 ^ 63" "chain_at n (st_db s)" and ok: "db_ok X cfg (st_db s)"
    using inv by (auto simp: sys_inv_def)
  obtain c where c: "t_counters (st_db s) = [c]" "num_blocks_synced c = int n" and chain: "chain_ok (st_db s)"
    using n(2) by (auto simp: chain_at_def)
  let ?sync = "sync_block_with_conn X (bd_block bd) (bd_contents bd) t s"
  show ?thesis
  proof (cases "fst ?sync")
    case (Ok data)
    then obtain s1 where sync: "?sync = (Ok data, s1)" by (metis prod.collapse)
    have "blk_index (bd_block bd) = as_u64 (num_blocks_synced c)"
      using sync_block_refused [OF c(1)] sync by fastforce
    then have "unat (of_nat k :: u64) = unat (of_nat n :: u64)" using k(1) c(2) by simp
    with k(2) n(1) have "n < 2 ^ 63" by (simp add: unat_of_nat)
    then have bound: "num_blocks_synced c < 2 ^ 63"
      using c(2) by (metis of_nat_less_iff of_nat_numeral of_nat_power)
    have ids: "ids_ok mc_id (t_mint_configs (st_db s))" using ok by (simp add: db_ok_def config_tables_ok_def)
    have "db_ok X cfg (st_db s1)" by (rule keepsD [OF ext_laws.sync_block_keeps_db_ok [OF X] ok sync])
    moreover have "set (sbd_mint_txs data) \<subseteq> set (t_mint_txs (st_db s1))"
      "set (sbd_burn_tx_outs data) \<subseteq> set (t_burn_tx_outs (st_db s1))"
      by (rule sync_block_OkE [OF chain c(1) bound ids ext_laws.rowid [OF X] sync]; simp)+
    ultimately obtain s2 where "audit_block_data X data cfg s1 = (Ok (), s2)"
      using audit_block_data_returns [OF X] by blast
    with sync show ?thesis by (simp add: sync_next_def conn_transaction_def)
  next
    case (Err e)
    then obtain s1 where "?sync = (Err e, s1)" by (metis prod.collapse)
    then show ?thesis by (simp add: sync_next_def conn_transaction_def)
  next
    case (Panic p)
    then obtain s1 where "?sync = (Panic p, s1)" by (metis prod.collapse)
    then show ?thesis by (simp add: sync_next_def conn_transaction_def)
  qed
qed

text \<open>C11: the audit never gets in the way of the ledger: in every reachable state, the transaction that stores a
  block and audits it ends the way storing the block alone does: with success whatever the audit finds, or
  with the same error. No matching function panics, whatever it is called with.\<close>

theorem audit_never_blocks:
  assumes "audit_system X dec" and "sys_init s0" and "(sys_step X cfg js dec bc ts)\<^sup>*\<^sup>* s0 s"
    and "blk_index (bd_block bd) = of_nat k" and "k < 2 ^ 63"
  shows "fst (sync_next X (Some cfg) bd t s) =
      (case fst (sync_block_with_conn X (bd_block bd) (bd_contents bd) t s) of
         Ok _ \<Rightarrow> Ok () | Err e \<Rightarrow> Err e | Panic p \<Rightarrow> Panic p)
    \<and> (\<forall>p m x c. fst (try_match_mint_with_deposit X m cfg s) \<noteq> Panic p \<and> fst (try_match_deposit_with_mint X x c s) \<noteq> Panic p)
    \<and> (\<forall>p b w c. fst (try_match_burn_with_withdrawal X b cfg s) \<noteq> Panic p \<and> fst (try_match_withdrawal_with_burn X w c s) \<noteq> Panic p)"
proof -
  have inv: "sys_inv X cfg bc ts s" by (rule audit_system.reachable_inv [OF assms(1-3)])
  then have "db_ok X cfg (st_db s)" by (simp add: sys_inv_def)
  note sync_next_like_sync_block [OF audit_system.axioms(1) [OF assms(1)] inv assms(4,5)] match_no_panic [OF this]
  then show ?thesis by (metis prod.collapse)
qed

end
