(* ===== verification/Examples.thy ===== *)
theory Examples
  imports Ext_Ref Audit_Complete No_Panic
begin

text \<open>
  Concrete instances: for the properties that have hypotheses, a state and inputs at which all of
  them hold. The scenario is a safe that audits one token, a deposit of five units with the mint it
  funds, and a burn of three units with the withdrawal it allows.
\<close>

section \<open>The scenario\<close>

definition demo_address :: "u8 \<Rightarrow> eth_addr" where
  "demo_address b = EthAddr (''0x'' @ hex_encode_ref (replicate 20 b))"

definition demo_token :: audited_token where
  "demo_token = \<lparr>at_token_id = 1, at_token_type = ''erc20'', at_eth_token_contract_addrs = [demo_address 0xA0],
     at_name = ''Demo'', at_symbol = ''DEMO'', at_decimals = 18, at_logo_uri = '''',
     at_aux_burn_contract_addr = demo_address 0xB0, at_aux_burn_function_sig = [1, 2, 3, 4]\<rparr>"

definition demo_safe :: audited_safe_config where
  "demo_safe = \<lparr>asc_safe_addr = demo_address 0x5A, asc_api_url = ''http://localhost'',
     asc_tokens = [demo_token], asc_token_decimals_max = 6\<rparr>"

definition demo_config :: gnosis_safe_config where
  "demo_config = \<lparr>gsc_safes = [demo_safe]\<rparr>"

definition demo_hash :: eth_tx_hash where
  "demo_hash = EthTxHash (replicate 32 7)"

definition demo_deposit :: gnosis_safe_deposit where
  "demo_deposit = gnosis_safe_deposit_new ext_ref (Some 1) demo_hash 0 (EthTxValue 5000000000000) 10
     (demo_address 0x5A) (demo_address 0xA0) (demo_address 0xC0) 5"

definition demo_mint :: mint_tx where
  "demo_mint = \<lparr>mt_id = Some 1, mt_block_index = 0, mt_block_timestamp = None, mt_token_id = 1,
     mt_amount = 5, mt_nonce_hex = gsd_expected_mc_mint_tx_nonce_hex demo_deposit,
     mt_recipient_b58_addr = ''address'', mt_tombstone_block = 100, mt_protobuf = [],
     mt_mint_config_id = None\<rparr>"

definition demo_withdrawal :: gnosis_safe_withdrawal where
  "demo_withdrawal = gnosis_safe_withdrawal_new (Some 1) demo_hash 0 (EthTxValue 3000000000000) 11
     (demo_address 0x5A) (demo_address 0xA0) (demo_address 0xD0) 3 ''0909''"

definition demo_burn :: burn_tx_out where
  "demo_burn = \<lparr>bto_id = Some 1, bto_block_index = 0, bto_block_timestamp = None, bto_token_id = 1,
     bto_amount = 3, bto_public_key_hex = ''0909'', bto_protobuf = []\<rparr>"

definition demo_db :: database where
  "demo_db = empty_database\<lparr>t_counters := [counters_default], t_mint_txs := [demo_mint],
     t_gnosis_safe_deposits := [demo_deposit], t_burn_tx_outs := [demo_burn],
     t_gnosis_safe_withdrawals := [demo_withdrawal]\<rparr>"

definition demo_state :: state where
  "demo_state = initial_state\<lparr>st_db := demo_db\<rparr>"

lemma demo_tables [simp]:
  "st_db demo_state = demo_db" "t_mint_txs demo_db = [demo_mint]" "t_burn_tx_outs demo_db = [demo_burn]"
  "t_gnosis_safe_deposits demo_db = [demo_deposit]" "t_gnosis_safe_withdrawals demo_db = [demo_withdrawal]"
  "t_audited_mints demo_db = []" "t_audited_burns demo_db = []" "t_counters demo_db = [counters_default]"
  by (simp_all add: demo_state_def demo_db_def empty_database_def)

lemma demo_ids [simp]:
  "mt_id demo_mint = Some 1" "gsd_id demo_deposit = Some 1" "bto_id demo_burn = Some 1"
  "gsw_id demo_withdrawal = Some 1" "gsd_safe_addr demo_deposit = demo_address 0x5A"
  "gsw_safe_addr demo_withdrawal = demo_address 0x5A" "gsc_safes demo_config = [demo_safe]"
  "asc_safe_addr demo_safe = demo_address 0x5A" "asc_tokens demo_safe = [demo_token]"
  by (simp_all add: demo_mint_def demo_deposit_def demo_burn_def demo_withdrawal_def demo_config_def
      demo_safe_def gnosis_safe_deposit_new_def gnosis_safe_withdrawal_new_def)

lemma demo_unaudited [simp]:
  "\<not> mint_is_audited demo_db m" "\<not> deposit_is_audited demo_db x" "\<not> burn_is_audited demo_db b"
  "\<not> withdrawal_is_audited demo_db w"
  by (simp_all add: mint_is_audited_def deposit_is_audited_def burn_is_audited_def withdrawal_is_audited_def)

lemma demo_token_found: "get_token_by_eth_contract_addr demo_safe (demo_address 0xA0) = Some demo_token"
  by (simp add: get_token_by_eth_contract_addr_def demo_token_def addrs_contain_def)

lemma demo_safe_found: "get_audited_safe_config_by_safe_addr demo_config (demo_address 0x5A) = Some demo_safe"
  by (simp add: get_audited_safe_config_by_safe_addr_def)

lemma small_as_u64: "as_u64 1 = 1" "as_u64 5 = 5" "as_u64 3 = 3"
  by (simp_all add: as_u64_def)

lemma demo_verify: "verify_mint_tx_matches_deposit demo_mint demo_deposit demo_safe = Ok ()"
proof -
  have tok: "gsd_token_addr demo_deposit = demo_address 0xA0"
    by (simp add: demo_deposit_def gnosis_safe_deposit_new_def)
  show ?thesis
    by (simp add: verify_mint_Ok tok demo_token_found demo_token_def mint_tx_token_id_def mint_tx_amount_def
        deposit_amount_def demo_mint_def)
      (simp add: demo_deposit_def gnosis_safe_deposit_new_def small_as_u64)
qed

lemma demo_verify_burn: "verify_burn_tx_out_matches_withdrawal demo_burn demo_withdrawal demo_safe = Ok ()"
proof -
  have tok: "gsw_token_addr demo_withdrawal = demo_address 0xA0"
    by (simp add: demo_withdrawal_def gnosis_safe_withdrawal_new_def)
  show ?thesis
    by (simp add: verify_burn_Ok tok demo_token_found demo_token_def burn_tx_out_token_id_def
        burn_tx_out_amount_def withdrawal_amount_def demo_burn_def)
      (simp add: demo_withdrawal_def gnosis_safe_withdrawal_new_def small_as_u64)
qed

lemma demo_mint_tables: "mint_tables_ok demo_config demo_db"
  by (simp add: mint_tables_ok_def audited_mints_ok_def audits_ok_def ids_ok_def)

lemma demo_burn_tables: "burn_tables_ok demo_config demo_db"
  by (simp add: burn_tables_ok_def audited_burns_ok_def audits_ok_def ids_ok_def)

lemma demo_match:
  obtains s' where "try_match_deposit_with_mint ext_ref demo_deposit demo_safe demo_state = (Ok demo_mint, s')"
    and "try_match_mint_with_deposit ext_ref demo_mint demo_config demo_state = (Ok demo_deposit, s')"
  using match_pair_run [of demo_config demo_state ext_ref demo_mint demo_deposit demo_safe] demo_mint_tables
    ref.rowid demo_safe_found demo_verify by auto

lemma demo_burn_match:
  obtains s' where "try_match_withdrawal_with_burn ext_ref demo_withdrawal demo_safe demo_state = (Ok demo_burn, s')"
    and "try_match_burn_with_withdrawal ext_ref demo_burn demo_config demo_state = (Ok demo_withdrawal, s')"
  using match_burn_pair_run [of demo_config demo_state ext_ref demo_burn demo_withdrawal demo_safe] demo_burn_tables
    ref.rowid demo_safe_found demo_verify_burn by auto

section \<open>Values\<close>

theorem eth_addr_eq_same_bytes_witness:
  "eth_addr_eq (EthAddr (''0x'' @ replicate 40 (CHR ''A''))) (EthAddr (''0x'' @ replicate 40 (CHR ''a'')))"
proof -
  let ?A = "''0x'' @ replicate 40 (CHR ''A'')" and ?a = "''0x'' @ replicate 40 (CHR ''a'')"
  have dec: "hex_decode_ref (replicate 40 (CHR ''A'')) = Ok (replicate 20 170)"
    "hex_decode_ref (replicate 40 (CHR ''a'')) = Ok (replicate 20 170)"
    by (simp_all add: numeral_eq_Suc hex_value_def)
  have "eth_addr_from_str ext_ref ?A = Ok (EthAddr ?A)" "eth_addr_from_str ext_ref ?a = Ok (EthAddr ?a)"
    using dec by (simp_all add: eth_addr_from_str_Ok starts_with_def ETH_ADDR_LEN_def)
  from eth_addr_eq_same_bytes [OF ref.hex this] dec show ?thesis by simp
qed

theorem mint_tx_nonce_roundtrip_witness:
  "mint_tx_nonce_try_from ext_ref (mint_tx_nonce_to_bytes (EthereumGnosisDeposit demo_hash))
     = Ok (EthereumGnosisDeposit demo_hash)"
  using mint_tx_nonce_roundtrip [of demo_hash] by (simp add: demo_hash_def eth_tx_hash_wf_def ETH_TX_HASH_LEN_def)

theorem truncate_value_floor_witness:
  "\<exists>w. truncate_value (EthTxValue 5999999999999) 18 6 = (Ok w :: (error, u64) res) \<and> unat w = 5"
proof -
  have "(6 :: u8) < 18" by simp
  moreover have "(12 :: nat) = unat (18 :: u8) - unat (6 :: u8)" by simp
  moreover have "(12 :: nat) \<le> 38" by simp
  moreover have "(5999999999999 :: nat) = unat (eth_tx_value_u128 (EthTxValue 5999999999999))" by simp
  ultimately show ?thesis
    using truncate_value_floor [of 6 18 12 5999999999999 "EthTxValue 5999999999999"] by auto
qed

section \<open>Deposits and mints\<close>

text \<open>The scenario after the match, and before the mint is known.\<close>

definition demo_matched :: state where
  "demo_matched = demo_state\<lparr>st_db := demo_db\<lparr>
     t_audited_mints := [\<lparr>am_id = Some 1, am_mint_tx_id = 1, am_gnosis_safe_deposit_id = 1\<rparr>],
     t_audited_burns := [\<lparr>ab_id = Some 1, ab_burn_tx_out_id = 1, ab_gnosis_safe_withdrawal_id = 1\<rparr>]\<rparr>\<rparr>"

theorem match_deposit_success_witness:
  "\<exists>s'. try_match_deposit_with_mint ext_ref demo_deposit demo_safe demo_state = (Ok demo_mint, s')
     \<and> linked_by demo_config demo_mint demo_deposit demo_db (st_db s') \<and> mint_tables_ok demo_config (st_db s')
     \<and> inj_on (mint_links (st_db s')) (dom (mint_links (st_db s')))"
proof -
  obtain s' where run: "try_match_deposit_with_mint ext_ref demo_deposit demo_safe demo_state = (Ok demo_mint, s')"
    by (rule demo_match)
  from match_deposit_success [OF _ ref.rowid _ _ run, of demo_config] demo_mint_tables run show ?thesis by auto
qed

theorem match_mint_success_witness:
  "\<exists>s'. try_match_mint_with_deposit ext_ref demo_mint demo_config demo_state = (Ok demo_deposit, s')
     \<and> linked_by demo_config demo_mint demo_deposit demo_db (st_db s') \<and> mint_tables_ok demo_config (st_db s')
     \<and> inj_on (mint_links (st_db s')) (dom (mint_links (st_db s')))"
proof -
  obtain s' where run: "try_match_mint_with_deposit ext_ref demo_mint demo_config demo_state = (Ok demo_deposit, s')"
    by (rule demo_match)
  from match_mint_success [OF _ ref.rowid _ run] demo_mint_tables run show ?thesis by auto
qed

text \<open>Objects that were never saved: both directions fail and are counted.\<close>

theorem match_errors_counted_witness:
  "\<exists>s'. try_match_deposit_with_mint ext_ref (demo_deposit\<lparr>gsd_id := None\<rparr>) demo_safe demo_state
      = (Err ObjectNotSaved, s')
     \<and> t_counters (st_db s') = [counters_default\<lparr>num_unexpected_errors_matching_deposits_to_mints := 1\<rparr>]"
proof -
  let ?x = "demo_deposit\<lparr>gsd_id := None\<rparr>"
  have "fst (try_match_deposit_with_mint ext_ref ?x demo_safe demo_state) = Err ObjectNotSaved"
    by (simp add: try_match_deposit_with_mint_def match_deposit_with_mint_def deposit_id_def ok_or_def
        count_errors_def throw_def inc_defs)
  then obtain s' where run: "try_match_deposit_with_mint ext_ref ?x demo_safe demo_state = (Err ObjectNotSaved, s')"
    by (metis prod.collapse)
  with match_errors_counted [of demo_state counters_default ext_ref ?x demo_safe ObjectNotSaved s'
      demo_mint demo_config] show ?thesis by (simp add: counters_default_def)
qed

lemma match_order_irrelevant_example:
  "\<exists>s'. try_match_deposit_with_mint ext_ref demo_deposit demo_safe demo_state = (Ok demo_mint, s')
    \<and> try_match_mint_with_deposit ext_ref demo_mint demo_config demo_state = (Ok demo_deposit, s')
    \<and> linked_by demo_config demo_mint demo_deposit demo_db (st_db s')"
  using match_order_irrelevant [of demo_config demo_state ext_ref demo_mint demo_deposit demo_safe]
    demo_mint_tables ref.rowid demo_safe_found demo_verify by simp

lemma demo_mint_matched: "mint_tables_ok demo_config (st_db demo_matched)"
proof -
  have "mint_deposit_agree demo_config demo_mint demo_deposit"
    by (rule verify_mint_agree [OF demo_verify]) simp
  then show ?thesis
    by (simp add: demo_matched_def mint_tables_ok_def audited_mints_ok_def audits_ok_def ids_ok_def)
qed

theorem match_again_fails_witness:
  "\<exists>msg s'. try_match_deposit_with_mint ext_ref demo_deposit demo_safe demo_matched = (Err (AlreadyExists msg), s')
     \<and> t_counters (st_db s') = [counters_default\<lparr>num_unexpected_errors_matching_deposits_to_mints := 1\<rparr>]"
proof -
  have "deposit_is_audited (st_db demo_matched) demo_deposit"
    by (simp add: demo_matched_def deposit_is_audited_def)
  with match_again_fails [OF demo_mint_matched, of counters_default demo_deposit 1 demo_safe ext_ref
      demo_mint 1 demo_config]
  show ?thesis by (auto simp: demo_matched_def counters_default_def)
qed

section \<open>Withdrawals and burns\<close>

theorem match_withdrawal_success_witness:
  "\<exists>s'. try_match_withdrawal_with_burn ext_ref demo_withdrawal demo_safe demo_state = (Ok demo_burn, s')
     \<and> burn_linked_by demo_config demo_burn demo_withdrawal demo_db (st_db s') \<and> burn_tables_ok demo_config (st_db s')
     \<and> inj_on (burn_links (st_db s')) (dom (burn_links (st_db s')))"
proof -
  obtain s' where run: "try_match_withdrawal_with_burn ext_ref demo_withdrawal demo_safe demo_state = (Ok demo_burn, s')"
    by (rule demo_burn_match)
  from match_withdrawal_success [OF _ ref.rowid _ _ run, of demo_config] demo_burn_tables run show ?thesis by auto
qed

theorem match_burn_success_witness:
  "\<exists>s'. try_match_burn_with_withdrawal ext_ref demo_burn demo_config demo_state = (Ok demo_withdrawal, s')
     \<and> burn_linked_by demo_config demo_burn demo_withdrawal demo_db (st_db s') \<and> burn_tables_ok demo_config (st_db s')
     \<and> inj_on (burn_links (st_db s')) (dom (burn_links (st_db s')))"
proof -
  obtain s' where run: "try_match_burn_with_withdrawal ext_ref demo_burn demo_config demo_state = (Ok demo_withdrawal, s')"
    by (rule demo_burn_match)
  from match_burn_success [OF _ ref.rowid _ run] demo_burn_tables run show ?thesis by auto
qed

lemma match_burn_errors_counted_example:
  "\<exists>s'. try_match_burn_with_withdrawal ext_ref (demo_burn\<lparr>bto_id := None\<rparr>) demo_config demo_state
      = (Err ObjectNotSaved, s')
     \<and> t_counters (st_db s') = [counters_default\<lparr>num_unexpected_errors_matching_burns_to_withdrawals := 1\<rparr>]"
proof -
  let ?b = "demo_burn\<lparr>bto_id := None\<rparr>"
  have "fst (try_match_burn_with_withdrawal ext_ref ?b demo_config demo_state) = Err ObjectNotSaved"
    by (simp add: try_match_burn_with_withdrawal_def match_burn_with_withdrawal_def burn_tx_out_id_def ok_or_def
        count_errors_def throw_def inc_defs)
  then obtain s' where run: "try_match_burn_with_withdrawal ext_ref ?b demo_config demo_state
      = (Err ObjectNotSaved, s')"
    by (metis prod.collapse)
  with match_burn_errors_counted [of demo_state counters_default ext_ref demo_withdrawal demo_safe ObjectNotSaved s'
      ?b demo_config] show ?thesis by (simp add: counters_default_def)
qed

lemma match_burn_order_irrelevant_example:
  "\<exists>s'. try_match_withdrawal_with_burn ext_ref demo_withdrawal demo_safe demo_state = (Ok demo_burn, s')
    \<and> try_match_burn_with_withdrawal ext_ref demo_burn demo_config demo_state = (Ok demo_withdrawal, s')
    \<and> burn_linked_by demo_config demo_burn demo_withdrawal demo_db (st_db s')"
  using match_burn_order_irrelevant [of demo_config demo_state ext_ref demo_burn demo_withdrawal demo_safe]
    demo_burn_tables ref.rowid demo_safe_found demo_verify_burn by simp

text \<open>Two withdrawals that name the same output, the first with another amount: the burn is not matched.\<close>

definition demo_other_withdrawal :: gnosis_safe_withdrawal where
  "demo_other_withdrawal = demo_withdrawal\<lparr>gsw_id := Some 2, gsw_amount := 4\<rparr>"

definition demo_twice :: state where
  "demo_twice = demo_state\<lparr>st_db := demo_db\<lparr>t_gnosis_safe_withdrawals := [demo_other_withdrawal, demo_withdrawal]\<rparr>\<rparr>"

theorem earlier_withdrawal_blocks_witness:
  "(\<exists>msg s'. try_match_burn_with_withdrawal ext_ref demo_burn demo_config demo_twice
      = (Err (WithdrawalAndBurnMismatch msg), s')
     \<and> t_audited_burns (st_db s') = [])
   \<and> (\<exists>s'. try_match_withdrawal_with_burn ext_ref demo_withdrawal demo_safe demo_twice = (Ok demo_burn, s'))"
proof -
  have ok: "burn_tables_ok demo_config (st_db demo_twice)" "t_counters (st_db demo_twice) = [counters_default]"
    "demo_burn \<in> set (t_burn_tx_outs (st_db demo_twice))" "\<not> burn_is_audited (st_db demo_twice) demo_burn"
    "demo_withdrawal \<in> set (t_gnosis_safe_withdrawals (st_db demo_twice))"
    "\<not> withdrawal_is_audited (st_db demo_twice) demo_withdrawal" "demo_safe \<in> set (gsc_safes demo_config)"
    using demo_burn_tables
    by (auto simp: demo_twice_def burn_tables_ok_def audited_burns_ok_def audits_ok_def ids_ok_def
        demo_other_withdrawal_def burn_is_audited_def withdrawal_is_audited_def)
  have same: "gsw_safe_addr demo_other_withdrawal = demo_address 0x5A"
    "gsw_mc_tx_out_public_key_hex demo_other_withdrawal = bto_public_key_hex demo_burn"
    "gsw_token_addr demo_other_withdrawal = gsw_token_addr demo_withdrawal"
    using demo_verify_burn by (simp_all add: demo_other_withdrawal_def verify_burn_Ok)
  then have first: "first_row (filter (\<lambda>y. gsw_mc_tx_out_public_key_hex y = bto_public_key_hex demo_burn
      \<and> \<not> withdrawal_is_audited (st_db demo_twice) y) (t_gnosis_safe_withdrawals (st_db demo_twice)))
      = Some demo_other_withdrawal"
    by (simp add: demo_twice_def withdrawal_is_audited_def first_row_def)
  have lookup: "get_audited_safe_config_by_safe_addr demo_config (gsw_safe_addr demo_other_withdrawal) = Some demo_safe"
    using demo_safe_found same by simp
  have "withdrawal_amount demo_withdrawal = 3" "withdrawal_amount demo_other_withdrawal = 4"
    by (simp_all add: demo_other_withdrawal_def demo_withdrawal_def gnosis_safe_withdrawal_new_def withdrawal_amount_def
        as_u64_def as_i64_def)
  moreover obtain tok where "get_token_by_eth_contract_addr demo_safe (gsw_token_addr demo_withdrawal) = Some tok"
    "at_token_id tok = burn_tx_out_token_id demo_burn" "burn_tx_out_amount demo_burn = withdrawal_amount demo_withdrawal"
    using demo_verify_burn by (auto simp: verify_burn_Ok)
  ultimately obtain msg where "verify_burn_tx_out_matches_withdrawal demo_burn demo_other_withdrawal demo_safe
      = Err (WithdrawalAndBurnMismatch msg)"
    using same by (simp add: verify_burn_tx_out_matches_withdrawal_def Let_def withdrawal_getters res_ok_or_def
        burn_tx_out_public_key_hex_def)
  from earlier_withdrawal_blocks [OF ok(1) ref.rowid ok(2-7) demo_verify_burn first lookup this] show ?thesis
    by (auto simp: demo_twice_def)
qed

lemma demo_burn_matched: "burn_tables_ok demo_config (st_db demo_matched)"
proof -
  have "burn_withdrawal_agree demo_config demo_burn demo_withdrawal"
    by (rule verify_burn_agree [OF demo_verify_burn]) simp
  then show ?thesis
    by (simp add: demo_matched_def burn_tables_ok_def audited_burns_ok_def audits_ok_def ids_ok_def)
qed

lemma match_burn_again_fails_example:
  "\<exists>msg s'. try_match_withdrawal_with_burn ext_ref demo_withdrawal demo_safe demo_matched
      = (Err (AlreadyExists msg), s')
     \<and> t_counters (st_db s') = [counters_default\<lparr>num_unexpected_errors_matching_withdrawals_to_burns := 1\<rparr>]"
proof -
  have "withdrawal_is_audited (st_db demo_matched) demo_withdrawal"
    by (simp add: demo_matched_def withdrawal_is_audited_def)
  with match_burn_again_fails [OF demo_burn_matched, of counters_default demo_withdrawal 1 demo_safe ext_ref
      demo_burn 1 demo_config]
  show ?thesis by (auto simp: demo_matched_def counters_default_def)
qed

section \<open>Blocks\<close>

text \<open>The first block: a mint config transaction for the token, a mint of five units and an output
  that burns three of them. No config transaction precedes the block, so the mint is counted as one
  without a configuration.\<close>

definition demo_block :: block where
  "demo_block = \<lparr>blk_index = 0, blk_rest = []\<rparr>"

definition demo_nonce :: bytes where
  "demo_nonce = mint_tx_nonce_to_bytes (EthereumGnosisDeposit demo_hash)"

definition demo_core_mint :: core_mint_tx where
  "demo_core_mint = \<lparr>cmt_prefix = \<lparr>mtp_token_id = 1, mtp_amount = 5, mtp_view_public_key = [],
     mtp_spend_public_key = [], mtp_nonce = demo_nonce, mtp_tombstone_block = 100\<rparr>, cmt_signature = [42]\<rparr>"

definition demo_contents :: block_contents where
  "demo_contents = \<lparr>bc_validated_mint_config_txs = [\<lparr>cmct_token_id = 1, cmct_configs =
       [\<lparr>cmc_token_id = 1, cmc_signer_set = [42], cmc_mint_limit = 50\<rparr>], cmct_nonce = [2],
       cmct_total_mint_limit = 80, cmct_tombstone_block = 100, cmct_rest = []\<rparr>],
     bc_mint_txs = [demo_core_mint], bc_outputs = [\<lparr>to_public_key = [9], to_rest = [3, 1]\<rparr>]\<rparr>"

definition demo_start :: state where
  "demo_start = initial_state\<lparr>st_db := empty_database\<lparr>t_counters := [counters_default]\<rparr>\<rparr>"

lemmas demo_block_defs = demo_block_def demo_core_mint_def demo_contents_def demo_start_def initial_state_def
  empty_database_def counters_default_def

lemmas insert_defs = insert_from_core_mint_config_tx_def mint_config_tx_insert_def from_core_mint_config_tx_def
  insert_into_mint_config_txs_def insert_from_core_mint_config_def mint_config_insert_def from_core_mint_config_def
  insert_into_mint_configs_def insert_from_core_mint_tx_def from_core_mint_tx_def mint_tx_insert_def
  insert_into_mint_txs_def burn_tx_out_insert_def insert_into_burn_tx_outs_def sql_insert_def row_ids_def
  rowid_ref_def last_insert_rowid_def

lemma demo_ext [simp]:
  "b58_address ext_ref spend view = Ok ''address''"
  "view_key_match_burn ext_ref \<lparr>to_public_key = k, to_rest = [3, 1]\<rparr> = Ok \<lparr>amt_value = 3, amt_token_id = 1\<rparr>"
  by (simp_all add: ext_ref_def)

lemma demo_decode [simp]: "decode_mint_config_tx ext_ref (encode_mint_config_tx ext_ref t) = Ok t"
  by (rule msg_codec.dec_enc [OF ref.config_tx_codec])

lemma small_as_i64: "as_i64 0 = 0" "as_i64 1 = 1" "as_i64 3 = 3"
  by (simp_all add: as_i64_def)

text \<open>The block can be stored by any process that has synced nothing yet.\<close>

definition demo_fresh :: "database \<Rightarrow> bool" where
  "demo_fresh d \<longleftrightarrow> chain_at 0 d \<and> t_mint_configs d = [] \<and> t_mint_config_txs d = [] \<and> t_mint_txs d = []
     \<and> t_burn_tx_outs d = [] \<and> t_block_audit_data d = [] \<and> t_block_balance d = []"

lemma demo_start_fresh: "demo_fresh (st_db demo_start)"
  using chain_at_initial by (simp add: demo_fresh_def demo_start_def) (simp add: empty_database_def)

lemma demo_fresh_counters: "demo_fresh (st_db s) \<Longrightarrow> \<exists>k. t_counters (st_db s) = [k] \<and> num_blocks_synced k = 0"
  by (auto simp: demo_fresh_def chain_at_def)

lemma demo_configs_run:
  assumes "demo_fresh (st_db s)"
  shows "\<exists>s1. for_each (\<lambda>mint_config_tx. bnd (insert_from_core_mint_config_tx ext_ref 0 None mint_config_tx) (\<lambda>_. ret ()))
      (bc_validated_mint_config_txs demo_contents) s = (Ok (), s1)
    \<and> t_mint_txs (st_db s1) = [] \<and> t_burn_tx_outs (st_db s1) = [] \<and> t_block_audit_data (st_db s1) = []
    \<and> t_block_balance (st_db s1) = [] \<and> t_counters (st_db s1) = t_counters (st_db s)
    \<and> filter (\<lambda>t. mct_block_index t < 0) (t_mint_config_txs (st_db s1)) = []"
  using assms unfolding demo_fresh_def
  by (simp add: demo_contents_def insert_defs ret_def lift_res_def mint_config_tx_decode_def List.map_filter_def small_as_i64)

lemma demo_mint_run:
  assumes "t_mint_txs (st_db s1) = []" and "t_counters (st_db s1) = [k0]" "num_blocks_synced k0 = 0"
    and "filter (\<lambda>t. mct_block_index t < 0) (t_mint_config_txs (st_db s1)) = []"
  shows "\<exists>s2 row. fold_m (sync_mint ext_ref 0 None) (bc_mint_txs demo_contents) ([], []) s1
      = (Ok ([(1, 5)], [row]), s2)
    \<and> t_burn_tx_outs (st_db s2) = t_burn_tx_outs (st_db s1)
    \<and> t_block_audit_data (st_db s2) = t_block_audit_data (st_db s1)
    \<and> t_block_balance (st_db s2) = t_block_balance (st_db s1)
    \<and> (\<exists>k. t_counters (st_db s2) = [k] \<and> num_blocks_synced k = 0)"
proof -
  have none: "filter (\<lambda>t. mct_token_id t = i \<and> mct_block_index t < 0) (t_mint_config_txs (st_db s1)) = []" for i
    using assms(4) by (auto simp: filter_empty_conv)
  have look: "lookup_mint_config ext_ref 0 demo_core_mint s1 = (Ok None, s1)"
    by (simp add: lookup_mint_config_def most_recent_for_token_def query_def small_as_i64 none ret_def)
  show ?thesis
    using assms(1-3)
    by (simp add: demo_contents_def sync_mint_def Let_def look [unfolded demo_core_mint_def] demo_core_mint_def
        insert_defs ret_def lift_res_def balance_of_def inc_defs List.map_filter_def)
qed

lemma demo_burn_run:
  assumes "t_burn_tx_outs (st_db s2) = []"
  shows "\<exists>s3 row. fold_m (sync_burn ext_ref) (find_burns ext_ref 0 None (bc_outputs demo_contents)) ([(1, 5)], []) s2
      = (Ok ([(1, 2)], [row]), s3)
    \<and> t_block_audit_data (st_db s3) = t_block_audit_data (st_db s2)
    \<and> t_block_balance (st_db s3) = t_block_balance (st_db s2) \<and> t_counters (st_db s3) = t_counters (st_db s2)"
  using assms
  by (simp add: demo_contents_def find_burns_def List.map_filter_def from_core_tx_out_def res_ok_def sync_burn_def
      Let_def burn_tx_out_amount_def burn_tx_out_token_id_def insert_defs ret_def balance_of_def)

lemma ret_apply: "ret x s = (Ok x, s)"
  by (simp add: ret_def)

lemma demo_block_run_any:
  assumes fresh: "demo_fresh (st_db s)"
  shows "\<exists>data s'. sync_block_with_conn ext_ref demo_block demo_contents None s = (Ok data, s')
     \<and> sbd_balance_map data = [(1, 2)]"
proof -
  obtain k0 where k0: "t_counters (st_db s) = [k0]" "num_blocks_synced k0 = 0"
    using demo_fresh_counters [OF fresh] by blast
  obtain s1 where cfgs: "for_each (\<lambda>mint_config_tx. bnd (insert_from_core_mint_config_tx ext_ref 0 None mint_config_tx)
      (\<lambda>_. ret ())) (bc_validated_mint_config_txs demo_contents) s = (Ok (), s1)"
    and s1: "t_mint_txs (st_db s1) = []" "t_burn_tx_outs (st_db s1) = []" "t_block_audit_data (st_db s1) = []"
      "t_block_balance (st_db s1) = []" "t_counters (st_db s1) = [k0]"
      "filter (\<lambda>t. mct_block_index t < 0) (t_mint_config_txs (st_db s1)) = []"
    using demo_configs_run [OF fresh] k0 by auto
  obtain s2 row k where mints: "fold_m (sync_mint ext_ref 0 None) (bc_mint_txs demo_contents) ([], []) s1
      = (Ok ([(1, 5)], [row]), s2)"
    and s2: "t_burn_tx_outs (st_db s2) = []" "t_block_audit_data (st_db s2) = []" "t_block_balance (st_db s2) = []"
      "t_counters (st_db s2) = [k]" "num_blocks_synced k = 0"
    using demo_mint_run [OF s1(1,5) k0(2) s1(6)] s1 by auto
  obtain s3 out where burns: "fold_m (sync_burn ext_ref) (find_burns ext_ref 0 None (bc_outputs demo_contents))
      ([(1, 5)], []) s2 = (Ok ([(1, 2)], [out]), s3)"
    and s3: "t_block_audit_data (st_db s3) = []" "t_block_balance (st_db s3) = []" "t_counters (st_db s3) = [k]"
    using demo_burn_run [OF s2(1)] s2 by auto
  have start: "counters_get s = (Ok k0, s)" "blk_index demo_block = 0"
    "impl_get num_blocks_synced k0 = 0"
    using k0 by (simp_all add: demo_block_def counters_get_def query_def impl_get_def as_u64_def)
  have "\<exists>data s'. sync_block_tx ext_ref demo_block demo_contents None s = (Ok data, s')
     \<and> sbd_balance_map data = [(1, 2)]"
    using s3 by (simp add: sync_block_tx_def Let_def start cfgs mints burns inc_defs block_audit_data_set_def
        set_balances_for_block_def insert_into_block_balance_def block_audit_data_new_def ret_apply)
  then show ?thesis unfolding sync_block_with_conn_def by auto
qed

lemmas demo_block_run = demo_block_run_any [OF demo_start_fresh]

lemma demo_start_ok:
  "chain_at 0 (st_db demo_start)" "config_tables_ok ext_ref (st_db demo_start)"
  "history_ok ext_ref bc ts 0 (st_db demo_start)" "chain_ok (st_db demo_start)"
  "t_counters (st_db demo_start) = [counters_default]" "num_blocks_synced counters_default < 2 ^ 63"
  "ids_ok mc_id (t_mint_configs (st_db demo_start))"
  using chain_at_initial db_ok_empty [of ext_ref demo_config]
  by (simp_all add: demo_start_def history_ok_def db_ok_def chain_at_def)
    (simp_all add: counters_default_def config_tables_ok_def)

theorem sync_block_balances_witness:
  "\<exists>data s'. sync_block_with_conn ext_ref demo_block demo_contents None demo_start = (Ok data, s')
     \<and> balances_at (st_db s') 0 1 = 2
     \<and> balances_at (st_db s') 0 = block_effect ext_ref 0 None demo_contents (\<lambda>_. 0)"
proof -
  obtain data s' where run: "sync_block_with_conn ext_ref demo_block demo_contents None demo_start = (Ok data, s')"
    and data: "sbd_balance_map data = [(1, 2)]"
    using demo_block_run by blast
  from sync_block_balances [OF demo_start_ok(4-7) ref.rowid run]
  have "balances_at (st_db s') 0 = block_effect ext_ref 0 None demo_contents (\<lambda>_. 0)"
    and map: "balance_of (sbd_balance_map data) = balances_at (st_db s') 0"
    by (simp_all add: demo_block_def balances_before_def)
  moreover have "balances_at (st_db s') 0 1 = 2"
    using data unfolding map [symmetric] by (simp add: balance_of_def)
  ultimately show ?thesis using run by blast
qed

theorem sync_block_rows_and_counters_witness:
  "\<exists>data s'. sync_block_with_conn ext_ref demo_block demo_contents None demo_start = (Ok data, s')
     \<and> list_all2 (mint_row ext_ref 0 None) [demo_core_mint] (sbd_mint_txs data)
     \<and> t_burn_tx_outs (st_db s') = sbd_burn_tx_outs data"
proof -
  obtain data s' where run: "sync_block_with_conn ext_ref demo_block demo_contents None demo_start = (Ok data, s')"
    using demo_block_run by blast
  from sync_block_rows_and_counters [OF demo_start_ok(4-7) ref.rowid run] run show ?thesis
    by (auto simp: demo_block_def demo_contents_def demo_start_def empty_database_def)
qed

text \<open>The configuration of the block, when the next one is synced.\<close>

definition demo_configured :: state where
  "demo_configured = demo_start\<lparr>st_db := (st_db demo_start)\<lparr>
     t_mint_config_txs := [\<lparr>mct_id = Some 1, mct_block_index = 0, mct_block_timestamp = None, mct_token_id = 1,
       mct_nonce_hex = ''02'', mct_total_mint_limit = 80, mct_tombstone_block = 100, mct_protobuf = []\<rparr>],
     t_mint_configs := [\<lparr>mc_id = Some 1, mc_mint_config_tx_id = 1, mc_mint_limit = 50,
       mc_protobuf = encode_mint_config ext_ref
         \<lparr>cmc_token_id = 1, cmc_signer_set = [42], cmc_mint_limit = 50\<rparr>\<rparr>]\<rparr>\<rparr>"

lemma demo_config_decode [simp]: "decode_mint_config ext_ref (encode_mint_config ext_ref c) = Ok c"
  by (rule msg_codec.dec_enc [OF ref.config_codec])

theorem lookup_mint_config_correct_witness:
  "\<exists>c. lookup_mint_config ext_ref 1 demo_core_mint demo_configured = (Ok (Some c), demo_configured)
     \<and> c \<in> set (t_mint_configs (st_db demo_configured))
     \<and> config_allows ext_ref (st_db demo_configured) 1 demo_core_mint c"
proof -
  let ?d = "st_db demo_configured" and ?t = "hd (t_mint_config_txs (st_db demo_configured))"
  let ?c = "hd (t_mint_configs (st_db demo_configured))"
  have "minted_join ?d = []"
    by (simp add: minted_join_def demo_configured_def demo_start_def empty_database_def)
  then have "config_total ?d ?c 1 = 0" "config_tx_total ?d ?t 1 = 0"
    by (simp_all add: config_total_def config_tx_total_def)
  then have "active_config_tx ?d 1 1 ?t" "config_tx_allows ?d 1 demo_core_mint ?t"
    "config_allows ext_ref ?d 1 demo_core_mint ?c"
    by (simp_all add: active_config_tx_def config_tx_allows_def config_allows_def mint_config_decode_def
        demo_core_mint_def mint_config_mint_limit_def mint_config_tx_total_mint_limit_def)
      (simp_all add: demo_configured_def small_as_i64 as_u64_def, simp add: ext_ref_def)
  moreover have "?c \<in> set (t_mint_configs ?d)" "mct_id ?t = Some (mc_mint_config_tx_id ?c)"
    by (simp_all add: demo_configured_def)
  moreover have "mtp_token_id (cmt_prefix demo_core_mint) = 1" by (simp add: demo_core_mint_def)
  moreover have "\<forall>c \<in> set (t_mint_configs ?d). \<exists>core. mint_config_decode ext_ref c = Ok core"
    "ids_ok mct_id (t_mint_config_txs ?d)"
    "distinct (map (\<lambda>t. (mct_block_index t, mct_token_id t)) (t_mint_config_txs ?d))"
    by (simp_all add: demo_configured_def mint_config_decode_def ids_ok_def)
  note lookup_mint_config_correct [OF this, of 1 demo_core_mint]
  ultimately show ?thesis by (metis not_None_eq)
qed

theorem lookup_ignores_same_block_witness:
  "fst (lookup_mint_config ext_ref 1 demo_core_mint
       (demo_configured\<lparr>st_db := (st_db demo_configured)\<lparr>t_mint_txs := [demo_mint\<lparr>mt_block_index := 1\<rparr>]\<rparr>\<rparr>))
     = fst (lookup_mint_config ext_ref 1 demo_core_mint demo_configured)"
  using lookup_ignores_same_block [of "[demo_mint\<lparr>mt_block_index := 1\<rparr>]" 1 ext_ref demo_core_mint demo_configured]
  by (simp add: demo_configured_def demo_start_def empty_database_def small_as_i64)

text \<open>A ledger of this one block.\<close>

definition demo_ledger :: ledger where
  "demo_ledger = \<lparr>ldb_num_blocks = Ok 1,
     ldb_get_block_data = (\<lambda>i. if i = 0 then Ok \<lparr>bd_block = demo_block, bd_contents = demo_contents\<rparr>
       else Err ''not found'')\<rparr>"

definition demo_watcher :: watcher where
  "demo_watcher = \<lparr>wdb_poll_block_timestamp = None, wdb_timestamp_opt = Some\<rparr>"

lemma demo_no_timestamp: "block_timestamp_of demo_watcher bd = None"
  by (simp add: block_timestamp_of_def demo_watcher_def)

lemma demo_loop_Ok:
  "\<exists>s'. sync_loop (ret ()) ext_ref None (\<lambda>_. demo_ledger) demo_watcher demo_start = Some (Ok (), s')"
proof -
  let ?bd = "\<lparr>bd_block = demo_block, bd_contents = demo_contents\<rparr>"
  obtain data s1 where "sync_block_with_conn ext_ref demo_block demo_contents None demo_start = (Ok data, s1)"
    using demo_block_run by blast
  then have run: "sync_next ext_ref None ?bd None demo_start = (Ok (), s1)"
    by (simp add: sync_next_def conn_transaction_def ret_apply)
  from sync_next_chain [OF ref.ext_laws_axioms demo_start_ok(1) _ demo_start_ok(2) run]
  have "chain_at (Suc 0) (st_db s1)" by simp
  then have "sync_iteration (ret ()) ext_ref None demo_ledger demo_watcher s1 = (Ok False, s1)"
    by (rule iteration_done) (simp_all add: demo_ledger_def)
  moreover have "sync_iteration (ret ()) ext_ref None demo_ledger demo_watcher demo_start = (Ok True, s1)"
    using iteration_next [OF demo_start_ok(1), of demo_ledger 1 ext_ref None demo_watcher] run
    by (simp add: demo_ledger_def demo_no_timestamp ret_apply)
  ultimately show ?thesis
    by (simp add: sync_loop_def) (subst loop_from.simps, subst loop_from.simps, simp add: loop_result_def)
qed

theorem sync_loop_returns_witness:
  "\<exists>s'. sync_loop (ret ()) ext_ref None (\<lambda>_. demo_ledger) demo_watcher demo_start = Some (Ok (), s')
     \<and> last_synced_block_index s' = (Ok (Some 0), s')
     \<and> balances_at (st_db s') 0 = block_effect ext_ref 0 None demo_contents (\<lambda>_. 0)"
proof -
  have "ledger_has demo_ledger demo_watcher 1 (\<lambda>_. demo_contents) (\<lambda>_. None)"
    by (simp add: ledger_has_def demo_ledger_def demo_no_timestamp)
  from sync_loop_returns [OF ref.ext_laws_axioms this demo_start_ok(1) _ demo_start_ok(2,3), of None]
  show ?thesis using demo_loop_Ok by auto
qed

section \<open>Safe transactions\<close>

definition demo_raw :: raw_gnosis_transaction where
  "demo_raw = \<lparr>rgt_raw = JObj [(''txHash'', JStr (eth_tx_hash_display ext_ref demo_hash))]\<rparr>"

definition demo_transfer :: ethereum_transfer where
  "demo_transfer = \<lparr>et_from = demo_address 0xC0, et_to = demo_address 0x5A, et_token_addr = Some (demo_address 0xA0),
     et_tx_hash = demo_hash, et_tx_type = ''ERC20_TRANSFER'', et_token_info = None,
     et_value = Some (EthTxValue 5000000000000)\<rparr>"

definition demo_etx :: "ethereum_transfer \<Rightarrow> ethereum_transaction" where
  "demo_etx t = \<lparr>etx_tx_hash = demo_hash, etx_eth_block_number = 10, etx_transfers = [t], etx_execution_date = 0\<rparr>"

definition demo_decode_tx :: "ethereum_transfer \<Rightarrow> json \<Rightarrow> (string, gnosis_transaction) res" where
  "demo_decode_tx t v = Ok (Ethereum (demo_etx t))"

lemma demo_raw_hash: "raw_tx_hash ext_ref demo_raw = Ok demo_hash"
  by (simp add: raw_tx_hash_def demo_raw_def res_ok_or_def eth_tx_hash_from_str_def eth_tx_hash_display_def
      starts_with_def hex_ref.dec_enc eth_tx_hash_try_from_def demo_hash_def ETH_TX_HASH_LEN_def)

lemma demo_not_recorded: "\<not> recorded ext_ref (st_db demo_start) demo_raw"
  by (simp add: recorded_def demo_start_def empty_database_def)

theorem unknown_token_drops_transfers_witness:
  "\<exists>s'. process_transactions (ret ()) ext_ref (\<lambda>_. ''text'')
       (demo_decode_tx (demo_transfer\<lparr>et_token_addr := Some (demo_address 0xFF)\<rparr>)) demo_safe [demo_raw] demo_start = (Ok (), s')
    \<and> t_gnosis_safe_deposits (st_db s') = []
    \<and> t_counters (st_db s') = [counters_default\<lparr>num_invalid_ethereum_transactions := 1\<rparr>]"
proof -
  let ?t = "demo_transfer\<lparr>et_token_addr := Some (demo_address 0xFF)\<rparr>"
  have "eth_addr_eq (et_to ?t) (asc_safe_addr demo_safe)" by (simp add: demo_transfer_def)
  moreover have "\<not> eth_addr_eq (demo_address 0xA0) (demo_address 0xFF)" by code_simp
  then have "get_token_by_eth_contract_addr demo_safe (demo_address 0xFF) = None"
    by (simp add: get_token_by_eth_contract_addr_def demo_token_def addrs_contain_def)
  ultimately show ?thesis
    using unknown_token_drops_transfers [OF demo_not_recorded demo_raw_hash, of "demo_decode_tx ?t" "demo_etx ?t" ?t "[]"
        demo_safe "demo_address 0xFF" counters_default "\<lambda>_. ''text''"]
    by (auto simp: demo_decode_tx_def demo_etx_def demo_transfer_def demo_start_def empty_database_def
        counters_default_def)
qed

theorem ether_transfer_panics_witness:
  "\<exists>s'. process_transactions (ret ()) ext_ref (\<lambda>_. ''text'') (demo_decode_tx (demo_transfer\<lparr>et_token_addr := None\<rparr>))
       demo_safe [demo_raw] demo_start = (Panic ''failed processing transaction'', s')
     \<and> st_db s' = st_db demo_start"
proof -
  let ?t = "demo_transfer\<lparr>et_token_addr := None\<rparr>"
  have "eth_addr_eq (et_to ?t) (asc_safe_addr demo_safe)" by (simp add: demo_transfer_def)
  then show ?thesis
    using ether_transfer_panics [OF demo_not_recorded demo_raw_hash, of "demo_decode_tx ?t" "demo_etx ?t" ?t "[]"
        demo_safe counters_default "\<lambda>_. ''text''" "[]"]
    by (auto simp: demo_decode_tx_def demo_etx_def demo_transfer_def demo_start_ok(5))
qed

text \<open>The deposit of the scenario arrives before its mint: it is stored, and looking for its mint fails.\<close>

lemma demo_parse_deposit:
  "parse_deposit ext_ref demo_safe (demo_etx demo_transfer) demo_transfer = Ok (demo_deposit\<lparr>gsd_id := None\<rparr>)"
proof -
  have "truncate_value (EthTxValue 5000000000000) 18 6 = (Ok 5 :: (gnosis_error, u64) res)"
    by (simp add: truncate_value_def u64_try_from_def)
  then show ?thesis
    using demo_token_found
    by (simp add: parse_deposit_def demo_transfer_def res_ok_or_def res_unwrap_def demo_etx_def demo_deposit_def
      gnosis_safe_deposit_new_def get_token_by_eth_contract_addr_def)
     (simp add: demo_token_def demo_safe_def)
qed

lemma demo_process_any:
  assumes empty: "t_gnosis_safe_txs (st_db s) = []" "t_gnosis_safe_deposits (st_db s) = []"
    and ids: "ids_ok mt_id (t_mint_txs (st_db s))"
  shows "\<exists>s'. process_transaction ext_ref (\<lambda>_. ''text'') (demo_decode_tx demo_transfer) demo_safe demo_raw s
       = (Ok (), s') \<and> t_gnosis_safe_deposits (st_db s') = [demo_deposit] \<and> t_mint_txs (st_db s') = t_mint_txs (st_db s)"
proof -
  have "\<not> recorded ext_ref (st_db s) demo_raw" using empty by (simp add: recorded_def)
  from gnosis_safe_tx_insert_new [OF this demo_raw_hash, of "\<lambda>_. ''text''"]
  obtain s1 where ins: "gnosis_safe_tx_insert ext_ref (\<lambda>_. ''text'') demo_raw s = (Ok (), s1)"
    and s1: "t_gnosis_safe_deposits (st_db s1) = []" "t_mint_txs (st_db s1) = t_mint_txs (st_db s)"
      "map gst_eth_tx_hash (t_gnosis_safe_txs (st_db s1)) = [eth_tx_hash_display ext_ref demo_hash]"
    using empty by auto
  have gst: "\<exists>r. t_gnosis_safe_txs (st_db s1) = [r] \<and> gst_eth_tx_hash r = eth_tx_hash_display ext_ref demo_hash"
    using s1(3) by auto
  have dep: "demo_deposit\<lparr>gsd_id := None, gsd_id := Some 1\<rparr> = demo_deposit" "gsd_eth_tx_hash demo_deposit = demo_hash"
    by (simp_all add: demo_deposit_def gnosis_safe_deposit_new_def)
  obtain s2 where stored: "deposit_insert ext_ref (demo_deposit\<lparr>gsd_id := None\<rparr>) s1 = (Ok demo_deposit, s2)"
    and s2: "t_gnosis_safe_deposits (st_db s2) = [demo_deposit]" "t_mint_txs (st_db s2) = t_mint_txs (st_db s)"
    using s1 gst dep
    by (auto simp: deposit_insert_def insert_into_gnosis_safe_deposits_def sql_insert_def row_ids_def rowid_ref_def
        List.map_filter_def last_insert_rowid_def ret_apply sql_eth_tx_hash_to_sql_def)
  obtain r s' where attempt: "try_match_deposit_with_mint ext_ref demo_deposit demo_safe s2 = (r, s')" by fastforce
  then have "\<forall>p. r \<noteq> Panic p" using try_match_deposit_no_panic [of s2] ids s2(2) by auto
  moreover note mint_match_grows(2) [OF attempt]
  moreover have "process_transfer ext_ref demo_safe (demo_etx demo_transfer) demo_transfer s1 = (Ok (), s')"
    using stored demo_parse_deposit attempt calculation(1)
    by (cases r) (simp_all add: process_transfer_def demo_transfer_def lift_res_def ret_apply attempt_def)
  then have "process_eth_transaction ext_ref demo_safe (demo_etx demo_transfer) s1 = (Ok (), s')"
    by (simp add: process_eth_transaction_def demo_etx_def ret_apply)
  ultimately show ?thesis
    using ins s2 by (simp add: process_transaction_def process_decoded_def raw_decode_def lift_res_def demo_decode_tx_def
        ret_apply)
qed

lemma demo_process:
  "\<exists>s'. process_transaction ext_ref (\<lambda>_. ''text'') (demo_decode_tx demo_transfer) demo_safe demo_raw demo_start
       = (Ok (), s') \<and> t_gnosis_safe_deposits (st_db s') = [demo_deposit]"
  using demo_process_any [of demo_start] by (auto simp: demo_start_def empty_database_def ids_ok_def)

theorem process_transactions_idempotent_witness:
  "\<exists>s'. process_transactions (ret ()) ext_ref (\<lambda>_. ''text'') (demo_decode_tx demo_transfer) demo_safe [demo_raw] demo_start
       = (Ok (), s')
     \<and> t_gnosis_safe_deposits (st_db s') = [demo_deposit]
     \<and> process_transactions (ret ()) ext_ref (\<lambda>_. ''text'') (demo_decode_tx demo_transfer) demo_safe [demo_raw, demo_raw] s'
       = (Ok (), s')"
proof -
  obtain s' where "process_transaction ext_ref (\<lambda>_. ''text'') (demo_decode_tx demo_transfer) demo_safe demo_raw demo_start
      = (Ok (), s')" and s': "t_gnosis_safe_deposits (st_db s') = [demo_deposit]"
    using demo_process by blast
  then have run: "process_transactions (ret ()) ext_ref (\<lambda>_. ''text'') (demo_decode_tx demo_transfer) demo_safe
      [demo_raw] demo_start = (Ok (), s')"
    by (simp add: process_transactions_Cons conn_transaction_def ret_apply)
  from process_transactions_idempotent [OF run, of "[demo_raw, demo_raw]"] run s' show ?thesis by auto
qed

text \<open>A withdrawal with its two calls: the transfer of three units and the call to the auxiliary burn
  contract, which names the burned output.\<close>

definition demo_key :: bytes where
  "demo_key = replicate 32 9"

definition demo_call :: value_decoded where
  "demo_call = ValueDecoded 0 (demo_address 0xA0) ''0'' ''0x'' (Some (DataDecoded ''transfer''
     [DataDecodedParameter ''to'' ''0xD0'' None, DataDecodedParameter ''value'' ''3000000000000'' None]))"

definition demo_aux_call :: value_decoded where
  "demo_aux_call = ValueDecoded 0 (demo_address 0xB0) ''0''
     (''0x'' @ hex_encode ext_ref ([1, 2, 3, 4] @ demo_key)) None"

definition demo_multi_sig :: multi_sig_transaction where
  "demo_multi_sig = \<lparr>mst_safe = demo_address 0x5A, mst_to = demo_address 0xE0, mst_value = EthTxValue 0,
     mst_data = None, mst_eth_block_number = 11, mst_tx_hash = demo_hash,
     mst_data_decoded = Some (DataDecoded ''multiSend''
       [DataDecodedParameter ''transactions'' '''' (Some [demo_call, demo_aux_call])]),
     mst_transfer_data = [demo_transfer], mst_execution_date = 0\<rparr>"

lemma demo_multi_send: "parse_multi_send demo_safe demo_multi_sig = Ok (demo_call, demo_aux_call, demo_token,
    [DataDecodedParameter ''to'' ''0xD0'' None, DataDecodedParameter ''value'' ''3000000000000'' None])"
  using demo_token_found
  by (simp add: parse_multi_send_def demo_multi_sig_def res_ok_or_def index_res_def demo_call_def)

lemma demo_aux: "parse_aux_data ext_ref demo_token demo_aux_call = Ok demo_key"
proof -
  have "hex_decode ext_ref (drop 2 (vd_data demo_aux_call)) = Ok ([1, 2, 3, 4] @ demo_key)"
    by (simp add: demo_aux_call_def hex_ref.dec_enc del: hex_encode_ref.simps append_Cons)
  then show ?thesis
    by (simp add: parse_aux_data_def demo_aux_call_def demo_token_def starts_with_def demo_key_def
        del: hex_encode_ref.simps)
qed

lemma demo_parse_withdrawal:
  "\<exists>w. parse_withdrawal_with_pub_key_multi_sig_tx ext_ref demo_safe demo_multi_sig = Ok w"
proof -
  have "parse_u128 ''3000000000000'' = Some 3000000000000"
    by (simp add: parse_u128_def char_digit_def)
  moreover have "truncate_value (EthTxValue 3000000000000) 18 6 = (Ok 3 :: (gnosis_error, u64) res)"
    by (simp add: truncate_value_def u64_try_from_def)
  moreover have "at_decimals demo_token = 18" "asc_token_decimals_max demo_safe = 6" "vd_to demo_call = demo_address 0xA0"
    by (simp_all add: demo_token_def demo_safe_def demo_call_def)
  ultimately show ?thesis
    using demo_multi_send demo_aux demo_token_found
    by (simp add: parse_withdrawal_with_pub_key_multi_sig_tx_def demo_multi_sig_def index_res_def demo_transfer_def
        res_unwrap_def res_ok_or_def get_token_by_eth_contract_addr_def split: if_splits)
qed

theorem parse_withdrawal_sound_witness:
  "\<exists>w v0 v1 tok ps. parse_withdrawal_with_pub_key_multi_sig_tx ext_ref demo_safe demo_multi_sig = Ok w
     \<and> multi_send_shape demo_safe demo_multi_sig v0 v1 tok ps \<and> gsw_token_addr w = vd_to v0"
proof -
  obtain w where w: "parse_withdrawal_with_pub_key_multi_sig_tx ext_ref demo_safe demo_multi_sig = Ok w"
    using demo_parse_withdrawal by blast
  from parse_withdrawal_sound [OF w] w show ?thesis by blast
qed

theorem transfer_count_unchecked_witness:
  "parse_withdrawal_with_pub_key_multi_sig_tx ext_ref demo_safe (demo_multi_sig\<lparr>mst_transfer_data := []\<rparr>)
     = Panic ''index out of bounds: the len is 0 but the index is 0''
   \<and> parse_withdrawal_with_pub_key_multi_sig_tx ext_ref demo_safe
       (demo_multi_sig\<lparr>mst_transfer_data := [demo_transfer, demo_transfer]\<rparr>)
     = parse_withdrawal_with_pub_key_multi_sig_tx ext_ref demo_safe demo_multi_sig"
proof -
  have "demo_multi_sig\<lparr>mst_transfer_data := [demo_transfer]\<rparr> = demo_multi_sig" by (simp add: demo_multi_sig_def)
  with transfer_count_unchecked [OF demo_multi_send, of ext_ref demo_transfer "[demo_transfer]"]
  show ?thesis by simp
qed

end
