(* ===== verification/Threads.thy ===== *)
theory Threads
  imports System
begin

text \<open>
  The threads of the program as code: the handle of a safe's thread (\<open>src/gnosis/sync_thread.rs\<close>), with
  the number of the spawned thread and the result of joining it as parameters.

  The theorem: everything \<open>sync_loop\<close> and a safe's thread do to the shared state, whatever the pool
  and the HTTP service answer and for any ledger that serves the same blocks throughout, is a sequence
  of the transactions of \<open>sys_step\<close>, so the guarantees of \<open>System\<close> hold of them. \<open>Scan\<close> interleaves them.
\<close>

section \<open>The handle of a thread\<close>

record gnosis_sync_thread =
  gth_stop_requested :: bool
  gth_join_handle :: "nat option"

text \<open>\<open>start\<close> cannot fail: building the client happens in the thread. \<open>spawn\<close> yields the handle.\<close>

definition gnosis_sync_thread_start ::
  "(audited_safe_config \<Rightarrow> nat) \<Rightarrow> audited_safe_config \<Rightarrow> (error, gnosis_sync_thread) res" where
  "gnosis_sync_thread_start spawn audited_safe =
     Ok \<lparr>gth_stop_requested = False, gth_join_handle = Some (spawn audited_safe)\<rparr>"

text \<open>\<open>stop\<close>; \<open>join\<close> is what joining the thread gives, an error when it panicked.\<close>

definition gnosis_sync_thread_stop ::
  "(nat \<Rightarrow> (string, unit) res) \<Rightarrow> gnosis_sync_thread \<Rightarrow> (error, unit) res \<times> gnosis_sync_thread" where
  "gnosis_sync_thread_stop join self =
     (let self = self\<lparr>gth_stop_requested := True\<rparr> in
      case gth_join_handle self of
        None \<Rightarrow> (Ok (), self)
      | Some join_handle \<Rightarrow>
          (case join join_handle of
             Ok _ \<Rightarrow> Ok ()
           | _ \<Rightarrow> Panic ''failed joining gnosis sync thread'', self\<lparr>gth_join_handle := None\<rparr>))"

definition gnosis_sync_thread_drop ::
  "(nat \<Rightarrow> (string, unit) res) \<Rightarrow> gnosis_sync_thread \<Rightarrow> (error, unit) res \<times> gnosis_sync_thread" where
  "gnosis_sync_thread_drop join self = gnosis_sync_thread_stop join self"

text \<open>A thread is joined at most once: dropping a stopped handle does nothing, even if joining it failed.\<close>

lemma drop_after_stop:
  "gnosis_sync_thread_drop join' (snd (gnosis_sync_thread_stop join self)) =
     (Ok (), snd (gnosis_sync_thread_stop join self))"
  by (cases "gth_join_handle self")
    (simp_all add: gnosis_sync_thread_drop_def gnosis_sync_thread_stop_def)

section \<open>Runs are sequences of steps\<close>

text \<open>\<open>steps R m\<close>: however \<open>m\<close> ends, it went from the initial to the final state by steps of \<open>R\<close>.\<close>

definition steps :: "('s \<Rightarrow> 's \<Rightarrow> bool) \<Rightarrow> ('s, 'e, 'a) comp \<Rightarrow> bool" where
  "steps R m \<longleftrightarrow> (\<forall>s. R\<^sup>*\<^sup>* s (snd (m s)))"

named_theorems steps_intros

lemma stepsD: "steps R m \<Longrightarrow> m s = (r, s') \<Longrightarrow> R\<^sup>*\<^sup>* s s'"
  unfolding steps_def by (metis snd_conv)

lemma stepsI: "(\<And>s r s'. m s = (r, s') \<Longrightarrow> R\<^sup>*\<^sup>* s s') \<Longrightarrow> steps R m"
  unfolding steps_def by (metis surjective_pairing)

lemma steps_basic [steps_intros]: "steps R (ret x)" "steps R (throw e)" "steps R (lift_res r)"
  by (simp_all add: steps_def ret_def throw_def lift_res_def)

lemma steps_reading [steps_intros]: "steps R (query f)" "steps R last_synced_block_index"
  by (simp_all add: steps_def last_synced_block_index_def)

lemma steps_bnd [steps_intros]:
  assumes "steps R m" and "\<And>x. steps R (f x)"
  shows "steps R (bnd m f)"
proof (rule stepsI)
  fix s r s' assume run: "bnd m f s = (r, s')"
  obtain r0 s0 where m: "m s = (r0, s0)" by fastforce
  from stepsD [OF assms(1) this] have "R\<^sup>*\<^sup>* s s0" .
  moreover have "R\<^sup>*\<^sup>* s0 s'"
    using run m stepsD [OF assms(2)] by (cases r0) auto
  ultimately show "R\<^sup>*\<^sup>* s s'" by (rule rtranclp_trans)
qed

lemma steps_bnd_lift_res: "(\<And>x. r = Ok x \<Longrightarrow> steps R (f x)) \<Longrightarrow> steps R (bnd (lift_res r) f)"
  by (cases r) (simp_all add: steps_def lift_res_def bnd_def)

lemma steps_if [steps_intros]:
  "(b \<Longrightarrow> steps R m) \<Longrightarrow> (\<not> b \<Longrightarrow> steps R m') \<Longrightarrow> steps R (if b then m else m')"
  by simp

lemma steps_expect [steps_intros]: "steps R m \<Longrightarrow> steps R (expect p m)"
  unfolding steps_def expect_def by (auto split: prod.splits res.splits) (metis snd_conv)+

lemma steps_for_each [steps_intros]: "(\<And>x. steps R (f x)) \<Longrightarrow> steps R (for_each f xs)"
  by (induction xs) (auto intro: steps_intros)

text \<open>What the ledger answers: block \<open>k\<close> has index \<open>k\<close>, and its contents and timestamp do not change.\<close>

definition ledger_serves ::
  "ledger \<Rightarrow> watcher \<Rightarrow> (nat \<Rightarrow> block_contents) \<Rightarrow> (nat \<Rightarrow> datetime option) \<Rightarrow> bool" where
  "ledger_serves ledger w bc ts \<longleftrightarrow>
     (\<forall>n. ldb_num_blocks ledger = Ok n \<longrightarrow> unat n \<le> 2 ^ 63)
     \<and> (\<forall>k bd. ldb_get_block_data ledger k = Ok bd \<longrightarrow> blk_index (bd_block bd) = k
          \<and> bd_contents bd = bc (unat k) \<and> block_timestamp_of w bd = ts (unat k))"

lemma sync_next_steps:
  assumes "ledger_serves ledger w bc ts" and "ldb_get_block_data ledger k = Ok bd" and "unat k < 2 ^ 63"
  shows "steps (sys_step X cfg js dec bc ts) (sync_next X (Some cfg) bd (block_timestamp_of w bd))"
proof (rule stepsI)
  fix s r s' assume run: "sync_next X (Some cfg) bd (block_timestamp_of w bd) s = (r, s')"
  have "sys_step X cfg js dec bc ts s s'"
    by (rule sync_block_step [of _ _ bd ts "unat k" _ r]) (use assms run in \<open>auto simp: ledger_serves_def\<close>)
  then show "(sys_step X cfg js dec bc ts)\<^sup>*\<^sup>* s s'" by blast
qed

lemma sync_iteration_steps:
  assumes "ledger_serves ledger w bc ts" and "steps (sys_step X cfg js dec bc ts) pool_get"
  shows "steps (sys_step X cfg js dec bc ts) (sync_iteration pool_get X (Some cfg) ledger w)"
  unfolding sync_iteration_def Let_def
proof (intro steps_bnd [OF assms(2)] steps_bnd_lift_res steps_bnd [OF steps_reading(2)] steps_if steps_basic(1))
  fix n last bd
  let ?k = "case (last :: u64 option) of None \<Rightarrow> 0 | Some block_index \<Rightarrow> block_index + 1"
  assume "map_err LedgerDb (ldb_num_blocks ledger) = Ok n" and "?k \<noteq> n" "\<not> ?k > n"
    and "map_err LedgerDb (ldb_get_block_data ledger ?k) = Ok bd"
  moreover from this have "unat ?k < unat n" by (simp add: word_less_nat_alt [symmetric])
  ultimately have "unat ?k < 2 ^ 63" and bd: "ldb_get_block_data ledger ?k = Ok bd"
    using assms(1) by (fastforce simp: ledger_serves_def)+
  then show "steps (sys_step X cfg js dec bc ts) (bnd (sync_next X (Some cfg) bd (block_timestamp_of w bd)) (\<lambda>_. ret True))"
    by (intro steps_bnd steps_basic sync_next_steps [OF assms(1) bd])
qed

lemma loop_from_steps:
  "loop_from iteration n s = Some out \<Longrightarrow> (\<And>n. steps R (iteration n)) \<Longrightarrow> R\<^sup>*\<^sup>* s (snd out)"
proof (induction rule: loop_from.raw_induct [rotated, consumes 1, case_names step])
  case (step lf iteration n s out)
  obtain r0 s0 where it: "iteration n s = (r0, s0)" by fastforce
  have first: "R\<^sup>*\<^sup>* s s0" by (rule stepsD [OF step(3) it])
  show ?case
  proof (cases "r0 = Ok True")
    case True
    with step(2) it have "lf iteration (Suc n) s0 = Some out" by simp
    from step(1) [OF this step(3)] first show ?thesis by (meson rtranclp_trans)
  qed (use step(2) it first in auto)
qed

lemma sync_loop_steps:
  assumes "\<And>n. ledger_serves (ledger_at n) w bc ts" and "steps (sys_step X cfg js dec bc ts) pool_get"
    and "sync_loop pool_get X (Some cfg) ledger_at w s = Some out"
  shows "(sys_step X cfg js dec bc ts)\<^sup>*\<^sup>* s (snd out)"
  using assms(3) unfolding sync_loop_def
  by (rule loop_from_steps) (intro sync_iteration_steps assms(1,2))

text \<open>The thread of a safe.\<close>

lemma process_transactions_steps:
  assumes "safe \<in> set (gsc_safes cfg)" and "steps (sys_step X cfg js dec bc ts) pool_get"
  shows "steps (sys_step X cfg js dec bc ts) (process_transactions pool_get X js dec safe txs)"
  unfolding process_transactions_def
proof (intro steps_intros assms(2))
  fix tx
  show "steps (sys_step X cfg js dec bc ts) (conn_transaction (process_transaction X js dec safe tx))"
    by (rule stepsI) (blast intro: sys_step.gnosis_step assms(1))
qed

lemma poll_steps:
  assumes "safe \<in> set (gsc_safes cfg)" and "steps (sys_step X cfg js dec bc ts) pool_get"
  shows "steps (sys_step X cfg js dec bc ts) (poll pool_get X js dec safe fetched)"
proof (cases fetched)
  case (Err e)
  have "sys_step X cfg js dec bc ts s (s\<lparr>st_num_failed_gnosis_get_all_transaction_data :=
     st_num_failed_gnosis_get_all_transaction_data s + 1\<rparr>)" for s by (rule fetch_failed_step)
  with Err show ?thesis by (auto simp: poll_def steps_def)
qed (simp_all add: poll_def process_transactions_steps [OF assms] steps_intros)

lemma poll_loop_steps:
  "poll_loop stop poll_once d n s = Some out \<Longrightarrow> (\<And>n s out. poll_once n s = Some out \<Longrightarrow> R\<^sup>*\<^sup>* s (snd out)) \<Longrightarrow>
     (\<And>s. R s (sleep d s)) \<Longrightarrow> R\<^sup>*\<^sup>* s (snd out)"
proof (induction rule: poll_loop.raw_induct [rotated, consumes 1, case_names step])
  case (step pl stop poll_once d n s out)
  show ?case
  proof (cases "stop n")
    case False
    with step(2) obtain o1 where o1: "poll_once n s = Some o1" by (cases "poll_once n s") auto
    have first: "R\<^sup>*\<^sup>* s (snd o1)" by (rule step(3) [OF o1])
    show ?thesis
    proof (cases "fst o1 = Ok ()")
      case True
      with step(2) False o1 have "pl stop poll_once d (Suc n) (sleep d (snd o1)) = Some out" by simp
      from step(1) [OF this step(3,4)] have "R\<^sup>*\<^sup>* (sleep d (snd o1)) (snd out)" .
      with first step(4) [of "snd o1"] show ?thesis by (meson rtranclp.rtrancl_into_rtrancl rtranclp_trans)
    qed (use step(2) False o1 first in simp)
  qed (use step(2) in auto)
qed

lemma thread_steps:
  assumes "safe \<in> set (gsc_safes cfg)" and "steps (sys_step X cfg js dec bc ts) pool_get"
    and "thread_entry_point pool_get X js dec url_path url_join client_build http_get stop safe d s = Some out"
  shows "(sys_step X cfg js dec bc ts)\<^sup>*\<^sup>* s (snd out)"
proof (cases "gnosis_sync_new url_path url_join client_build safe")
  case (Ok sync)
  then have sync: "gs_audited_safe sync = safe" by (auto simp: gnosis_sync_new_def rbind_eq_Ok)
  have "poll_loop stop (\<lambda>n. poll_with pool_get X js dec url_join (http_get n) sync) d 0 s = Some out"
    using assms(3) Ok by (simp add: thread_entry_point_def)
  then show ?thesis
  proof (rule poll_loop_steps)
    fix n s out assume "poll_with pool_get X js dec url_join (http_get n) sync s = Some out"
    then obtain fetched where "out = poll pool_get X js dec safe fetched s"
      by (auto simp: poll_with_def sync)
    with poll_steps [OF assms(1,2), of fetched] show "(sys_step X cfg js dec bc ts)\<^sup>*\<^sup>* s (snd out)"
      by (simp add: steps_def)
  qed (rule sleep_step)
qed (use assms(3) in \<open>auto simp: thread_entry_point_def\<close>)

lemma steps_keep_inv:
  assumes "audit_system X dec" and "sys_inv X cfg bc ts s" and "(sys_step X cfg js dec bc ts)\<^sup>*\<^sup>* s s'"
  shows "sys_inv X cfg bc ts s'"
  using assms(3) by (induction rule: rtranclp_induct) (auto intro: assms(2) audit_system.step_keeps_inv [OF assms(1)])

text \<open>C4: the guarantees of the step relation are guarantees of the code. Let block \<open>k\<close> of the ledger, when it
  is served, always have index \<open>k\<close>, the same contents and the same timestamp, and let the ledger never
  report more than \<open>2 ^ 63\<close> blocks; apart from that, whatever the pool, the ledger (which may grow or
  fail at any time) and the HTTP service answer, a run of \<open>sync_loop\<close> and a run of a safe's thread up to the moment it
  sees the stop flag, panics included, only take steps of the shared transition system, and so end
  in a state that satisfies the invariant when they start in one.\<close>

theorem threads_take_steps:
  assumes "audit_system X dec" and "sys_inv X cfg bc ts s" and "\<forall>s. snd (pool_get s) = s"
    and "\<forall>n. ledger_serves (ledger_at n) w bc ts" and "safe \<in> set (gsc_safes cfg)"
  shows "(\<forall>r s'. sync_loop pool_get X (Some cfg) ledger_at w s = Some (r, s') \<longrightarrow>
       (sys_step X cfg js dec bc ts)\<^sup>*\<^sup>* s s' \<and> sys_inv X cfg bc ts s')
    \<and> (\<forall>r s'. thread_entry_point pool_get X js dec url_path url_join client_build http_get stop safe d s = Some (r, s') \<longrightarrow>
       (sys_step X cfg js dec bc ts)\<^sup>*\<^sup>* s s' \<and> sys_inv X cfg bc ts s')"
proof -
  let ?R = "sys_step X cfg js dec bc ts"
  have pool: "steps ?R pool_get" using assms(3) by (simp add: steps_def)
  have inv: "sys_inv X cfg bc ts s'" if "?R\<^sup>*\<^sup>* s s'" for s'
    by (rule steps_keep_inv [OF assms(1,2) that])
  have "?R\<^sup>*\<^sup>* s s'" if "sync_loop pool_get X (Some cfg) ledger_at w s = Some (r, s')" for r s'
    using sync_loop_steps [OF _ pool that] assms(4) by simp
  moreover have "?R\<^sup>*\<^sup>* s s'"
    if "thread_entry_point pool_get X js dec url_path url_join client_build http_get stop safe d s = Some (r, s')" for r s'
    using thread_steps [OF assms(5) pool that] by simp
  ultimately show ?thesis using inv by blast
qed

end
