(* ===== verification/Scan.thy ===== *)
theory Scan
  imports Threads
begin

text \<open>
  The scan command while it runs: the main thread repeats \<open>sync_loop\<close> (\<open>src/bin/main.rs\<close>) and one
  thread per safe polls (\<open>src/gnosis/sync_thread.rs\<close>), all on one database. The state of a thread says
  where it is in its code; a step runs it up to its next access to the database, flag or network, an
  exclusive transaction in one step. \<open>scan_step\<close> lets one thread of the system take a step, and
  \<open>scan_run\<close> follows a schedule, so every interleaving is a run.

  When the main thread panics, its unwinding stops and joins the safes' threads in order; whether the
  installed panic handler (\<open>mc_common\<close>) ends the process at any panic is a parameter.

  The lemmas: run alone, the small steps are the code of \<open>sync_loop\<close> and \<open>thread_entry_point\<close>; and a
  property that every transaction keeps holds at every moment of every interleaving.
\<close>

text \<open>\<open>Result::expect\<close> on a value.\<close>

definition expect_res :: "string \<Rightarrow> ('e, 'a) res \<Rightarrow> ('f, 'a) res" where
  "expect_res msg r = (case r of Ok x \<Rightarrow> Ok x | Err _ \<Rightarrow> Panic msg | Panic p \<Rightarrow> Panic p)"

section \<open>The thread of a safe, step by step\<close>

datatype thread_state =
    ThreadStarting
  | ThreadPolling gnosis_sync nat
  | ThreadFetching gnosis_sync nat
  | ThreadProcessing gnosis_sync nat "raw_gnosis_transaction list"
  | ThreadSleeping gnosis_sync nat
  | ThreadEnded "(string, unit) res"

text \<open>A fetch that does not return keeps the thread where it is. \<open>stop_requested\<close> is the flag now.\<close>

fun thread_step ::
  "unit dbm \<Rightarrow> ext \<Rightarrow> (json \<Rightarrow> string) \<Rightarrow> (json \<Rightarrow> (string, gnosis_transaction) res)
   \<Rightarrow> (url \<Rightarrow> string) \<Rightarrow> (url \<Rightarrow> string \<Rightarrow> (string, url) res) \<Rightarrow> (string, unit) res
   \<Rightarrow> (nat \<Rightarrow> nat \<Rightarrow> url \<Rightarrow> (string, http_response) res) \<Rightarrow> audited_safe_config \<Rightarrow> nat \<Rightarrow> bool
   \<Rightarrow> thread_state \<Rightarrow> thread_state dbm" where
  "thread_step pool_get X json_to_string decode_value url_path url_join client_build http_get audited_safe
     poll_interval stop_requested ThreadStarting =
     (case gnosis_sync_new url_path url_join client_build audited_safe of
        Ok sync \<Rightarrow> ret (ThreadPolling sync 0)
      | Err e \<Rightarrow> lift_res (Panic ''Failed creating sync object'')
      | Panic p \<Rightarrow> lift_res (Panic p))"
| "thread_step pool_get X json_to_string decode_value url_path url_join client_build http_get audited_safe
     poll_interval stop_requested (ThreadPolling sync n) =
     ret (if stop_requested then ThreadEnded (Ok ()) else ThreadFetching sync n)"
| "thread_step pool_get X json_to_string decode_value url_path url_join client_build http_get audited_safe
     poll_interval stop_requested (ThreadFetching sync n) =
     (case get_all_transaction_data url_join (http_get n) (gs_fetcher sync) (asc_safe_addr (gs_audited_safe sync)) of
        None \<Rightarrow> ret (ThreadFetching sync n)
      | Some (Ok transactions) \<Rightarrow> ret (ThreadProcessing sync n transactions)
      | Some fetched \<Rightarrow>
          bnd (poll pool_get X json_to_string decode_value (gs_audited_safe sync) fetched) (\<lambda>_.
          ret (ThreadSleeping sync n)))"
| "thread_step pool_get X json_to_string decode_value url_path url_join client_build http_get audited_safe
     poll_interval stop_requested (ThreadProcessing sync n []) = ret (ThreadSleeping sync n)"
| "thread_step pool_get X json_to_string decode_value url_path url_join client_build http_get audited_safe
     poll_interval stop_requested (ThreadProcessing sync n (tx # transactions)) =
     bnd (process_transactions pool_get X json_to_string decode_value (gs_audited_safe sync) [tx]) (\<lambda>_.
     ret (ThreadProcessing sync n transactions))"
| "thread_step pool_get X json_to_string decode_value url_path url_join client_build http_get audited_safe
     poll_interval stop_requested (ThreadSleeping sync n) =
     (\<lambda>s. (Ok (ThreadPolling sync (Suc n)), sleep poll_interval s))"
| "thread_step pool_get X json_to_string decode_value url_path url_join client_build http_get audited_safe
     poll_interval stop_requested (ThreadEnded r) = ret (ThreadEnded r)"

fun thread_result :: "thread_state \<Rightarrow> (string, unit) res option" where
  "thread_result (ThreadEnded r) = Some r"
| "thread_result _ = None"

section \<open>The main thread, step by step\<close>

text \<open>\<open>MainSync m n\<close>: at iteration \<open>n\<close> of the \<open>m\<close>-th \<open>sync_loop\<close>; \<open>MainTransaction\<close>: before its
  exclusive transaction; \<open>MainUnwind p k\<close>: unwinding from panic \<open>p\<close>, dropping thread handle \<open>k\<close>;
  \<open>MainExit p\<close>: the process has ended by panic \<open>p\<close>.\<close>

datatype main_state =
    MainSync nat nat
  | MainTransaction nat nat block_data
  | MainSleep nat
  | MainUnwind string nat
  | MainExit string

text \<open>An iteration of \<open>sync_loop\<close> up to its transaction: the block to sync, if any.\<close>

definition sync_plan :: "unit dbm \<Rightarrow> ledger \<Rightarrow> block_data option dbm" where
  "sync_plan pool_get ledger_db =
     bnd pool_get (\<lambda>_.
     bnd (lift_res (map_err LedgerDb (ldb_num_blocks ledger_db))) (\<lambda>num_blocks_in_ledger.
     bnd last_synced_block_index (\<lambda>last_index.
     let synced = (case last_index of None \<Rightarrow> 0 | Some block_index \<Rightarrow> block_index + 1) in
     if synced = num_blocks_in_ledger then ret None
     else if synced > num_blocks_in_ledger then ret None
     else
       bnd (lift_res (map_err LedgerDb (ldb_get_block_data ledger_db synced))) (\<lambda>block_data.
       ret (Some block_data)))))"

fun scan_loop_step ::
  "unit dbm \<Rightarrow> ext \<Rightarrow> gnosis_safe_config option \<Rightarrow> (nat \<Rightarrow> nat \<Rightarrow> ledger) \<Rightarrow> watcher \<Rightarrow> nat
   \<Rightarrow> main_state \<Rightarrow> main_state dbm" where
  "scan_loop_step pool_get X gnosis_safe_config ledger_db watcher_db poll_interval (MainSync m n) =
     expect ''sync_loop failed'' (bnd (sync_plan pool_get (ledger_db m n)) (\<lambda>plan.
       ret (case plan of None \<Rightarrow> MainSleep m | Some block_data \<Rightarrow> MainTransaction m n block_data)))"
| "scan_loop_step pool_get X gnosis_safe_config ledger_db watcher_db poll_interval (MainTransaction m n block_data) =
     expect ''sync_loop failed''
       (bnd (sync_next X gnosis_safe_config block_data (block_timestamp_of watcher_db block_data)) (\<lambda>_.
        ret (MainSync m (Suc n))))"
| "scan_loop_step pool_get X gnosis_safe_config ledger_db watcher_db poll_interval (MainSleep m) =
     (\<lambda>s. (Ok (MainSync (Suc m) 0), sleep poll_interval s))"
| "scan_loop_step pool_get X gnosis_safe_config ledger_db watcher_db poll_interval m = ret m"

section \<open>The running command\<close>

record scan_system =
  ss_main :: main_state
  ss_handles :: "gnosis_sync_thread list"
  ss_threads :: "thread_state list"
  ss_state :: state

text \<open>What a panicking thread does to the main thread, when the panic handler ends the process.\<close>

definition panicked :: "bool \<Rightarrow> string \<Rightarrow> main_state \<Rightarrow> main_state" where
  "panicked panic_exits p m = (if panic_exits then MainExit p else m)"

text \<open>Dropping the \<open>k\<close>-th handle: the flag is set, and joining waits for the thread to end. Joining a
  thread that panicked panics during the unwinding, which ends the process.\<close>

definition unwind_step :: "string \<Rightarrow> nat \<Rightarrow> scan_system \<Rightarrow> scan_system" where
  "unwind_step p k c =
     (if k < length (ss_handles c) then
        (let handle = ss_handles c ! k in
         case thread_result (ss_threads c ! k) of
           None \<Rightarrow> c\<lparr>ss_handles := (ss_handles c)[k := handle\<lparr>gth_stop_requested := True\<rparr>]\<rparr>
         | Some r \<Rightarrow>
             (case gnosis_sync_thread_drop (\<lambda>_. r) handle of
                (Ok _, handle) \<Rightarrow> c\<lparr>ss_handles := (ss_handles c)[k := handle], ss_main := MainUnwind p (Suc k)\<rparr>
              | (_, handle) \<Rightarrow> c\<lparr>ss_handles := (ss_handles c)[k := handle],
                  ss_main := MainExit ''failed joining gnosis sync thread''\<rparr>))
      else c\<lparr>ss_main := MainExit p\<rparr>)"

definition main_step ::
  "(main_state \<Rightarrow> main_state dbm) \<Rightarrow> bool \<Rightarrow> scan_system \<Rightarrow> scan_system" where
  "main_step loop_step panic_exits c = (case ss_main c of
      MainExit p \<Rightarrow> c
    | MainUnwind p k \<Rightarrow> unwind_step p k c
    | m \<Rightarrow>
        (case loop_step m (ss_state c) of
           (Ok m, s) \<Rightarrow> c\<lparr>ss_main := m, ss_state := s\<rparr>
         | (Err e, s) \<Rightarrow> c\<lparr>ss_main := panicked panic_exits ''sync_loop failed'' (MainUnwind ''sync_loop failed'' 0),
             ss_state := s\<rparr>
         | (Panic p, s) \<Rightarrow> c\<lparr>ss_main := panicked panic_exits p (MainUnwind p 0), ss_state := s\<rparr>))"

definition safe_thread_step ::
  "(nat \<Rightarrow> bool \<Rightarrow> thread_state \<Rightarrow> thread_state dbm) \<Rightarrow> bool \<Rightarrow> nat \<Rightarrow> scan_system \<Rightarrow> scan_system" where
  "safe_thread_step step panic_exits i c =
     (if i < length (ss_threads c) then
        (case step i (gth_stop_requested (ss_handles c ! i)) (ss_threads c ! i) (ss_state c) of
           (Ok l, s) \<Rightarrow> c\<lparr>ss_threads := (ss_threads c)[i := l], ss_state := s\<rparr>
         | (Err e, s) \<Rightarrow> c\<lparr>ss_state := s\<rparr>
         | (Panic p, s) \<Rightarrow> c\<lparr>ss_threads := (ss_threads c)[i := ThreadEnded (Panic p)], ss_state := s,
             ss_main := panicked panic_exits p (ss_main c)\<rparr>)
      else c)"

text \<open>One step of the process: of the main thread or of thread \<open>i\<close>. After its end nothing runs.\<close>

definition scan_step ::
  "(main_state \<Rightarrow> main_state dbm) \<Rightarrow> (nat \<Rightarrow> bool \<Rightarrow> thread_state \<Rightarrow> thread_state dbm) \<Rightarrow> bool
   \<Rightarrow> nat option \<Rightarrow> scan_system \<Rightarrow> scan_system" where
  "scan_step loop_step step panic_exits who c = (case ss_main c of
      MainExit p \<Rightarrow> c
    | _ \<Rightarrow> (case who of
        None \<Rightarrow> main_step loop_step panic_exits c
      | Some i \<Rightarrow> safe_thread_step step panic_exits i c))"

text \<open>The system after \<open>t\<close> steps of a schedule, and the run to the end of the process.\<close>

primrec scan_run :: "(nat option \<Rightarrow> scan_system \<Rightarrow> scan_system) \<Rightarrow> (nat \<Rightarrow> nat option) \<Rightarrow> nat
   \<Rightarrow> scan_system \<Rightarrow> scan_system" where
  "scan_run step schedule 0 c = c"
| "scan_run step schedule (Suc t) c = step (schedule t) (scan_run step schedule t c)"

partial_function (option) scan_exec ::
  "(nat option \<Rightarrow> scan_system \<Rightarrow> scan_system) \<Rightarrow> (nat \<Rightarrow> nat option) \<Rightarrow> nat \<Rightarrow> scan_system
   \<Rightarrow> ((error, unit) res \<times> state) option" where
  "scan_exec step schedule t c = (case ss_main c of
      MainExit p \<Rightarrow> Some (Panic p, ss_state c)
    | _ \<Rightarrow> scan_exec step schedule (Suc t) (step (schedule t) c))"

declare scan_exec.simps [code]


section \<open>Run alone, the steps are the code of the threads\<close>

text \<open>\<open>moves step\<close>: the steps of one thread that do not panic, the flag being as it may.\<close>

definition moves :: "('f \<Rightarrow> 'l \<Rightarrow> 'l dbm) \<Rightarrow> 'l \<times> state \<Rightarrow> 'l \<times> state \<Rightarrow> bool" where
  "moves step a b \<longleftrightarrow> (\<exists>flag. step flag (fst a) (snd a) = (Ok (fst b), snd b))"

lemma movesI: "step flag l s = (Ok l', s') \<Longrightarrow> moves step (l, s) (l', s')"
  unfolding moves_def by auto

text \<open>\<open>comes_to step a r s'\<close>: from \<open>a\<close> the thread comes to a step that ends with \<open>r\<close> in \<open>s'\<close>.\<close>

definition comes_to ::
  "('f \<Rightarrow> 'l \<Rightarrow> 'l dbm) \<Rightarrow> 'l \<times> state \<Rightarrow> (error, 'l) res \<Rightarrow> state \<Rightarrow> bool" where
  "comes_to step a r s' \<longleftrightarrow> (\<exists>l s flag. (moves step)\<^sup>*\<^sup>* a (l, s) \<and> step flag l s = (r, s'))"

lemma comes_toI: "step flag l s = (r, s') \<Longrightarrow> comes_to step (l, s) r s'"
  unfolding comes_to_def by blast

lemma comes_to_move: "moves step a b \<Longrightarrow> comes_to step b r s' \<Longrightarrow> comes_to step a r s'"
  unfolding comes_to_def by (meson converse_rtranclp_into_rtranclp)

lemma comes_to_Ok:
  assumes "comes_to step a (Ok l) s" and "comes_to step (l, s) r s'"
  shows "comes_to step a r s'"
proof -
  obtain l0 s0 flag where star: "(moves step)\<^sup>*\<^sup>* a (l0, s0)" and one: "step flag l0 s0 = (Ok l, s)"
    using assms(1) unfolding comes_to_def by blast
  from movesI [where step = step, OF one] star have "(moves step)\<^sup>*\<^sup>* a (l, s)" by simp
  with assms(2) show ?thesis unfolding comes_to_def by (meson rtranclp_trans)
qed

lemma sync_iteration_phases:
  "sync_iteration pool_get X gcfg ledger w = bnd (sync_plan pool_get ledger) (\<lambda>plan. case plan of
      None \<Rightarrow> ret False
    | Some bd \<Rightarrow> bnd (sync_next X gcfg bd (block_timestamp_of w bd)) (\<lambda>_. ret True))"
  by (simp add: sync_iteration_def sync_plan_def bnd_def lift_res_def ret_def Let_def fun_eq_iff
      split: res.split prod.split)

abbreviation main_moves where
  "main_moves pool_get X gcfg ledger w d \<equiv> \<lambda>flag :: unit. scan_loop_step pool_get X gcfg ledger w d"

lemma sync_iteration_comes_to:
  assumes "sync_iteration pool_get X gcfg (ledger m n) w s = (r, s')"
  shows "comes_to (main_moves pool_get X gcfg ledger w d) (MainSync m n, s)
    (rbind (expect_res ''sync_loop failed'' r) (\<lambda>more. Ok (if more then MainSync m (Suc n) else MainSleep m))) s'"
proof -
  let ?step = "main_moves pool_get X gcfg ledger w d"
  obtain r1 s1 where plan: "sync_plan pool_get (ledger m n) s = (r1, s1)" by fastforce
  note it = assms [unfolded sync_iteration_phases]
  show ?thesis
  proof (cases r1)
    case (Ok found)
    show ?thesis
    proof (cases found)
      case None
      with it plan Ok have "r = Ok False" "s' = s1" by (simp_all add: ret_def)
      moreover have "?step () (MainSync m n) s = (Ok (MainSleep m), s1)"
        using plan Ok None by (simp add: expect_def ret_def)
      ultimately show ?thesis by (simp add: comes_toI expect_res_def)
    next
      case (Some bd)
      let ?tx = "sync_next X gcfg bd (block_timestamp_of w bd)"
      have "?step () (MainSync m n) s = (Ok (MainTransaction m n bd), s1)"
        using plan Ok Some by (simp add: expect_def ret_def)
      then have "moves ?step (MainSync m n, s) (MainTransaction m n bd, s1)" by (rule movesI)
      moreover obtain r2 s2 where tx: "?tx s1 = (r2, s2)" by fastforce
      with it plan Ok Some have "r = rbind r2 (\<lambda>_. Ok True) \<and> s' = s2"
        by (cases r2) (simp_all add: ret_def)
      with tx have "?step () (MainTransaction m n bd) s1
          = (rbind (expect_res ''sync_loop failed'' r) (\<lambda>more. Ok (if more then MainSync m (Suc n) else MainSleep m)), s')"
        by (cases r2) (simp_all add: expect_def ret_def expect_res_def)
      ultimately show ?thesis using comes_to_move comes_toI by meson
    qed
  qed (use it plan in \<open>auto simp: expect_def expect_res_def intro!: comes_toI\<close>)
qed

text \<open>A run of \<open>sync_loop\<close>: the main thread comes to its sleep, or to the panic of its \<open>expect\<close>.\<close>

lemma loop_from_comes_to:
  "loop_from iteration n s = Some out \<Longrightarrow>
     (\<And>n. iteration n = sync_iteration pool_get X gcfg (ledger m n) w) \<Longrightarrow>
     comes_to (main_moves pool_get X gcfg ledger w d) (MainSync m n, s)
       (rbind (expect_res ''sync_loop failed'' (fst out)) (\<lambda>_. Ok (MainSleep m))) (snd out)"
proof (induction rule: loop_from.raw_induct [rotated, consumes 1, case_names step])
  case (step lf iteration n s out)
  obtain r0 s0 where it: "iteration n s = (r0, s0)" by fastforce
  note first = sync_iteration_comes_to [where ledger = ledger and m = m and n = n and d = d,
      OF it [unfolded step(3)]]
  show ?case
  proof (cases "r0 = Ok True")
    case True
    with step(2) it have "lf iteration (Suc n) s0 = Some out" by simp
    from comes_to_Ok [OF _ step(1) [OF this step(3)]] first True show ?thesis by (simp add: expect_res_def)
  next
    case False
    with step(2) it have "out = (loop_result r0, s0)" by auto
    with False first show ?thesis by (cases r0) (auto simp: loop_result_def expect_res_def)
  qed
qed

lemma sync_loop_comes_to:
  assumes "sync_loop pool_get X gcfg (ledger m) w s = Some out"
  shows "comes_to (main_moves pool_get X gcfg ledger w d) (MainSync m 0, s)
    (rbind (expect_res ''sync_loop failed'' (fst out)) (\<lambda>_. Ok (MainSleep m))) (snd out)"
  using assms unfolding sync_loop_def by (rule loop_from_comes_to) simp


text \<open>The same for the thread of a safe: a run of \<open>thread_entry_point\<close>.\<close>

abbreviation thread_moves where
  "thread_moves pool_get X js dec url_path url_join client_build http_get safe d \<equiv>
     thread_step pool_get X js dec url_path url_join client_build http_get safe d"

lemma process_transactions_split:
  "process_transactions pool_get X js dec safe (tx # txs) =
     bnd (process_transactions pool_get X js dec safe [tx]) (\<lambda>_. process_transactions pool_get X js dec safe txs)"
  by (simp add: process_transactions_def bnd_def ret_def fun_eq_iff split: res.split prod.split)

lemma process_transactions_comes_to:
  assumes "process_transactions pool_get X js dec (gs_audited_safe sync) txs s = (r, s')"
  shows "comes_to (thread_moves pool_get X js dec url_path url_join client_build http_get safe d)
    (ThreadProcessing sync n txs, s) (rbind r (\<lambda>_. Ok (ThreadSleeping sync n))) s'"
  using assms
proof (induction txs arbitrary: s)
  case Nil
  then show ?case by (auto simp: ret_def intro!: comes_toI)
next
  case (Cons tx txs)
  let ?step = "thread_moves pool_get X js dec url_path url_join client_build http_get safe d"
  obtain r1 s1 where one: "process_transactions pool_get X js dec (gs_audited_safe sync) [tx] s = (r1, s1)"
    by fastforce
  note rest = Cons.prems [unfolded process_transactions_split [of _ _ _ _ _ tx txs]]
  show ?case
  proof (cases r1)
    case (Ok u)
    with one have "?step False (ThreadProcessing sync n (tx # txs)) s = (Ok (ThreadProcessing sync n txs), s1)"
      by (simp add: ret_def)
    moreover have "process_transactions pool_get X js dec (gs_audited_safe sync) txs s1 = (r, s')"
      using rest one Ok by simp
    ultimately show ?thesis using comes_to_move [OF movesI Cons.IH] by blast
  qed (use rest one in \<open>auto intro!: comes_toI\<close>)
qed

lemma poll_with_comes_to:
  assumes "poll_with pool_get X js dec url_join (http_get n) sync s = Some (r, s')"
  shows "comes_to (thread_moves pool_get X js dec url_path url_join client_build http_get safe d)
    (ThreadFetching sync n, s) (rbind r (\<lambda>_. Ok (ThreadSleeping sync n))) s'"
proof -
  let ?step = "thread_moves pool_get X js dec url_path url_join client_build http_get safe d"
  obtain fetched where get: "get_all_transaction_data url_join (http_get n) (gs_fetcher sync)
      (asc_safe_addr (gs_audited_safe sync)) = Some fetched"
    and poll: "poll pool_get X js dec (gs_audited_safe sync) fetched s = (r, s')"
    using assms by (auto simp: poll_with_def)
  show ?thesis
  proof (cases fetched)
    case (Ok txs)
    with get have "?step False (ThreadFetching sync n) s = (Ok (ThreadProcessing sync n txs), s)"
      by (simp add: ret_def)
    moreover have "process_transactions pool_get X js dec (gs_audited_safe sync) txs s = (r, s')"
      using poll Ok by (simp add: poll_def)
    ultimately show ?thesis using comes_to_move [OF movesI process_transactions_comes_to] by blast
  next
    case (Err e)
    with get poll have "?step False (ThreadFetching sync n) s = (rbind r (\<lambda>_. Ok (ThreadSleeping sync n)), s')"
      by (cases r) (simp_all add: ret_def)
    then show ?thesis by (rule comes_toI)
  next
    case (Panic p)
    with get poll have "?step False (ThreadFetching sync n) s = (rbind r (\<lambda>_. Ok (ThreadSleeping sync n)), s')"
      by (cases r) (simp_all add: ret_def)
    then show ?thesis by (rule comes_toI)
  qed
qed

lemma poll_loop_comes_to:
  "poll_loop stop once d n s = Some out \<Longrightarrow>
     (\<And>n. once n = poll_with pool_get X js dec url_join (http_get n) sync) \<Longrightarrow>
     comes_to (thread_moves pool_get X js dec url_path url_join client_build http_get safe d)
       (ThreadPolling sync n, s) (rbind (fst out) (\<lambda>_. Ok (ThreadEnded (Ok ())))) (snd out)"
proof (induction rule: poll_loop.raw_induct [rotated, consumes 1, case_names step])
  case (step pl stop once d n s out)
  let ?step = "thread_moves pool_get X js dec url_path url_join client_build http_get safe d"
  show ?case
  proof (cases "stop n")
    case True
    with step(2) have "out = (Ok (), s)" by simp
    moreover have "?step True (ThreadPolling sync n) s = (Ok (ThreadEnded (Ok ())), s)" by (simp add: ret_def)
    from comes_toI [where step = ?step, OF this] have "comes_to ?step (ThreadPolling sync n, s) (Ok (ThreadEnded (Ok ()))) s" .
    ultimately show ?thesis by simp
  next
    case False
    with step(2) obtain o1 where o1: "once n s = Some o1" by (cases "once n s") auto
    have "?step False (ThreadPolling sync n) s = (Ok (ThreadFetching sync n), s)" by (simp add: ret_def)
    moreover have "comes_to ?step (ThreadFetching sync n, s) (rbind (fst o1) (\<lambda>_. Ok (ThreadSleeping sync n))) (snd o1)"
      using o1 step(3) by (intro poll_with_comes_to) simp
    ultimately have first: "comes_to ?step (ThreadPolling sync n, s)
        (rbind (fst o1) (\<lambda>_. Ok (ThreadSleeping sync n))) (snd o1)"
      by (rule comes_to_move [OF movesI])
    show ?thesis
    proof (cases "fst o1 = Ok ()")
      case True
      with step(2) False o1 have "pl stop once d (Suc n) (sleep d (snd o1)) = Some out" by simp
      note later = step(1) [OF this step(3)]
      have "?step False (ThreadSleeping sync n) (snd o1) = (Ok (ThreadPolling sync (Suc n)), sleep d (snd o1))" by simp
      from comes_to_Ok [OF _ comes_to_move [OF movesI [where step = ?step, OF this] later]] first True
      show ?thesis by simp
    next
      case fails: False
      with step(2) False o1 have "out = o1" by simp
      with fails first show ?thesis by (cases "fst o1") simp_all
    qed
  qed
qed

lemma thread_comes_to:
  assumes "thread_entry_point pool_get X js dec url_path url_join client_build http_get stop safe d s = Some out"
  shows "comes_to (thread_moves pool_get X js dec url_path url_join client_build http_get safe d)
    (ThreadStarting, s) (rbind (fst out) (\<lambda>_. Ok (ThreadEnded (Ok ())))) (snd out)"
proof -
  let ?step = "thread_moves pool_get X js dec url_path url_join client_build http_get safe d"
  show ?thesis
  proof (cases "gnosis_sync_new url_path url_join client_build safe")
    case (Ok sync)
    then have "?step False ThreadStarting s = (Ok (ThreadPolling sync 0), s)" by (simp add: ret_def)
    moreover have "comes_to ?step (ThreadPolling sync 0, s) (rbind (fst out) (\<lambda>_. Ok (ThreadEnded (Ok ())))) (snd out)"
      by (rule poll_loop_comes_to [of stop _ d 0]) (use assms Ok in \<open>simp_all add: thread_entry_point_def\<close>)
    ultimately show ?thesis by (rule comes_to_move [OF movesI])
  qed (use assms in \<open>auto simp: thread_entry_point_def lift_res_def intro!: comes_toI [of _ False]\<close>)
qed


section \<open>Every interleaving\<close>

text \<open>Where the threads are: the block the main thread is about to store is one of the ledger, and each
  safe's thread works for its safe.\<close>

definition ledger_block ::
  "watcher \<Rightarrow> (nat \<Rightarrow> block_contents) \<Rightarrow> (nat \<Rightarrow> datetime option) \<Rightarrow> block_data \<Rightarrow> bool" where
  "ledger_block w bc ts bd \<longleftrightarrow> (\<exists>k < 2 ^ 63. blk_index (bd_block bd) = of_nat k \<and> bd_contents bd = bc k
     \<and> block_timestamp_of w bd = ts k)"

fun main_ok :: "(block_data \<Rightarrow> bool) \<Rightarrow> main_state \<Rightarrow> bool" where
  "main_ok P (MainTransaction m n bd) \<longleftrightarrow> P bd"
| "main_ok P _ \<longleftrightarrow> True"

fun thread_ok :: "audited_safe_config \<Rightarrow> thread_state \<Rightarrow> bool" where
  "thread_ok safe (ThreadPolling sync n) \<longleftrightarrow> gs_audited_safe sync = safe"
| "thread_ok safe (ThreadFetching sync n) \<longleftrightarrow> gs_audited_safe sync = safe"
| "thread_ok safe (ThreadProcessing sync n txs) \<longleftrightarrow> gs_audited_safe sync = safe"
| "thread_ok safe (ThreadSleeping sync n) \<longleftrightarrow> gs_audited_safe sync = safe"
| "thread_ok safe _ \<longleftrightarrow> True"

definition scan_ok :: "(block_data \<Rightarrow> bool) \<Rightarrow> audited_safe_config list \<Rightarrow> scan_system \<Rightarrow> bool" where
  "scan_ok P safes c \<longleftrightarrow> main_ok P (ss_main c) \<and> list_all2 thread_ok safes (ss_threads c)"

lemma sync_plan_block:
  assumes "ledger_serves ledger w bc ts" and "sync_plan pool_get ledger s = (Ok (Some bd), s')"
  shows "ledger_block w bc ts bd"
proof -
  obtain n k where n: "ldb_num_blocks ledger = Ok n" and "k \<noteq> n" "\<not> n < k" and k: "ldb_get_block_data ledger k = Ok bd"
    using assms(2) unfolding sync_plan_def
    by (auto simp: Let_def lift_res_def ret_def split: if_splits elim!: bnd_eq_OkE)
  then have "k < n" by simp
  then have "unat k < unat n" by (simp add: word_less_nat_alt)
  moreover have "unat n \<le> 2 ^ 63" using assms(1) n by (simp add: ledger_serves_def)
  ultimately show ?thesis
    unfolding ledger_block_def using assms(1) k by (intro exI [of _ "unat k"]) (simp add: ledger_serves_def)
qed

lemma loop_step_ok:
  assumes "\<And>m n. ledger_serves (ledger m n) w bc ts"
    and "scan_loop_step pool_get X gcfg ledger w d m s = (Ok m', s')" and "main_ok (ledger_block w bc ts) m"
  shows "main_ok (ledger_block w bc ts) m'"
proof (cases m)
  case (MainSync i j)
  then obtain plan s1 where "sync_plan pool_get (ledger i j) s = (Ok plan, s1)"
    and "m' = (case plan of None \<Rightarrow> MainSleep i | Some bd \<Rightarrow> MainTransaction i j bd)"
    using assms(2) by (auto simp: expect_def ret_def split: prod.splits res.splits elim!: bnd_eq_OkE)
  then show ?thesis using sync_plan_block [OF assms(1)] by (auto split: option.splits)
qed (use assms(2,3) in \<open>auto simp: expect_def ret_def split: prod.splits res.splits elim!: bnd_eq_OkE\<close>)

lemma thread_step_ok:
  assumes "thread_step pool_get X js dec url_path url_join client_build http_get safe d stop l s = (Ok l', s')"
    and "thread_ok safe l"
  shows "thread_ok safe l'"
proof (cases l)
  case ThreadStarting
  then show ?thesis using assms(1)
    by (auto simp: ret_def lift_res_def gnosis_sync_new_def rbind_eq_Ok split: res.splits)
next
  case (ThreadProcessing sync n txs)
  then show ?thesis using assms by (cases txs) (auto simp: ret_def elim!: bnd_eq_OkE)
qed (use assms in \<open>auto simp: ret_def split: if_splits option.splits res.splits elim!: bnd_eq_OkE\<close>)

text \<open>What a relation must contain for the steps of all threads to be steps of it.\<close>

definition covers ::
  "(state \<Rightarrow> state \<Rightarrow> bool) \<Rightarrow> unit dbm \<Rightarrow> ext \<Rightarrow> (json \<Rightarrow> string) \<Rightarrow> (json \<Rightarrow> (string, gnosis_transaction) res)
   \<Rightarrow> gnosis_safe_config option \<Rightarrow> (block_data \<Rightarrow> bool) \<Rightarrow> watcher \<Rightarrow> audited_safe_config list \<Rightarrow> bool" where
  "covers R pool_get X js dec gcfg P w safes \<longleftrightarrow> steps R pool_get
     \<and> (\<forall>bd. P bd \<longrightarrow> steps R (sync_next X gcfg bd (block_timestamp_of w bd)))
     \<and> (\<forall>safe \<in> set safes. \<forall>fetched. steps R (poll pool_get X js dec safe fetched))
     \<and> (\<forall>ms s. R s (sleep ms s))"

lemma loop_step_steps:
  assumes "covers R pool_get X js dec gcfg P w safes" and "main_ok P m"
  shows "steps R (scan_loop_step pool_get X gcfg ledger w d m)"
proof (cases m)
  case (MainSync i j)
  have "steps R (sync_plan pool_get (ledger i j))"
    unfolding sync_plan_def Let_def using assms(1) by (intro steps_intros) (simp add: covers_def)
  then show ?thesis unfolding MainSync scan_loop_step.simps by (intro steps_intros)
next
  case (MainTransaction i j bd)
  then show ?thesis using assms by (auto simp: covers_def intro!: steps_intros)
qed (use assms in \<open>auto simp: covers_def steps_def ret_def\<close>)

lemma thread_step_steps:
  assumes "covers R pool_get X js dec gcfg P w safes" and "safe \<in> set safes" and "thread_ok safe l"
  shows "steps R (thread_step pool_get X js dec url_path url_join client_build http_get safe d stop l)"
proof -
  have poll: "steps R (poll pool_get X js dec safe fetched)" for fetched using assms(1,2) by (simp add: covers_def)
  show ?thesis
  proof (cases l)
    case ThreadStarting
    then show ?thesis by (auto intro: steps_basic split: res.split)
  next
    case (ThreadFetching sync n)
    then have "gs_audited_safe sync = safe" using assms(3) by simp
    with ThreadFetching poll show ?thesis by (simp add: steps_bnd steps_basic split: res.split option.split)
  next
    case (ThreadProcessing sync n txs)
    have "steps R (process_transactions pool_get X js dec safe [tx])" for tx
      using poll [of "Ok [tx]"] by (simp add: poll_def)
    with ThreadProcessing assms(3) show ?thesis by (cases txs) (auto intro!: steps_bnd steps_basic)
  next
    case (ThreadSleeping sync n)
    with assms(1) show ?thesis by (auto simp: covers_def steps_def)
  qed (simp_all add: steps_basic)
qed

text \<open>A step of the process keeps the threads in order and takes only steps of \<open>R\<close> on the state.\<close>

lemma unwind_step_frame [simp]:
  "ss_state (unwind_step p k c) = ss_state c" "ss_threads (unwind_step p k c) = ss_threads c"
  by (simp_all add: unwind_step_def Let_def split: option.split prod.split res.split)

lemma unwind_step_main_ok: "main_ok P (ss_main c) \<Longrightarrow> main_ok P (ss_main (unwind_step p k c))"
  by (simp add: unwind_step_def Let_def split: option.split prod.split res.split)

lemma panicked_ok: "main_ok P m \<Longrightarrow> main_ok P (panicked b p m)"
  by (simp add: panicked_def)

lemma main_step_covered:
  assumes "scan_ok P safes c" and "\<And>m. main_ok P m \<Longrightarrow> steps R (loop_step m)"
    and "\<And>m s m' s'. main_ok P m \<Longrightarrow> loop_step m s = (Ok m', s') \<Longrightarrow> main_ok P m'"
  shows "scan_ok P safes (main_step loop_step panic_exits c) \<and> R\<^sup>*\<^sup>* (ss_state c) (ss_state (main_step loop_step panic_exits c))"
proof -
  have ok: "main_ok P (ss_main c)" "list_all2 thread_ok safes (ss_threads c)" using assms(1) by (simp_all add: scan_ok_def)
  obtain r s' where run: "loop_step (ss_main c) (ss_state c) = (r, s')" by fastforce
  have "R\<^sup>*\<^sup>* (ss_state c) s'" by (rule stepsD [OF assms(2) [OF ok(1)] run])
  moreover have "r = Ok m' \<Longrightarrow> main_ok P m'" for m' using assms(3) [OF ok(1)] run by blast
  ultimately show ?thesis
    using ok run by (cases "ss_main c"; cases r)
      (simp_all add: main_step_def scan_ok_def unwind_step_main_ok panicked_ok)
qed

lemma safe_thread_step_covered:
  assumes "scan_ok P safes c"
    and "\<And>i stop l. i < length safes \<Longrightarrow> thread_ok (safes ! i) l \<Longrightarrow> steps R (step i stop l)"
    and "\<And>i stop l s l' s'. i < length safes \<Longrightarrow> thread_ok (safes ! i) l \<Longrightarrow> step i stop l s = (Ok l', s')
       \<Longrightarrow> thread_ok (safes ! i) l'"
  shows "scan_ok P safes (safe_thread_step step panic_exits i c)
    \<and> R\<^sup>*\<^sup>* (ss_state c) (ss_state (safe_thread_step step panic_exits i c))"
proof (cases "i < length (ss_threads c)")
  case True
  have ok: "main_ok P (ss_main c)" "list_all2 thread_ok safes (ss_threads c)" using assms(1) by (simp_all add: scan_ok_def)
  with True have i: "i < length safes" "thread_ok (safes ! i) (ss_threads c ! i)"
    by (simp_all add: list_all2_conv_all_nth)
  have upd: "thread_ok (safes ! i) l \<Longrightarrow> list_all2 thread_ok safes ((ss_threads c)[i := l])" for l
    using ok(2) True by (auto simp: list_all2_conv_all_nth nth_list_update)
  obtain r s' where run: "step i (gth_stop_requested (ss_handles c ! i)) (ss_threads c ! i) (ss_state c) = (r, s')"
    by fastforce
  have "R\<^sup>*\<^sup>* (ss_state c) s'" by (rule stepsD [OF assms(2) [OF i] run])
  moreover have "r = Ok l \<Longrightarrow> thread_ok (safes ! i) l" for l using assms(3) [OF i] run by blast
  ultimately show ?thesis
    using True ok(1,2) run upd by (cases r) (simp_all add: safe_thread_step_def scan_ok_def panicked_ok)
qed (simp add: safe_thread_step_def assms(1))

lemma scan_run_covered:
  assumes "scan_ok P safes c"
    and "\<And>who c. scan_ok P safes c \<Longrightarrow> scan_ok P safes (step who c) \<and> R\<^sup>*\<^sup>* (ss_state c) (ss_state (step who c))"
  shows "scan_ok P safes (scan_run step schedule t c) \<and> R\<^sup>*\<^sup>* (ss_state c) (ss_state (scan_run step schedule t c))"
  by (induction t) (use assms in \<open>auto intro: rtranclp_trans\<close>)

text \<open>What the command returns is the state at some moment of its run.\<close>

lemma scan_exec_run:
  "scan_exec step schedule t c = Some out \<Longrightarrow> c = scan_run step schedule t c0 \<Longrightarrow>
     \<exists>t' p. out = (Panic p, ss_state (scan_run step schedule t' c0)) \<and> ss_main (scan_run step schedule t' c0) = MainExit p"
proof (induction rule: scan_exec.raw_induct [rotated, consumes 1, case_names step])
  case (step se f schedule t c out)
  show ?case
  proof (cases "\<exists>p. ss_main c = MainExit p")
    case True
    with step(2,3) show ?thesis by (intro exI [of _ t]) auto
  next
    case False
    with step(2) have "se f schedule (Suc t) (f (schedule t) c) = Some out" by (cases "ss_main c") auto
    from step(1) [OF this] step(3) show ?thesis by simp
  qed
qed


lemma scan_step_exit: "ss_main c = MainExit p \<Longrightarrow> scan_step loop_step step b who c = c"
  by (simp add: scan_step_def)

lemma scan_exec_returns:
  assumes "ss_main (scan_run step schedule (t + k) c) = MainExit p"
    and exit: "\<And>who c p. ss_main c = MainExit p \<Longrightarrow> step who c = c"
  shows "scan_exec step schedule t (scan_run step schedule t c)
    = Some (Panic p, ss_state (scan_run step schedule (t + k) c))"
  using assms(1)
proof (induction k arbitrary: t)
  case 0
  then show ?case by (subst scan_exec.simps) simp
next
  case (Suc k)
  show ?case
  proof (cases "\<exists>q. ss_main (scan_run step schedule t c) = MainExit q")
    case True
    then obtain q where q: "ss_main (scan_run step schedule t c) = MainExit q" by blast
    have "scan_run step schedule (t + j) c = scan_run step schedule t c" for j
      by (induction j) (simp_all add: exit [OF q])
    from this [of "Suc k"] Suc.prems q show ?thesis by (subst scan_exec.simps) simp
  next
    case False
    with Suc.IH [of "Suc t"] Suc.prems show ?thesis
      by (subst scan_exec.simps) (cases "ss_main (scan_run step schedule t c)"; simp)
  qed
qed

end
