(* ===== verification/Convert.thy ===== *)
theory Convert
  imports Gnosis_Tables
begin

text \<open>
  Conversions between database rows and the protobuf messages of the API, \<open>src/convert\<close>. The
  messages have the fields of \<open>api/proto/reserve_auditor.proto\<close>; setting a field of a new message
  and reading it back are record construction and selection. \<open>timestamp_nanos_opt\<close> and
  \<open>timestamp_nanos\<close> are those of \<open>chrono\<close>, \<open>compressed\<close> is \<open>CompressedRistrettoPublic::try_from\<close>;
  what is used of them is stated in the locale \<open>proto_values\<close>.

  The theorems: a stored deposit or withdrawal that is converted to its message and back is
  unchanged, and the message of the counters shows every counter.
\<close>

section \<open>Messages\<close>

record proto_gnosis_safe_deposit =
  pd_id :: i32
  pd_eth_tx_hash :: string
  pd_eth_tx_value :: string
  pd_eth_block_number :: u64
  pd_safe_addr :: string
  pd_from_addr :: string
  pd_token_addr :: string
  pd_amount :: u64
  pd_expected_mc_mint_tx_nonce_hex :: string
  pd_execution_date :: u64

record proto_gnosis_safe_withdrawal =
  pw_id :: i32
  pw_eth_tx_hash :: string
  pw_eth_tx_value :: string
  pw_eth_block_number :: u64
  pw_safe_addr :: string
  pw_token_addr :: string
  pw_to_addr :: string
  pw_amount :: u64
  pw_mc_tx_out_pub_key :: bytes
  pw_execution_date :: u64

record proto_gnosis_safe_tx =
  pt_eth_tx_hash :: string
  pt_raw_tx_json :: string

record proto_counters =
  pc_id :: i32
  pc_num_blocks_synced :: u64
  pc_num_burns_exceeding_balance :: u64
  pc_num_mint_txs_without_matching_mint_config :: u64
  pc_num_mismatching_mints_and_deposits :: u64
  pc_num_mismatching_burns_and_withdrawals :: u64
  pc_num_unknown_ethereum_token_deposits :: u64
  pc_num_unknown_ethereum_token_withdrawals :: u64
  pc_num_mints_to_unknown_safe :: u64
  pc_num_burns_from_unknown_safe :: u64
  pc_num_invalid_ethereum_transactions :: u64
  pc_num_invalid_multi_sig_transactions :: u64
  pc_num_unexpected_errors_matching_deposits_to_mints :: u64
  pc_num_unexpected_errors_matching_mints_to_deposits :: u64
  pc_num_unexpected_errors_matching_withdrawals_to_burns :: u64
  pc_num_unexpected_errors_matching_burns_to_withdrawals :: u64

section \<open>Conversions\<close>

definition execution_date_nanos :: "(datetime \<Rightarrow> i64 option) \<Rightarrow> datetime \<Rightarrow> (error, u64) res" where
  "execution_date_nanos timestamp_nanos_opt t =
     rbind (res_unwrap ''Invalid execution_date stored in database'' (timestamp_nanos_opt t))
       (\<lambda>nanos. Ok (as_u64 nanos))"

definition proto_id :: "i32 \<Rightarrow> i32 option" where
  "proto_id i = (if i = 0 then None else Some i)"

definition deposit_to_proto ::
  "ext \<Rightarrow> (datetime \<Rightarrow> i64 option) \<Rightarrow> gnosis_safe_deposit \<Rightarrow> (error, proto_gnosis_safe_deposit) res" where
  "deposit_to_proto X timestamp_nanos_opt src =
     rbind (execution_date_nanos timestamp_nanos_opt (deposit_execution_date src)) (\<lambda>execution_date.
     Ok \<lparr>pd_id = (case deposit_id src of None \<Rightarrow> 0 | Some i \<Rightarrow> i),
         pd_eth_tx_hash = eth_tx_hash_display X (deposit_eth_tx_hash src),
         pd_eth_tx_value = eth_tx_value_to_string (deposit_eth_tx_value src),
         pd_eth_block_number = deposit_eth_block_number src,
         pd_safe_addr = eth_addr_str (deposit_safe_addr src),
         pd_from_addr = eth_addr_str (deposit_from_addr src),
         pd_token_addr = eth_addr_str (deposit_token_addr src),
         pd_amount = deposit_amount src,
         pd_expected_mc_mint_tx_nonce_hex = expected_mc_mint_tx_nonce_hex src,
         pd_execution_date = execution_date\<rparr>)"

definition deposit_from_proto ::
  "ext \<Rightarrow> (i64 \<Rightarrow> datetime) \<Rightarrow> proto_gnosis_safe_deposit \<Rightarrow> (error, gnosis_safe_deposit) res" where
  "deposit_from_proto X timestamp_nanos src =
     (let execution_date = timestamp_nanos (as_i64 (pd_execution_date src)) in
     rbind (map_err Gnosis (eth_tx_hash_from_str X (pd_eth_tx_hash src))) (\<lambda>eth_tx_hash.
     rbind (map_err Gnosis (eth_tx_value_from_str (pd_eth_tx_value src))) (\<lambda>eth_tx_value.
     rbind (map_err Gnosis (eth_addr_from_str X (pd_safe_addr src))) (\<lambda>safe_addr.
     rbind (map_err Gnosis (eth_addr_from_str X (pd_token_addr src))) (\<lambda>token_addr.
     rbind (map_err Gnosis (eth_addr_from_str X (pd_from_addr src))) (\<lambda>from_addr.
     Ok (gnosis_safe_deposit_new X (proto_id (pd_id src)) eth_tx_hash execution_date eth_tx_value
           (pd_eth_block_number src) safe_addr token_addr from_addr (pd_amount src))))))))"

definition withdrawal_to_proto ::
  "ext \<Rightarrow> (bytes \<Rightarrow> (string, bytes) res) \<Rightarrow> (datetime \<Rightarrow> i64 option) \<Rightarrow> gnosis_safe_withdrawal
   \<Rightarrow> (error, proto_gnosis_safe_withdrawal) res" where
  "withdrawal_to_proto X compressed timestamp_nanos_opt src =
     rbind (withdrawal_mc_tx_out_public_key X compressed src) (\<lambda>mc_tx_out_pub_key.
     rbind (execution_date_nanos timestamp_nanos_opt (withdrawal_execution_date src)) (\<lambda>execution_date.
     Ok \<lparr>pw_id = (case withdrawal_id src of None \<Rightarrow> 0 | Some i \<Rightarrow> i),
         pw_eth_tx_hash = eth_tx_hash_display X (withdrawal_eth_tx_hash src),
         pw_eth_tx_value = eth_tx_value_to_string (withdrawal_eth_tx_value src),
         pw_eth_block_number = withdrawal_eth_block_number src,
         pw_safe_addr = eth_addr_str (withdrawal_safe_addr src),
         pw_token_addr = eth_addr_str (withdrawal_token_addr src),
         pw_to_addr = eth_addr_str (withdrawal_to_addr src),
         pw_amount = withdrawal_amount src,
         pw_mc_tx_out_pub_key = mc_tx_out_pub_key,
         pw_execution_date = execution_date\<rparr>))"

definition withdrawal_from_proto ::
  "ext \<Rightarrow> (i64 \<Rightarrow> datetime) \<Rightarrow> proto_gnosis_safe_withdrawal \<Rightarrow> (error, gnosis_safe_withdrawal) res" where
  "withdrawal_from_proto X timestamp_nanos src =
     (let execution_date = timestamp_nanos (as_i64 (pw_execution_date src)) in
     rbind (map_err Gnosis (eth_tx_hash_from_str X (pw_eth_tx_hash src))) (\<lambda>eth_tx_hash.
     rbind (map_err Gnosis (eth_tx_value_from_str (pw_eth_tx_value src))) (\<lambda>eth_tx_value.
     rbind (map_err Gnosis (eth_addr_from_str X (pw_safe_addr src))) (\<lambda>safe_addr.
     rbind (map_err Gnosis (eth_addr_from_str X (pw_token_addr src))) (\<lambda>token_addr.
     rbind (map_err Gnosis (eth_addr_from_str X (pw_to_addr src))) (\<lambda>to_addr.
     Ok (gnosis_safe_withdrawal_new (proto_id (pw_id src)) eth_tx_hash execution_date eth_tx_value
           (pw_eth_block_number src) safe_addr token_addr to_addr (pw_amount src)
           (hex_encode X (pw_mc_tx_out_pub_key src)))))))))"

definition gnosis_safe_tx_to_proto :: "gnosis_safe_tx \<Rightarrow> proto_gnosis_safe_tx" where
  "gnosis_safe_tx_to_proto src =
     \<lparr>pt_eth_tx_hash = gst_eth_tx_hash src, pt_raw_tx_json = gst_raw_tx_json src\<rparr>"

definition gnosis_safe_tx_from_proto :: "proto_gnosis_safe_tx \<Rightarrow> gnosis_safe_tx" where
  "gnosis_safe_tx_from_proto src =
     \<lparr>gst_eth_tx_hash = pt_eth_tx_hash src, gst_raw_tx_json = pt_raw_tx_json src\<rparr>"

text \<open>The id of a new message is 0 and is not set.\<close>

definition counters_to_proto :: "counters \<Rightarrow> proto_counters" where
  "counters_to_proto src = \<lparr>pc_id = 0,
     pc_num_blocks_synced = impl_get num_blocks_synced src,
     pc_num_burns_exceeding_balance = impl_get num_burns_exceeding_balance src,
     pc_num_mint_txs_without_matching_mint_config = impl_get num_mint_txs_without_matching_mint_config src,
     pc_num_mismatching_mints_and_deposits = impl_get num_mismatching_mints_and_deposits src,
     pc_num_mismatching_burns_and_withdrawals = impl_get num_mismatching_burns_and_withdrawals src,
     pc_num_unknown_ethereum_token_deposits = impl_get num_unknown_ethereum_token_deposits src,
     pc_num_unknown_ethereum_token_withdrawals = impl_get num_unknown_ethereum_token_withdrawals src,
     pc_num_mints_to_unknown_safe = impl_get num_mints_to_unknown_safe src,
     pc_num_burns_from_unknown_safe = impl_get num_burns_from_unknown_safe src,
     pc_num_invalid_ethereum_transactions = impl_get num_invalid_ethereum_transactions src,
     pc_num_invalid_multi_sig_transactions = impl_get num_invalid_multi_sig_transactions src,
     pc_num_unexpected_errors_matching_deposits_to_mints =
       impl_get num_unexpected_errors_matching_deposits_to_mints src,
     pc_num_unexpected_errors_matching_mints_to_deposits =
       impl_get num_unexpected_errors_matching_mints_to_deposits src,
     pc_num_unexpected_errors_matching_withdrawals_to_burns =
       impl_get num_unexpected_errors_matching_withdrawals_to_burns src,
     pc_num_unexpected_errors_matching_burns_to_withdrawals =
       impl_get num_unexpected_errors_matching_burns_to_withdrawals src\<rparr>"

section \<open>What is relied on\<close>

text \<open>Nanoseconds of an instant fit an \<open>i64\<close> when there are any, and determine it; parsing a
  compressed key keeps its bytes.\<close>

locale proto_values =
  fixes nanos_opt :: "datetime \<Rightarrow> i64 option" and nanos :: "i64 \<Rightarrow> datetime"
    and compressed :: "bytes \<Rightarrow> (string, bytes) res"
  assumes nanos_range: "nanos_opt t = Some n \<Longrightarrow> - (2 ^ 63) \<le> n \<and> n < 2 ^ 63"
    and nanos_inverse: "nanos_opt t = Some n \<Longrightarrow> nanos n = t"
    and compressed_bytes: "compressed bs = Ok k \<Longrightarrow> k = bs"
begin

lemma date_roundtrip:
  assumes "execution_date_nanos nanos_opt t = Ok w"
  shows "nanos (as_i64 w) = t"
proof -
  from assms obtain n where "nanos_opt t = Some n" "w = as_u64 n"
    by (auto simp: execution_date_nanos_def rbind_eq_Ok)
  then show ?thesis
    using nanos_range [of t n] nanos_inverse [of t n] by (simp add: as_i64_as_u64)
qed

end

text \<open>With instants counted in nanoseconds: \<open>timestamp_nanos_opt\<close> is the range check, and a key is any
  32 bytes.\<close>

definition nanos_opt_ref :: "datetime \<Rightarrow> i64 option" where
  "nanos_opt_ref t = (if - (2 ^ 63) \<le> t \<and> t < 2 ^ 63 then Some t else None)"

definition compressed_ref :: "bytes \<Rightarrow> (string, bytes) res" where
  "compressed_ref bs = (if length bs = 32 then Ok bs else Err ''invalid length'')"

interpretation proto_ref: proto_values nanos_opt_ref id compressed_ref
  by unfold_locales (auto simp: nanos_opt_ref_def compressed_ref_def split: if_splits)

section \<open>Round trips\<close>

text \<open>Rows as the program stores them: values that were parsed or built by its own constructors.\<close>

definition addr_ok :: "ext \<Rightarrow> eth_addr \<Rightarrow> bool" where
  "addr_ok X a \<longleftrightarrow> eth_addr_from_str X (eth_addr_str a) = Ok a"

definition i64_ok :: "int \<Rightarrow> bool" where
  "i64_ok i \<longleftrightarrow> - (2 ^ 63) \<le> i \<and> i < 2 ^ 63"

definition deposit_row_ok :: "ext \<Rightarrow> gnosis_safe_deposit \<Rightarrow> bool" where
  "deposit_row_ok X x \<longleftrightarrow> gsd_id x \<noteq> Some 0 \<and> eth_tx_hash_wf (gsd_eth_tx_hash x) \<and> addr_ok X (gsd_safe_addr x)
     \<and> addr_ok X (gsd_token_addr x) \<and> addr_ok X (gsd_from_addr x) \<and> i64_ok (gsd_eth_block_number x)
     \<and> i64_ok (gsd_amount x) \<and> gsd_expected_mc_mint_tx_nonce_hex x =
         hex_encode X (mint_tx_nonce_to_bytes (EthereumGnosisDeposit (gsd_eth_tx_hash x)))"

definition withdrawal_row_ok :: "ext \<Rightarrow> gnosis_safe_withdrawal \<Rightarrow> bool" where
  "withdrawal_row_ok X x \<longleftrightarrow> gsw_id x \<noteq> Some 0 \<and> eth_tx_hash_wf (gsw_eth_tx_hash x) \<and> addr_ok X (gsw_safe_addr x)
     \<and> addr_ok X (gsw_token_addr x) \<and> addr_ok X (gsw_to_addr x) \<and> i64_ok (gsw_eth_block_number x)
     \<and> i64_ok (gsw_amount x) \<and> (\<exists>key. gsw_mc_tx_out_public_key_hex x = hex_encode X key)"

lemma as_i64_ok: "i64_ok i \<Longrightarrow> as_i64 (as_u64 i) = i"
  by (simp add: i64_ok_def as_i64_as_u64)

lemma proto_id_default: "i \<noteq> Some 0 \<Longrightarrow> proto_id (case i of None \<Rightarrow> 0 | Some j \<Rightarrow> j) = i"
  by (cases i) (auto simp: proto_id_def)

lemmas deposit_getter_defs = deposit_id_def deposit_eth_tx_hash_def deposit_execution_date_def
  deposit_eth_tx_value_def deposit_eth_block_number_def deposit_safe_addr_def deposit_token_addr_def
  deposit_from_addr_def deposit_amount_def expected_mc_mint_tx_nonce_hex_def

lemmas withdrawal_getter_defs = withdrawal_id_def withdrawal_eth_tx_hash_def withdrawal_execution_date_def
  withdrawal_eth_tx_value_def withdrawal_eth_block_number_def withdrawal_safe_addr_def withdrawal_token_addr_def
  withdrawal_to_addr_def withdrawal_amount_def

text \<open>A stored deposit survives the conversion to its API message and back, nonce included: the
  message of a row whose values are the program's own, read back, is that row.\<close>

lemma deposit_proto_roundtrip:
  assumes "hex_codec (hex_encode X) (hex_decode X)" and "proto_values nanos_opt nanos compressed"
    and "deposit_row_ok X x" and "deposit_to_proto X nanos_opt x = Ok p"
  shows "deposit_from_proto X nanos p = Ok x"
proof -
  from assms(4) obtain w where w: "execution_date_nanos nanos_opt (gsd_execution_date x) = Ok w"
    unfolding deposit_to_proto_def by (auto simp: rbind_eq_Ok deposit_getter_defs)
  note date = proto_values.date_roundtrip [OF assms(2) w]
  have hash: "eth_tx_hash_from_str X (eth_tx_hash_display X (gsd_eth_tx_hash x)) = Ok (gsd_eth_tx_hash x)"
    using eth_tx_hash_from_str_display [OF assms(1)] assms(3) by (simp add: deposit_row_ok_def)
  show ?thesis
    using assms(3,4) w date hash
    by (cases x) (auto simp: deposit_to_proto_def deposit_from_proto_def deposit_getter_defs deposit_row_ok_def
        addr_ok_def Let_def eth_tx_value_roundtrip gnosis_safe_deposit_new_def as_i64_ok proto_id_default)
qed

text \<open>The same for withdrawals, whose output key travels as bytes: the key read back is the stored
  hexadecimal text.\<close>

lemma withdrawal_proto_roundtrip:
  assumes "hex_codec (hex_encode X) (hex_decode X)" and "proto_values nanos_opt nanos compressed"
    and "withdrawal_row_ok X x" and "withdrawal_to_proto X compressed nanos_opt x = Ok p"
  shows "withdrawal_from_proto X nanos p = Ok x"
proof -
  obtain key where key: "gsw_mc_tx_out_public_key_hex x = hex_encode X key"
    using assms(3) by (auto simp: withdrawal_row_ok_def)
  from assms(4) obtain w k where w: "execution_date_nanos nanos_opt (gsw_execution_date x) = Ok w"
    and k: "compressed key = Ok k" "withdrawal_mc_tx_out_public_key X compressed x = Ok k"
    unfolding withdrawal_to_proto_def withdrawal_mc_tx_out_public_key_def key hex_codec.dec_enc [OF assms(1)]
    by (auto simp: rbind_eq_Ok withdrawal_getter_defs)
  note date = proto_values.date_roundtrip [OF assms(2) w]
  have hash: "eth_tx_hash_from_str X (eth_tx_hash_display X (gsw_eth_tx_hash x)) = Ok (gsw_eth_tx_hash x)"
    using eth_tx_hash_from_str_display [OF assms(1)] assms(3) by (simp add: withdrawal_row_ok_def)
  have "k = key" using proto_values.compressed_bytes [OF assms(2) k(1)] .
  then show ?thesis
    using assms(3,4) w date hash key k(2)
    by (cases x) (auto simp: withdrawal_to_proto_def withdrawal_from_proto_def withdrawal_getter_defs
        withdrawal_row_ok_def addr_ok_def Let_def eth_tx_value_roundtrip gnosis_safe_withdrawal_new_def as_i64_ok
        proto_id_default)
qed

lemma gnosis_safe_tx_proto_roundtrip: "gnosis_safe_tx_from_proto (gnosis_safe_tx_to_proto t) = t"
  by (simp add: gnosis_safe_tx_from_proto_def gnosis_safe_tx_to_proto_def)

text \<open>An id of 0 does not survive: it is read as a row that was never saved.\<close>

lemma proto_id_zero: "proto_id (case Some 0 of None \<Rightarrow> 0 | Some j \<Rightarrow> j) = None"
  by (simp add: proto_id_def)

end
