(* ===== verification/Grpc_Service.thy ===== *)
theory Grpc_Service
  imports Convert Block_Tables
begin

text \<open>
  The gRPC service, \<open>src/service.rs\<close>. A handler is a computation over the process state whose error is
  an \<open>RpcStatus\<close>; taking a connection from the pool is the parameter \<open>pool_get\<close>, and sending the
  result to the client is left out.

  The lemmas say what each of the three calls answers, in terms of the tables.
\<close>

section \<open>Handlers\<close>

datatype rpc_status_code = INTERNAL | NOT_FOUND

datatype rpc_status = RpcStatus rpc_status_code string

record grpc_block_audit_data =
  gbad_block_index :: u64

record get_block_audit_data_request =
  gbadr_block_index :: u64

type_synonym 'a rpc = "(state, rpc_status, 'a) comp"

text \<open>\<open>Result::map_err\<close> on the result of a call.\<close>

definition map_err_comp :: "('e \<Rightarrow> 'f) \<Rightarrow> ('s, 'e, 'a) comp \<Rightarrow> ('s, 'f, 'a) comp" where
  "map_err_comp f m = (\<lambda>s. case m s of (r, s') \<Rightarrow> (map_err f r, s'))"

definition internal_status :: "ext \<Rightarrow> error \<Rightarrow> rpc_status" where
  "internal_status X err = RpcStatus INTERNAL (error_display (eth_tx_hash_display X) err)"

fun block_audit_data_status :: "ext \<Rightarrow> u64 \<Rightarrow> error \<Rightarrow> rpc_status" where
  "block_audit_data_status X block_index NotFound =
     RpcStatus NOT_FOUND (''Block audit data not found for block index '' @ show_u64 block_index)"
| "block_audit_data_status X block_index err = internal_status X err"

definition get_block_audit_data_impl ::
  "unit dbm \<Rightarrow> ext \<Rightarrow> get_block_audit_data_request \<Rightarrow> grpc_block_audit_data rpc" where
  "get_block_audit_data_impl pool_get X req =
     bnd (map_err_comp (internal_status X) pool_get) (\<lambda>_.
     bnd (map_err_comp (block_audit_data_status X (gbadr_block_index req))
            (block_audit_data_get (gbadr_block_index req))) (\<lambda>block_audit_data.
     ret \<lparr>gbad_block_index = block_audit_data_block_index block_audit_data\<rparr>))"

definition get_last_block_audit_data_impl :: "unit dbm \<Rightarrow> ext \<Rightarrow> grpc_block_audit_data rpc" where
  "get_last_block_audit_data_impl pool_get X =
     bnd (map_err_comp (internal_status X) pool_get) (\<lambda>_.
     bnd (map_err_comp (internal_status X) last_block_audit_data) (\<lambda>found.
     bnd (ok_or (RpcStatus NOT_FOUND ''No last synced block index'') found) (\<lambda>block_audit_data.
     ret \<lparr>gbad_block_index = block_audit_data_block_index block_audit_data\<rparr>)))"

definition get_counters_impl :: "unit dbm \<Rightarrow> ext \<Rightarrow> proto_counters rpc" where
  "get_counters_impl pool_get X =
     bnd (map_err_comp (internal_status X) (bnd pool_get (\<lambda>_. counters_get)))
       (\<lambda>counters. ret (counters_to_proto counters))"

text \<open>The trait \<open>ReserveAuditorApi\<close>: each method hands the result of its handler to \<open>send_result\<close>; the
  value of \<open>rpc_handle\<close> is that result.\<close>

datatype rpc_request = RpcGetBlockAuditData get_block_audit_data_request | RpcGetLastBlockAuditData | RpcGetCounters

datatype rpc_response =
    GetBlockAuditDataResponse grpc_block_audit_data
  | GetLastBlockAuditDataResponse grpc_block_audit_data
  | GrpcCounters proto_counters

primrec rpc_handle :: "unit dbm \<Rightarrow> ext \<Rightarrow> rpc_request \<Rightarrow> rpc_response rpc" where
  "rpc_handle pool_get X (RpcGetBlockAuditData req) =
     bnd (get_block_audit_data_impl pool_get X req) (\<lambda>r. ret (GetBlockAuditDataResponse r))"
| "rpc_handle pool_get X RpcGetLastBlockAuditData =
     bnd (get_last_block_audit_data_impl pool_get X) (\<lambda>r. ret (GetLastBlockAuditDataResponse r))"
| "rpc_handle pool_get X RpcGetCounters =
     bnd (get_counters_impl pool_get X) (\<lambda>r. ret (GrpcCounters r))"

section \<open>Answers\<close>

lemma map_err_comp_simps [simp]:
  "m s = (Ok x, s') \<Longrightarrow> map_err_comp f m s = (Ok x, s')"
  "m s = (Err e, s') \<Longrightarrow> map_err_comp f m s = (Err (f e), s')"
  by (simp_all add: map_err_comp_def)

lemma block_audit_data_get_found:
  assumes "as_i64 i \<in> set (map bad_block_index (t_block_audit_data (st_db s)))"
  shows "\<exists>b. block_audit_data_get i s = (Ok b, s) \<and> block_audit_data_block_index b = i"
proof (cases "filter (\<lambda>r. bad_block_index r = as_i64 i) (t_block_audit_data (st_db s))")
  case Nil
  with assms show ?thesis by (auto simp: filter_empty_conv)
next
  case (Cons b bs)
  then have "bad_block_index b = as_i64 i" by (auto simp: filter_eq_Cons_iff)
  with Cons show ?thesis
    by (simp add: block_audit_data_get_def ret_def block_audit_data_block_index_def)
qed

lemma block_audit_data_get_absent:
  assumes "as_i64 i \<notin> bad_block_index ` set (t_block_audit_data (st_db s))"
  shows "block_audit_data_get i s = (Err NotFound, s)"
  using assms by (intro block_audit_data_get_missing) (auto simp: image_iff)

lemma pool_ok: "map_err_comp f (ret ()) s = (Ok (), s)"
  by (simp add: ret_def)

lemma get_block_audit_data_answer:
  "get_block_audit_data_impl (ret ()) X \<lparr>gbadr_block_index = i\<rparr> s =
     (if as_i64 i \<in> bad_block_index ` set (t_block_audit_data (st_db s)) then (Ok \<lparr>gbad_block_index = i\<rparr>, s)
      else (Err (RpcStatus NOT_FOUND (''Block audit data not found for block index '' @ show_u64 i)), s))"
proof (cases "as_i64 i \<in> bad_block_index ` set (t_block_audit_data (st_db s))")
  case True
  then obtain b where "block_audit_data_get i s = (Ok b, s)" "block_audit_data_block_index b = i"
    using block_audit_data_get_found by auto
  with True show ?thesis by (simp add: get_block_audit_data_impl_def pool_ok) (simp add: ret_def)
next
  case False
  with block_audit_data_get_absent [OF False] show ?thesis by (simp add: get_block_audit_data_impl_def pool_ok)
qed

lemma last_block_audit_data_found:
  assumes "t_block_audit_data (st_db s) \<noteq> []"
    and "\<forall>r \<in> set (t_block_audit_data (st_db s)). - (2 ^ 63) \<le> bad_block_index r \<and> bad_block_index r < 2 ^ 63"
  shows "\<exists>b. last_block_audit_data s = (Ok (Some b), s)
    \<and> block_audit_data_block_index b = as_u64 (Max (bad_block_index ` set (t_block_audit_data (st_db s))))"
proof -
  let ?t = "t_block_audit_data (st_db s)"
  let ?m = "Max (bad_block_index ` set ?t)"
  have "?m \<in> bad_block_index ` set ?t" using assms(1) by (intro Max_in) simp_all
  then have "as_i64 (as_u64 ?m) = ?m" and "?m \<in> set (map bad_block_index ?t)"
    using assms(2) by (auto intro: as_i64_as_u64)
  then obtain b where "block_audit_data_get (as_u64 ?m) s = (Ok b, s)" "block_audit_data_block_index b = as_u64 ?m"
    using block_audit_data_get_found [of "as_u64 ?m" s] by auto
  moreover have "last_synced_block_index s = (Ok (Some (as_u64 ?m)), s)"
    using assms(1) by (simp add: last_synced_block_index_def max_option_Some)
  ultimately show ?thesis by (simp add: last_block_audit_data_def) (simp add: ret_def)
qed

lemma last_block_audit_data_none:
  "t_block_audit_data (st_db s) = [] \<Longrightarrow> last_block_audit_data s = (Ok None, s)"
  by (simp add: last_block_audit_data_def last_synced_block_index_def max_option_def) (simp add: ret_def)

lemma get_last_block_audit_data_answer:
  assumes "\<forall>r \<in> set (t_block_audit_data (st_db s)). - (2 ^ 63) \<le> bad_block_index r \<and> bad_block_index r < 2 ^ 63"
  shows "get_last_block_audit_data_impl (ret ()) X s =
    (if t_block_audit_data (st_db s) = [] then (Err (RpcStatus NOT_FOUND ''No last synced block index''), s)
     else (Ok \<lparr>gbad_block_index = as_u64 (Max (bad_block_index ` set (t_block_audit_data (st_db s))))\<rparr>, s))"
proof (cases "t_block_audit_data (st_db s) = []")
  case True
  with last_block_audit_data_none [OF True] show ?thesis
    by (simp add: get_last_block_audit_data_impl_def ok_or_def pool_ok) (simp add: throw_def)
next
  case False
  with last_block_audit_data_found [OF False assms] show ?thesis
    by (auto simp: get_last_block_audit_data_impl_def ok_or_def pool_ok) (simp add: ret_def)
qed

text \<open>What the calls answer, for every state of the database; they change nothing.\<close>

lemma rpc_answers:
  assumes "\<forall>r \<in> set (t_block_audit_data (st_db s)). - (2 ^ 63) \<le> bad_block_index r \<and> bad_block_index r < 2 ^ 63"
    and "t_counters (st_db s) = [c]"
  shows "get_block_audit_data_impl (ret ()) X \<lparr>gbadr_block_index = i\<rparr> s =
      (if as_i64 i \<in> bad_block_index ` set (t_block_audit_data (st_db s)) then (Ok \<lparr>gbad_block_index = i\<rparr>, s)
       else (Err (RpcStatus NOT_FOUND (''Block audit data not found for block index '' @ show_u64 i)), s))
    \<and> get_last_block_audit_data_impl (ret ()) X s =
      (if t_block_audit_data (st_db s) = [] then (Err (RpcStatus NOT_FOUND ''No last synced block index''), s)
       else (Ok \<lparr>gbad_block_index = as_u64 (Max (bad_block_index ` set (t_block_audit_data (st_db s))))\<rparr>, s))
    \<and> get_counters_impl (ret ()) X s = (Ok (counters_to_proto c), s)"
  using assms
  by (simp add: get_block_audit_data_answer get_last_block_audit_data_answer)
    (simp add: get_counters_impl_def counters_get_def ret_def)

end
