(* ===== verification/Http_Service.thy ===== *)
theory Http_Service
  imports Audited_Burn Grpc_Service "HOL-Library.Multiset"
begin

text \<open>
  The HTTP API: the service \<open>src/http_api/service.rs\<close>, its response types
  \<open>src/http_api/api_types.rs\<close> and the routes \<open>src/http_api/routes.rs\<close>. A service method is a
  computation over the process state; the service's own state is the configuration it was started
  with. A route maps the service's error to its text. Serialization to JSON and the web framework
  are left out.

  The theorems: the totals are exact, the audited and the unaudited lists together are the tables,
  pages put together are the list, and a block with a mint that has no configuration cannot be
  shown.
\<close>

section \<open>Response types\<close>

record token_precision =
  tp_token_id :: token_id
  tp_token_eth_addrs :: "eth_addr list"
  tp_token_precision :: u8

record token_precision_response =
  tpr_max_precision :: u8
  tpr_token_base_precisions :: "token_precision list"

record block_audit_data_response =
  badr_block_index :: u64
  badr_balances :: "(u64 \<times> u64) list"

record audited_mint_response =
  amr_audited :: audited_mint
  amr_mint :: mint_tx
  amr_deposit :: gnosis_safe_deposit

record unaudited_gnosis_deposit_response =
  ugdr_deposit :: gnosis_safe_deposit

record audited_burn_response =
  abr_audited :: audited_burn
  abr_burn :: burn_tx_out
  abr_withdrawal :: gnosis_safe_withdrawal
  abr_decoded_burn_memo_bytes :: "bytes option"

record unaudited_burn_tx_out_response =
  ubr_burn :: burn_tx_out
  ubr_decoded_burn_memo_bytes :: "bytes option"

record token_type =
  tt_id :: token_id
  tt_name :: string

record ledger_balance_response =
  lbr_mint_balance :: string
  lbr_burn_balance :: string
  lbr_token_type :: token_type

record gnosis_safe_config_response =
  gscr_config :: gnosis_safe_config

record hybrid_mint_config =
  hmc_id :: i32
  hmc_token_id :: u64
  hmc_signer_set :: bytes
  hmc_mint_limit :: u64

record mint_with_config =
  mwc_mint_tx :: mint_tx
  mwc_mint_config_tx :: mint_config_tx
  mwc_mint_config :: hybrid_mint_config
  mwc_mint_tx_signers :: "bytes list"

record mint_config_tx_with_config =
  mcwc_mint_config_tx :: mint_config_tx
  mcwc_mint_configs :: "hybrid_mint_config list"

record mint_info_response =
  mir_mint_txs :: "mint_with_config list"
  mir_mint_config_txs :: "mint_config_tx_with_config list"

record burn_info_response =
  bir_burn :: burn_tx_out
  bir_decoded_burn_memo_bytes :: "bytes option"

text \<open>\<open>BlockAuditDataResponse::new\<close>; a token id is its number.\<close>

definition block_audit_data_response_new ::
  "block_audit_data \<Rightarrow> balance_map \<Rightarrow> block_audit_data_response" where
  "block_audit_data_response_new block_audit_data balances =
     \<lparr>badr_block_index = block_audit_data_block_index block_audit_data,
      badr_balances = collect_map (map (\<lambda>(token_id, balance). (token_id, balance)) balances)\<rparr>"

section \<open>The service\<close>

text \<open>\<open>xs[0]\<close>, which panics on an empty vector.\<close>

definition safes_0 :: "gnosis_safe_config \<Rightarrow> audited_safe_config dbm" where
  "safes_0 config = (case gsc_safes config of
      [] \<Rightarrow> lift_res (Panic ''index out of bounds: the len is 0 but the index is 0'')
    | safe # _ \<Rightarrow> ret safe)"

definition http_get_counters :: "unit dbm \<Rightarrow> counters dbm" where
  "http_get_counters pool_get = bnd pool_get (\<lambda>_. counters_get)"

definition http_get_token_precisions :: "gnosis_safe_config \<Rightarrow> token_precision_response dbm" where
  "http_get_token_precisions config =
     bnd (safes_0 config) (\<lambda>safe.
     ret \<lparr>tpr_max_precision = asc_token_decimals_max safe,
          tpr_token_base_precisions = map (\<lambda>token. \<lparr>tp_token_id = at_token_id token,
            tp_token_eth_addrs = at_eth_token_contract_addrs token,
            tp_token_precision = at_decimals token\<rparr>) (asc_tokens safe)\<rparr>)"

definition http_get_block_audit_data :: "unit dbm \<Rightarrow> u64 \<Rightarrow> block_audit_data_response dbm" where
  "http_get_block_audit_data pool_get block_index =
     bnd pool_get (\<lambda>_.
     bnd (block_audit_data_get block_index) (\<lambda>block_audit_data.
     bnd (get_balances_for_block (block_audit_data_block_index block_audit_data)) (\<lambda>balances.
     ret (block_audit_data_response_new block_audit_data balances))))"

definition http_get_last_block_audit_data :: "unit dbm \<Rightarrow> block_audit_data_response dbm" where
  "http_get_last_block_audit_data pool_get =
     bnd pool_get (\<lambda>_.
     bnd last_block_audit_data (\<lambda>found.
     bnd (ok_or NotFound found) (\<lambda>block_audit_data.
     bnd (get_balances_for_block (block_audit_data_block_index block_audit_data)) (\<lambda>balances.
     ret (block_audit_data_response_new block_audit_data balances)))))"

definition http_get_audited_mints ::
  "unit dbm \<Rightarrow> u64 option \<Rightarrow> u64 option \<Rightarrow> audited_mint_response list dbm" where
  "http_get_audited_mints pool_get offset limit =
     bnd pool_get (\<lambda>_.
     bnd (list_with_mint_and_deposit offset limit) (\<lambda>query_result.
     ret (map (\<lambda>(audited, mint, deposit).
       \<lparr>amr_audited = audited, amr_mint = mint, amr_deposit = deposit\<rparr>) query_result)))"

definition http_get_unaudited_gnosis_deposits ::
  "unit dbm \<Rightarrow> unaudited_gnosis_deposit_response list dbm" where
  "http_get_unaudited_gnosis_deposits pool_get =
     bnd pool_get (\<lambda>_.
     bnd find_unaudited_deposits (\<lambda>query_result.
     ret (map (\<lambda>deposit. \<lparr>ugdr_deposit = deposit\<rparr>) query_result)))"

definition decoded_burn_memo_bytes :: "ext \<Rightarrow> burn_tx_out \<Rightarrow> bytes option" where
  "decoded_burn_memo_bytes X burn = res_ok (rbind (burn_redemption_memo X burn) (\<lambda>memo. Ok (memo_data X memo)))"

definition http_get_audited_burns ::
  "unit dbm \<Rightarrow> ext \<Rightarrow> u64 option \<Rightarrow> u64 option \<Rightarrow> audited_burn_response list dbm" where
  "http_get_audited_burns pool_get X offset limit =
     bnd pool_get (\<lambda>_.
     bnd (list_with_burn_and_withdrawal offset limit) (\<lambda>query_result.
     ret (map (\<lambda>(audited, burn, withdrawal).
       \<lparr>abr_audited = audited, abr_burn = burn, abr_withdrawal = withdrawal,
        abr_decoded_burn_memo_bytes = decoded_burn_memo_bytes X burn\<rparr>) query_result)))"

definition http_get_unaudited_burn_tx_outs ::
  "unit dbm \<Rightarrow> ext \<Rightarrow> unaudited_burn_tx_out_response list dbm" where
  "http_get_unaudited_burn_tx_outs pool_get X =
     bnd pool_get (\<lambda>_.
     bnd find_unaudited_burn_tx_outs (\<lambda>query_result.
     ret (map (\<lambda>burn. \<lparr>ubr_burn = burn,
       ubr_decoded_burn_memo_bytes = decoded_burn_memo_bytes X burn\<rparr>) query_result)))"

text \<open>\<open>sum()\<close> of \<open>u128\<close> values wraps like \<open>+\<close>.\<close>

definition http_get_mint_total :: "unit dbm \<Rightarrow> token_id \<Rightarrow> u128 dbm" where
  "http_get_mint_total pool_get token_id =
     bnd pool_get (\<lambda>_.
     bnd (get_mint_amounts token_id) (\<lambda>query_result.
     ret (sum_list (map (\<lambda>(_, amount). u64_as_u128 amount) query_result))))"

definition http_get_burn_total :: "unit dbm \<Rightarrow> token_id \<Rightarrow> u128 dbm" where
  "http_get_burn_total pool_get token_id =
     bnd pool_get (\<lambda>_.
     bnd (get_burn_amounts token_id) (\<lambda>query_result.
     ret (sum_list (map (\<lambda>(_, amount). u64_as_u128 amount) query_result))))"

definition http_get_token_symbol :: "gnosis_safe_config \<Rightarrow> u64 \<Rightarrow> string dbm" where
  "http_get_token_symbol config token_id =
     bnd (safes_0 config) (\<lambda>safe.
     ret (case List.find (\<lambda>token. at_token_id token = token_id) (asc_tokens safe) of
        Some token \<Rightarrow> at_symbol token
      | None \<Rightarrow> ''Unexpected Token''))"

definition http_get_gnosis_safe_config :: "gnosis_safe_config \<Rightarrow> gnosis_safe_config_response dbm" where
  "http_get_gnosis_safe_config config = ret \<lparr>gscr_config = config\<rparr>"

definition hybrid_mint_config_of :: "i32 \<Rightarrow> core_mint_config \<Rightarrow> hybrid_mint_config" where
  "hybrid_mint_config_of config_id core =
     \<lparr>hmc_id = config_id, hmc_token_id = cmc_token_id core, hmc_signer_set = cmc_signer_set core,
      hmc_mint_limit = cmc_mint_limit core\<rparr>"

text \<open>The bodies of the three loops of \<open>get_mint_info_by_block\<close>.\<close>

definition push_hybrid_config ::
  "ext \<Rightarrow> mint_config \<Rightarrow> hybrid_mint_config list \<Rightarrow> hybrid_mint_config list dbm" where
  "push_hybrid_config X mint_config hybrid_mint_configs =
     bnd (lift_res (mint_config_decode X mint_config)) (\<lambda>core_mint_config.
     bnd (ok_or ObjectNotSaved (mint_config_id mint_config)) (\<lambda>config_id.
     ret (hybrid_mint_configs @ [hybrid_mint_config_of config_id core_mint_config])))"

definition push_config_tx ::
  "ext \<Rightarrow> mint_config_tx \<Rightarrow> mint_config_tx_with_config list \<Rightarrow> mint_config_tx_with_config list dbm" where
  "push_config_tx X mint_config_tx done_so_far = (case mint_config_tx_id mint_config_tx of
      None \<Rightarrow> ret done_so_far
    | Some tx_id \<Rightarrow>
        bnd (get_by_mint_config_tx_id tx_id) (\<lambda>mint_configs.
        bnd (fold_m (push_hybrid_config X) mint_configs []) (\<lambda>hybrid_mint_configs.
        ret (done_so_far @ [\<lparr>mcwc_mint_config_tx = mint_config_tx,
          mcwc_mint_configs = hybrid_mint_configs\<rparr>]))))"

definition push_mint ::
  "ext \<Rightarrow> mint_tx \<Rightarrow> mint_with_config list \<Rightarrow> mint_with_config list dbm" where
  "push_mint X mint_tx mints_with_configs =
     bnd (mint_tx_get_signers X mint_tx) (\<lambda>mint_tx_signers.
     case mint_tx_mint_config_id mint_tx of
       None \<Rightarrow> ret mints_with_configs
     | Some config_id \<Rightarrow>
         bnd (mint_config_get_by_id config_id) (\<lambda>config_row. case config_row of
           None \<Rightarrow> ret mints_with_configs
         | Some mint_config \<Rightarrow>
             bnd (lift_res (mint_config_decode X mint_config)) (\<lambda>core_mint_config.
             bnd (mint_config_tx_get_by_id (mint_config_mint_config_tx_id mint_config)) (\<lambda>tx_row. case tx_row of
               None \<Rightarrow> ret mints_with_configs
             | Some mint_config_tx \<Rightarrow>
                 ret (mints_with_configs @ [\<lparr>mwc_mint_tx = mint_tx, mwc_mint_config_tx = mint_config_tx,
                   mwc_mint_config = hybrid_mint_config_of config_id core_mint_config,
                   mwc_mint_tx_signers = mint_tx_signers\<rparr>])))))"

definition http_get_mint_info_by_block :: "unit dbm \<Rightarrow> ext \<Rightarrow> u64 \<Rightarrow> mint_info_response dbm" where
  "http_get_mint_info_by_block pool_get X block_index =
     bnd pool_get (\<lambda>_.
     bnd (get_mint_txs_by_block_index block_index) (\<lambda>mint_txs.
     bnd (mint_config_tx_get_by_block_index block_index) (\<lambda>mint_config_txs.
     bnd (fold_m (push_config_tx X) mint_config_txs []) (\<lambda>mint_config_txs_with_configs.
     bnd (fold_m (push_mint X) mint_txs []) (\<lambda>mints_with_configs.
     ret \<lparr>mir_mint_txs = mints_with_configs, mir_mint_config_txs = mint_config_txs_with_configs\<rparr>)))))"

definition http_get_burns_by_block :: "unit dbm \<Rightarrow> ext \<Rightarrow> u64 \<Rightarrow> burn_info_response list dbm" where
  "http_get_burns_by_block pool_get X block_index =
     bnd pool_get (\<lambda>_.
     bnd (get_burn_txs_by_block block_index) (\<lambda>burn_txs.
     ret (map (\<lambda>burn. \<lparr>bir_burn = burn,
       bir_decoded_burn_memo_bytes = decoded_burn_memo_bytes X burn\<rparr>) burn_txs)))"

definition http_get_unaudited_withdrawals :: "unit dbm \<Rightarrow> gnosis_safe_withdrawal list dbm" where
  "http_get_unaudited_withdrawals pool_get = bnd pool_get (\<lambda>_. find_unaudited_withdrawals)"

definition http_get_unaudited_mints :: "unit dbm \<Rightarrow> mint_tx list dbm" where
  "http_get_unaudited_mints pool_get = bnd pool_get (\<lambda>_. find_unaudited_mint_txs)"

section \<open>The routes\<close>

text \<open>\<open>match service.f() { Ok(x) => Ok(Json(x)), Err(e) => Err(e.to_string()) }\<close>.\<close>

type_synonym 'a http = "(state, string, 'a) comp"

definition route_result :: "ext \<Rightarrow> 'a dbm \<Rightarrow> 'a http" where
  "route_result X m = map_err_comp (error_display (eth_tx_hash_display X)) m"

definition route_index :: string where
  "route_index = ''Welcome to the reserve auditor''"

definition route_get_counters :: "unit dbm \<Rightarrow> ext \<Rightarrow> counters http" where
  "route_get_counters pool_get X = route_result X (http_get_counters pool_get)"

definition route_get_token_precisions :: "ext \<Rightarrow> gnosis_safe_config \<Rightarrow> token_precision_response http" where
  "route_get_token_precisions X config = route_result X (http_get_token_precisions config)"

definition route_get_block_audit_data :: "unit dbm \<Rightarrow> ext \<Rightarrow> u64 \<Rightarrow> block_audit_data_response http" where
  "route_get_block_audit_data pool_get X block_index =
     route_result X (http_get_block_audit_data pool_get block_index)"

definition route_get_last_block_audit_data :: "unit dbm \<Rightarrow> ext \<Rightarrow> block_audit_data_response http" where
  "route_get_last_block_audit_data pool_get X = route_result X (http_get_last_block_audit_data pool_get)"

definition route_get_audited_mints ::
  "unit dbm \<Rightarrow> ext \<Rightarrow> u64 option \<Rightarrow> u64 option \<Rightarrow> audited_mint_response list http" where
  "route_get_audited_mints pool_get X offset limit =
     route_result X (http_get_audited_mints pool_get offset limit)"

definition route_get_unaudited_gnosis_deposits ::
  "unit dbm \<Rightarrow> ext \<Rightarrow> unaudited_gnosis_deposit_response list http" where
  "route_get_unaudited_gnosis_deposits pool_get X =
     route_result X (http_get_unaudited_gnosis_deposits pool_get)"

definition route_get_audited_burns ::
  "unit dbm \<Rightarrow> ext \<Rightarrow> u64 option \<Rightarrow> u64 option \<Rightarrow> audited_burn_response list http" where
  "route_get_audited_burns pool_get X offset limit =
     route_result X (http_get_audited_burns pool_get X offset limit)"

definition route_get_unaudited_burn_tx_outs ::
  "unit dbm \<Rightarrow> ext \<Rightarrow> unaudited_burn_tx_out_response list http" where
  "route_get_unaudited_burn_tx_outs pool_get X = route_result X (http_get_unaudited_burn_tx_outs pool_get X)"

definition route_get_ledger_balance ::
  "unit dbm \<Rightarrow> ext \<Rightarrow> gnosis_safe_config \<Rightarrow> u64 option \<Rightarrow> ledger_balance_response http" where
  "route_get_ledger_balance pool_get X config token_id =
     (let token_id_with_default = (case token_id of None \<Rightarrow> 0 | Some i \<Rightarrow> i) in
     bnd (route_result X (http_get_mint_total pool_get token_id_with_default)) (\<lambda>mint_balance.
     bnd (route_result X (http_get_burn_total pool_get token_id_with_default)) (\<lambda>burn_balance.
     bnd (route_result X (http_get_token_symbol config token_id_with_default)) (\<lambda>name.
     ret \<lparr>lbr_mint_balance = show_u128 mint_balance, lbr_burn_balance = show_u128 burn_balance,
          lbr_token_type = \<lparr>tt_id = token_id_with_default, tt_name = name\<rparr>\<rparr>))))"

definition route_get_gnosis_safe_config :: "ext \<Rightarrow> gnosis_safe_config \<Rightarrow> gnosis_safe_config_response http" where
  "route_get_gnosis_safe_config X config = route_result X (http_get_gnosis_safe_config config)"

definition route_get_mint_info_for_block :: "unit dbm \<Rightarrow> ext \<Rightarrow> u64 \<Rightarrow> mint_info_response http" where
  "route_get_mint_info_for_block pool_get X block_index =
     route_result X (http_get_mint_info_by_block pool_get X block_index)"

definition route_get_burns_for_block :: "unit dbm \<Rightarrow> ext \<Rightarrow> u64 \<Rightarrow> burn_info_response list http" where
  "route_get_burns_for_block pool_get X block_index =
     route_result X (http_get_burns_by_block pool_get X block_index)"

definition route_get_unaudited_withdrawals :: "unit dbm \<Rightarrow> ext \<Rightarrow> gnosis_safe_withdrawal list http" where
  "route_get_unaudited_withdrawals pool_get X = route_result X (http_get_unaudited_withdrawals pool_get)"

definition route_get_unaudited_mints :: "unit dbm \<Rightarrow> ext \<Rightarrow> mint_tx list http" where
  "route_get_unaudited_mints pool_get X = route_result X (http_get_unaudited_mints pool_get)"

section \<open>Totals\<close>

lemma unat_sum_u64:
  assumes "length ws \<le> n" and "n < 2 ^ 64"
  shows "unat (sum_list (map u64_as_u128 ws)) = sum_list (map unat ws)
    \<and> sum_list (map unat ws) \<le> length ws * (2 ^ 64 - 1)"
  using assms(1)
proof (induction ws)
  case (Cons w ws)
  have "unat w < 2 ^ LENGTH(64)" by (rule unsigned_less)
  then have w: "unat w \<le> 2 ^ 64 - 1" by simp
  have IH: "unat (sum_list (map u64_as_u128 ws)) = sum_list (map unat ws)"
    "sum_list (map unat ws) \<le> length ws * (2 ^ 64 - 1)" using Cons by auto
  have "unat w + sum_list (map unat ws) \<le> Suc (length ws) * (2 ^ 64 - 1)"
    using w IH(2) by simp
  also have "\<dots> \<le> n * (2 ^ 64 - 1)"
    using Cons.prems by (intro mult_right_mono) simp_all
  also have "\<dots> < 2 ^ 128" using assms(2) by simp
  finally have "unat w + sum_list (map unat ws) < 2 ^ 128" .
  moreover have "take_bit 128 (unat w) = unat w"
    using w by (simp add: take_bit_nat_eq_self_iff)
  ultimately have "unat (u64_as_u128 w + sum_list (map u64_as_u128 ws)) = unat w + sum_list (map unat ws)"
    by (simp add: u64_as_u128_def unat_word_ariths IH(1) unsigned_ucast_eq)
  with w IH show ?case by simp
qed simp

lemma mint_total_exact:
  assumes "length (t_mint_txs (st_db s)) < 2 ^ 64"
  shows "\<exists>w. http_get_mint_total (ret ()) tok s = (Ok w, s) \<and> unat w =
    (\<Sum>m \<leftarrow> filter (\<lambda>m. mt_token_id m = as_i64 tok) (t_mint_txs (st_db s)). unat (mint_tx_amount m))"
proof -
  let ?ws = "map mint_tx_amount (filter (\<lambda>m. mt_token_id m = as_i64 tok) (t_mint_txs (st_db s)))"
  have "length ?ws \<le> length (t_mint_txs (st_db s))" by simp
  then show ?thesis
    using unat_sum_u64 [OF _ assms, of ?ws]
    by (simp add: http_get_mint_total_def get_mint_amounts_def ret_def comp_def mint_tx_amount_def [abs_def])
qed

lemma burn_total_exact:
  assumes "length (t_burn_tx_outs (st_db s)) < 2 ^ 64"
  shows "\<exists>w. http_get_burn_total (ret ()) tok s = (Ok w, s) \<and> unat w =
    (\<Sum>b \<leftarrow> filter (\<lambda>b. bto_token_id b = as_i64 tok) (t_burn_tx_outs (st_db s)). unat (burn_tx_out_amount b))"
proof -
  let ?ws = "map burn_tx_out_amount (filter (\<lambda>b. bto_token_id b = as_i64 tok) (t_burn_tx_outs (st_db s)))"
  have "length ?ws \<le> length (t_burn_tx_outs (st_db s))" by simp
  then show ?thesis
    using unat_sum_u64 [OF _ assms, of ?ws]
    by (simp add: http_get_burn_total_def get_burn_amounts_def ret_def comp_def burn_tx_out_amount_def [abs_def])
qed

text \<open>The ledger balance shown for a token is exact: the decimal texts are the sums of all stored
  mints and of all stored burns of that token, without overflow, as the sums are taken in 128 bits.
  Without a safe in the configuration the request panics instead.\<close>

lemma ledger_balance_exact:
  assumes "length (t_mint_txs (st_db s)) < 2 ^ 64" and "length (t_burn_tx_outs (st_db s)) < 2 ^ 64"
  shows "if gsc_safes cfg = [] then \<exists>p. route_get_ledger_balance (ret ()) X cfg (Some tok) s = (Panic p, s)
    else \<exists>r. route_get_ledger_balance (ret ()) X cfg (Some tok) s = (Ok r, s)
      \<and> lbr_mint_balance r = show_nat (\<Sum>m \<leftarrow> filter (\<lambda>m. mt_token_id m = as_i64 tok)
           (t_mint_txs (st_db s)). unat (mint_tx_amount m))
      \<and> lbr_burn_balance r = show_nat (\<Sum>b \<leftarrow> filter (\<lambda>b. bto_token_id b = as_i64 tok)
           (t_burn_tx_outs (st_db s)). unat (burn_tx_out_amount b))"
proof -
  obtain m b where "http_get_mint_total (ret ()) tok s = (Ok m, s)" "http_get_burn_total (ret ()) tok s = (Ok b, s)"
    and m: "unat m = (\<Sum>m \<leftarrow> filter (\<lambda>m. mt_token_id m = as_i64 tok) (t_mint_txs (st_db s)). unat (mint_tx_amount m))"
    and b: "unat b = (\<Sum>b \<leftarrow> filter (\<lambda>b. bto_token_id b = as_i64 tok) (t_burn_tx_outs (st_db s)). unat (burn_tx_out_amount b))"
    using mint_total_exact [OF assms(1)] burn_total_exact [OF assms(2)] by metis
  then show ?thesis
    by (cases "gsc_safes cfg")
      (simp_all add: route_get_ledger_balance_def route_result_def map_err_comp_def http_get_token_symbol_def
        safes_0_def lift_res_def ret_def show_u128_def bnd_def)
qed

section \<open>Audited and unaudited objects\<close>

text \<open>The join of an audit table lists every link once, with the two objects it links.\<close>

lemma filter_the_one:
  assumes "distinct (map f xs)" and "x \<in> set xs"
  shows "filter (\<lambda>y. f y = f x) xs = [x]"
  using assms
proof (induction xs)
  case (Cons y ys)
  have "filter (\<lambda>z. f z = f x) ys = []" if "f y = f x"
    using Cons.prems(1) that by (auto simp: filter_empty_conv) (metis image_eqI)
  with Cons show ?case by (cases "y = x") auto
qed simp

lemma audit_join_alt:
  "audit_join lid gid al ag ls gs as = concat (map (\<lambda>a. map (Pair a)
     (List.product (filter (\<lambda>l. lid l = Some (al a)) ls) (filter (\<lambda>g. gid g = Some (ag a)) gs))) as)"
proof -
  have inner: "concat (map (\<lambda>g. if P then if Q g then [(a, l, g)] else [] else []) gs)
      = (if P then map (\<lambda>g. (a, l, g)) (filter Q gs) else [])" for P Q and a :: 'a and l :: 'b and gs :: "'c list"
    by (induction gs) auto
  have outer: "concat (map (\<lambda>l. if P l then map (\<lambda>g. (a, l, g)) hs else []) ls)
      = map (Pair a) (List.product (filter P ls) hs)" for P and a :: 'a and ls :: "'b list" and hs :: "'c list"
    by (induction ls) auto
  show ?thesis
    unfolding audit_join_def by (simp add: inner outer)
qed

lemma mset_split_by:
  assumes "distinct xs" and "distinct ys" and "set xs = {y \<in> set ys. P y}"
  shows "mset xs + mset (filter (\<lambda>y. \<not> P y) ys) = mset ys"
proof -
  have "mset xs = mset (filter P ys)"
    using assms by (subst set_eq_iff_mset_eq_distinct [symmetric]) auto
  then show ?thesis by (simp add: multiset_partition [symmetric])
qed

context pairing
begin

lemma join_lists_links:
  assumes inv: "audits_ok lid gid al ag ok (ls d) (gs d) (as d)"
    and ids: "distinct (map lid (ls d))" "distinct (map gid (gs d))"
  shows "map fst (audit_join lid gid al ag (ls d) (gs d) (as d)) = as d"
proof -
  have one: "map fst (map (Pair a) (List.product (filter (\<lambda>l. lid l = Some (al a)) (ls d))
      (filter (\<lambda>g. gid g = Some (ag a)) (gs d)))) = [a]" if a: "a \<in> set (as d)" for a
  proof -
    obtain l g where "l \<in> set (ls d)" "g \<in> set (gs d)" "lid l = Some (al a)" "gid g = Some (ag a)"
      using inv a unfolding audits_ok_def by blast
    then show ?thesis
      using filter_the_one [OF ids(1), of l] filter_the_one [OF ids(2), of g] by simp
  qed
  have "concat (map F xs) = xs" if "\<And>a. a \<in> set xs \<Longrightarrow> F a = [a]" for F and xs :: "'a list"
    using that by (induction xs) auto
  from this [OF one] show ?thesis
    unfolding audit_join_alt map_concat map_map comp_def by simp
qed

lemma join_distinct:
  assumes inv: "audits_ok lid gid al ag ok (ls d) (gs d) (as d)"
    and ids: "distinct (map lid (ls d))" "distinct (map gid (gs d))"
  defines "J \<equiv> audit_join lid gid al ag (ls d) (gs d) (as d)"
  shows "distinct (map (\<lambda>(a, l, g). l) J)" and "distinct (map (\<lambda>(a, l, g). g) J)"
proof -
  have J: "map fst J = as d" unfolding J_def by (rule join_lists_links [OF inv ids])
  have "map (lid \<circ> (\<lambda>(a, l, g). l)) J = map (\<lambda>t. Some (al (fst t))) J"
    by (rule map_cong) (auto simp: J_def audit_join_set)
  also have "\<dots> = map (\<lambda>a. Some (al a)) (as d)"
    unfolding J [symmetric] by simp
  finally have "distinct (map lid (map (\<lambda>(a, l, g). l) J))"
    using inv by (simp add: audits_ok_def distinct_map inj_on_def)
  then show "distinct (map (\<lambda>(a, l, g). l) J)" using distinct_map by blast
  have "map (gid \<circ> (\<lambda>(a, l, g). g)) J = map (\<lambda>t. Some (ag (fst t))) J"
    by (rule map_cong) (auto simp: J_def audit_join_set)
  also have "\<dots> = map (\<lambda>a. Some (ag a)) (as d)"
    unfolding J [symmetric] by simp
  finally have "distinct (map gid (map (\<lambda>(a, l, g). g) J))"
    using inv by (simp add: audits_ok_def distinct_map inj_on_def)
  then show "distinct (map (\<lambda>(a, l, g). g) J)" using distinct_map by blast
qed

text \<open>Every object is listed once: with its partner when it is linked, among the others otherwise.\<close>

lemma join_partition:
  assumes inv: "audits_ok lid gid al ag ok (ls d) (gs d) (as d)"
    and ids: "distinct (map lid (ls d))" "distinct (map gid (gs d))"
  defines "J \<equiv> audit_join lid gid al ag (ls d) (gs d) (as d)"
  shows "mset (map (\<lambda>(a, l, g). l) J) + mset (filter (\<lambda>l. \<not> (\<exists>a \<in> set (as d). Some (al a) = lid l)) (ls d)) = mset (ls d)"
    and "mset (map (\<lambda>(a, l, g). g) J) + mset (filter (\<lambda>g. \<not> (\<exists>a \<in> set (as d). Some (ag a) = gid g)) (gs d)) = mset (gs d)"
proof -
  have ok: "\<exists>l g. (a, l, g) \<in> set J" if "a \<in> set (as d)" for a
    using inv that unfolding audits_ok_def J_def audit_join_set by blast
  have inj: "inj_on lid (set (ls d))" "inj_on gid (set (gs d))"
    using ids by (simp_all add: distinct_map)
  have left: "l \<in> (\<lambda>(a, l, g). l) ` set J" if l: "l \<in> set (ls d)" and a: "a \<in> set (as d)" "Some (al a) = lid l" for l a
  proof -
    obtain l' g where j: "(a, l', g) \<in> set J" using ok [OF a(1)] by blast
    then have "lid l' = lid l" "l' \<in> set (ls d)" using a(2) by (auto simp: J_def audit_join_set)
    with inj(1) l have "l' = l" by (metis inj_onD)
    with j show ?thesis by force
  qed
  have right: "g \<in> (\<lambda>(a, l, g). g) ` set J" if g: "g \<in> set (gs d)" and a: "a \<in> set (as d)" "Some (ag a) = gid g" for g a
  proof -
    obtain l g' where j: "(a, l, g') \<in> set J" using ok [OF a(1)] by blast
    then have "gid g' = gid g" "g' \<in> set (gs d)" using a(2) by (auto simp: J_def audit_join_set)
    with inj(2) g have "g' = g" by (metis inj_onD)
    with j show ?thesis by force
  qed
  have sets: "set (map (\<lambda>(a, l, g). l) J) = {l \<in> set (ls d). \<exists>a \<in> set (as d). Some (al a) = lid l}"
    "set (map (\<lambda>(a, l, g). g) J) = {g \<in> set (gs d). \<exists>a \<in> set (as d). Some (ag a) = gid g}"
    using left right by (auto simp: J_def audit_join_set)
  have dist: "distinct (ls d)" "distinct (gs d)" using ids by (simp_all add: distinct_map)
  note J_dist = join_distinct [OF inv ids, folded J_def]
  show
    "mset (map (\<lambda>(a, l, g). l) J) + mset (filter (\<lambda>l. \<not> (\<exists>a \<in> set (as d). Some (al a) = lid l)) (ls d)) = mset (ls d)"
    by (rule mset_split_by [OF J_dist(1) dist(1) sets(1)])
  show
    "mset (map (\<lambda>(a, l, g). g) J) + mset (filter (\<lambda>g. \<not> (\<exists>a \<in> set (as d). Some (ag a) = gid g)) (gs d)) = mset (gs d)"
    by (rule mset_split_by [OF J_dist(2) dist(2) sets(2)])
qed

lemma join_agree:
  assumes inv: "audits_ok lid gid al ag ok (ls d) (gs d) (as d)"
    and ids: "distinct (map lid (ls d))" "distinct (map gid (gs d))"
    and j: "(a, l, g) \<in> set (audit_join lid gid al ag (ls d) (gs d) (as d))"
  shows "ok l g"
proof -
  from j have j': "a \<in> set (as d)" "l \<in> set (ls d)" "g \<in> set (gs d)" "lid l = Some (al a)" "gid g = Some (ag a)"
    by (simp_all add: audit_join_set)
  obtain l' g' where "l' \<in> set (ls d)" "g' \<in> set (gs d)" "lid l' = lid l" "gid g' = gid g" and ok: "ok l' g'"
    using inv j' unfolding audits_ok_def by metis
  then have "l' = l" "g' = g" using ids j' unfolding distinct_map by (meson inj_onD)+
  with ok show ?thesis by simp
qed

end

lemma is_audited_iff:
  "mint_is_audited d m \<longleftrightarrow> (\<exists>a \<in> set (t_audited_mints d). Some (am_mint_tx_id a) = mt_id m)"
  "deposit_is_audited d x \<longleftrightarrow> (\<exists>a \<in> set (t_audited_mints d). Some (am_gnosis_safe_deposit_id a) = gsd_id x)"
  "burn_is_audited d b \<longleftrightarrow> (\<exists>a \<in> set (t_audited_burns d). Some (ab_burn_tx_out_id a) = bto_id b)"
  "withdrawal_is_audited d w \<longleftrightarrow> (\<exists>a \<in> set (t_audited_burns d). Some (ab_gnosis_safe_withdrawal_id a) = gsw_id w)"
  by (simp_all add: mint_is_audited_def deposit_is_audited_def burn_is_audited_def withdrawal_is_audited_def list_ex_iff)

lemma sql_all_rows [simp]: "sql_offset_limit None None rows = rows"
  by (simp add: sql_offset_limit_def)

lemma mset_map_sort_key: "mset (map f (sort_key k xs)) = mset (map f xs)"
  by simp

text \<open>C22: the lists of the API are complete and never contradict each other: every stored deposit is
  listed exactly once, either as audited, together with a mint it agrees with, or as unaudited, and
  the same holds for every stored mint.\<close>

theorem mint_lists_complete:
  assumes "mint_tables_ok cfg (st_db s)"
  shows "\<exists>ams us ms. http_get_audited_mints (ret ()) None None s = (Ok ams, s)
    \<and> http_get_unaudited_gnosis_deposits (ret ()) s = (Ok us, s) \<and> http_get_unaudited_mints (ret ()) s = (Ok ms, s)
    \<and> mset (map amr_deposit ams) + mset (map ugdr_deposit us) = mset (t_gnosis_safe_deposits (st_db s))
    \<and> mset (map amr_mint ams) + mset ms = mset (t_mint_txs (st_db s))
    \<and> (\<forall>r \<in> set ams. mint_deposit_agree cfg (amr_mint r) (amr_deposit r))"
proof -
  let ?d = "st_db s"
  let ?J = "mints_join ?d"
  have inv: "audits_ok mt_id gsd_id am_mint_tx_id am_gnosis_safe_deposit_id (mint_deposit_agree cfg)
      (t_mint_txs ?d) (t_gnosis_safe_deposits ?d) (t_audited_mints ?d)"
    and ids: "distinct (map mt_id (t_mint_txs ?d))" "distinct (map gsd_id (t_gnosis_safe_deposits ?d))"
    using assms by (simp_all add: mint_tables_ok_def audited_mints_ok_def ids_ok_def)
  note part = mint_pairing.join_partition [OF inv ids, folded is_audited_iff mints_join_def]
  have agree: "\<forall>j \<in> set ?J. mint_deposit_agree cfg (fst (snd j)) (snd (snd j))"
    using mint_pairing.join_agree [OF inv ids, folded mints_join_def] by auto
  show ?thesis
    using part agree
    by (simp add: http_get_audited_mints_def list_with_mint_and_deposit_def http_get_unaudited_gnosis_deposits_def
        find_unaudited_deposits_def http_get_unaudited_mints_def find_unaudited_mint_txs_def ret_def comp_def
        split_def multiset.map_comp)
qed

text \<open>C23: likewise every stored withdrawal is listed exactly once, as audited with a burn it agrees with or
  as unaudited, and so is every stored burn.\<close>

theorem burn_lists_complete:
  assumes "burn_tables_ok cfg (st_db s)"
  shows "\<exists>abs us ws. http_get_audited_burns (ret ()) X None None s = (Ok abs, s)
    \<and> http_get_unaudited_burn_tx_outs (ret ()) X s = (Ok us, s) \<and> http_get_unaudited_withdrawals (ret ()) s = (Ok ws, s)
    \<and> mset (map abr_withdrawal abs) + mset ws = mset (t_gnosis_safe_withdrawals (st_db s))
    \<and> mset (map abr_burn abs) + mset (map ubr_burn us) = mset (t_burn_tx_outs (st_db s))
    \<and> (\<forall>r \<in> set abs. burn_withdrawal_agree cfg (abr_burn r) (abr_withdrawal r))"
proof -
  let ?d = "st_db s"
  let ?J = "burns_join ?d"
  have inv: "audits_ok bto_id gsw_id ab_burn_tx_out_id ab_gnosis_safe_withdrawal_id (burn_withdrawal_agree cfg)
      (t_burn_tx_outs ?d) (t_gnosis_safe_withdrawals ?d) (t_audited_burns ?d)"
    and ids: "distinct (map bto_id (t_burn_tx_outs ?d))" "distinct (map gsw_id (t_gnosis_safe_withdrawals ?d))"
    using assms by (simp_all add: burn_tables_ok_def audited_burns_ok_def ids_ok_def)
  note part = burn_pairing.join_partition [OF inv ids, folded is_audited_iff burns_join_def]
  have agree: "\<forall>j \<in> set ?J. burn_withdrawal_agree cfg (fst (snd j)) (snd (snd j))"
    using burn_pairing.join_agree [OF inv ids, folded burns_join_def] by auto
  show ?thesis
    using part agree
    by (simp add: http_get_audited_burns_def list_with_burn_and_withdrawal_def http_get_unaudited_burn_tx_outs_def
        find_unaudited_burn_tx_outs_def http_get_unaudited_withdrawals_def find_unaudited_withdrawals_def ret_def
        comp_def split_def multiset.map_comp)
qed

section \<open>Pages\<close>

lemma small_nat_as_i64: "n < 2 ^ 63 \<Longrightarrow> as_i64 (of_nat n) = int n"
proof -
  assume n: "n < 2 ^ 63"
  have "unat (of_nat n :: u64) = n"
    using n by (simp add: unat_of_nat)
  then show ?thesis using as_i64_small [of "of_nat n"] n by simp
qed

lemma concat_pages: "concat (map (\<lambda>k. take n (drop (k * n) xs)) [0..<K]) = take (K * n) xs"
proof (induction K)
  case (Suc K)
  have "take (K * n) xs @ take n (drop (K * n) xs) = take (Suc K * n) xs"
    using take_add [of "K * n" n xs] by (simp add: add.commute)
  with Suc show ?case by simp
qed simp

text \<open>Reading the audited mints page by page loses and repeats nothing: the pages of any size, put
  together, are a prefix of the whole list as long as their length allows, and the whole list once
  there are enough of them.\<close>

lemma audited_mint_pages:
  assumes "0 < n" and "K * n < 2 ^ 63" and "http_get_audited_mints (ret ()) None None s = (Ok all, s)"
  shows "\<exists>pages. (\<forall>k < K. http_get_audited_mints (ret ()) (Some (of_nat (k * n))) (Some (of_nat n)) s = (Ok (pages k), s))
    \<and> concat (map pages [0..<K]) = take (K * n) all
    \<and> (length all \<le> K * n \<longrightarrow> concat (map pages [0..<K]) = all)"
proof -
  define pages where "pages k = take n (drop (k * n) all)" for k
  have page: "http_get_audited_mints (ret ()) (Some (of_nat (k * n))) (Some (of_nat n)) s = (Ok (pages k), s)"
    if "k < K" for k
  proof -
    have "k * n < K * n" and "n \<le> K * n" using that assms(1) by simp_all
    then have "k * n < 2 ^ 63" "n < 2 ^ 63" using assms(2) by linarith+
    note small = small_nat_as_i64 [OF this(1)] small_nat_as_i64 [OF this(2)]
    show ?thesis
      using assms(3) unfolding http_get_audited_mints_def list_with_mint_and_deposit_def
      by (simp add: sql_offset_limit_def small pages_def take_map drop_map ret_def del: of_nat_mult)
        (auto simp: take_map drop_map)
  qed
  moreover have "concat (map pages [0..<K]) = take (K * n) all"
    using concat_pages [of n all K] by (simp add: pages_def [abs_def])
  ultimately show ?thesis by (intro exI [of _ pages]) auto
qed

section \<open>Mints without a configuration\<close>

lemma fold_push_mint_fails:
  assumes "m \<in> set ms" and "mt_mint_config_id m = None"
  shows "fold_m (push_mint X) ms acc s \<noteq> (Ok r, s')"
  using assms
proof (induction ms arbitrary: acc s)
  case (Cons y ys)
  show ?case
  proof (cases "y = m")
    case True
    have "push_mint X m acc s \<noteq> (Ok r1, s1)" for r1 s1
      using Cons.prems(2)
      by (auto simp: push_mint_def mint_tx_get_signers_def ok_or_def throw_def elim!: bnd_eq_OkE)
    with True show ?thesis by (auto elim!: bnd_eq_OkE)
  next
    case False
    with Cons show ?thesis by (auto elim!: bnd_eq_OkE)
  qed
qed simp

text \<open>C39: the mint information of a block cannot be shown when the block has a mint that was stored
  without a mint configuration, which is the very case the auditor counts as suspicious: reading its
  signers fails before the code that means to skip it, so the whole request fails.\<close>

theorem mint_info_fails_without_config:
  assumes "m \<in> set (t_mint_txs (st_db s))" and "mt_block_index m = as_i64 i" and "mt_mint_config_id m = None"
  shows "\<not> (\<exists>r s'. route_get_mint_info_for_block (ret ()) X i s = (Ok r, s'))"
proof -
  have "http_get_mint_info_by_block (ret ()) X i s \<noteq> (Ok r, s')" for r s'
    using assms fold_push_mint_fails [of m]
    by (auto simp: http_get_mint_info_by_block_def get_mint_txs_by_block_index_def elim!: bnd_eq_OkE)
  then show ?thesis
    by (auto simp: route_get_mint_info_for_block_def route_result_def map_err_comp_def split: prod.splits)
qed

end
