(* ===== verification/Http_Server.thy ===== *)
theory Http_Server
  imports Http_Service "HOL-Library.AList"
begin

text \<open>
  The HTTP server, \<open>src/http_api/mod.rs\<close>, and the CORS headers of \<open>src/http_api/fairings.rs\<close>. A
  request is one of the mounted routes with its arguments, already parsed by Rocket; launching
  Rocket and parsing the host are parameters.

  The theorem: no request, whatever its answer, changes anything in the process or the database.
\<close>

section \<open>Requests\<close>

datatype http_request =
    Index
  | GetCounters
  | GetTokenPrecisions
  | GetBlockAuditData u64
  | GetLastBlockAuditData
  | GetAuditedMints "u64 option" "u64 option"
  | GetUnauditedGnosisDeposits
  | GetAuditedBurns "u64 option" "u64 option"
  | GetUnauditedBurnTxOuts
  | GetLedgerBalance "u64 option"
  | GetGnosisSafeConfig
  | GetMintInfoForBlock u64
  | GetBurnsForBlock u64
  | GetUnauditedWithdrawals
  | GetUnauditedMints

datatype http_body =
    IndexBody string
  | CountersBody counters
  | TokenPrecisionsBody token_precision_response
  | BlockAuditDataBody block_audit_data_response
  | AuditedMintsBody "audited_mint_response list"
  | UnauditedGnosisDepositsBody "unaudited_gnosis_deposit_response list"
  | AuditedBurnsBody "audited_burn_response list"
  | UnauditedBurnTxOutsBody "unaudited_burn_tx_out_response list"
  | LedgerBalanceBody ledger_balance_response
  | GnosisSafeConfigBody gnosis_safe_config_response
  | MintInfoBody mint_info_response
  | BurnsBody "burn_info_response list"
  | UnauditedWithdrawalsBody "gnosis_safe_withdrawal list"
  | UnauditedMintsBody "mint_tx list"

definition body :: "('a \<Rightarrow> http_body) \<Rightarrow> 'a http \<Rightarrow> http_body http" where
  "body f m = bnd m (\<lambda>x. ret (f x))"

text \<open>The routes mounted at \<open>/\<close>.\<close>

fun http_handle :: "unit dbm \<Rightarrow> ext \<Rightarrow> gnosis_safe_config \<Rightarrow> http_request \<Rightarrow> http_body http" where
  "http_handle p X cfg Index = ret (IndexBody route_index)"
| "http_handle p X cfg GetCounters = body CountersBody (route_get_counters p X)"
| "http_handle p X cfg GetTokenPrecisions = body TokenPrecisionsBody (route_get_token_precisions X cfg)"
| "http_handle p X cfg (GetBlockAuditData i) = body BlockAuditDataBody (route_get_block_audit_data p X i)"
| "http_handle p X cfg GetLastBlockAuditData = body BlockAuditDataBody (route_get_last_block_audit_data p X)"
| "http_handle p X cfg (GetAuditedMints off lim) = body AuditedMintsBody (route_get_audited_mints p X off lim)"
| "http_handle p X cfg GetUnauditedGnosisDeposits =
     body UnauditedGnosisDepositsBody (route_get_unaudited_gnosis_deposits p X)"
| "http_handle p X cfg (GetAuditedBurns off lim) = body AuditedBurnsBody (route_get_audited_burns p X off lim)"
| "http_handle p X cfg GetUnauditedBurnTxOuts = body UnauditedBurnTxOutsBody (route_get_unaudited_burn_tx_outs p X)"
| "http_handle p X cfg (GetLedgerBalance tok) = body LedgerBalanceBody (route_get_ledger_balance p X cfg tok)"
| "http_handle p X cfg GetGnosisSafeConfig = body GnosisSafeConfigBody (route_get_gnosis_safe_config X cfg)"
| "http_handle p X cfg (GetMintInfoForBlock i) = body MintInfoBody (route_get_mint_info_for_block p X i)"
| "http_handle p X cfg (GetBurnsForBlock i) = body BurnsBody (route_get_burns_for_block p X i)"
| "http_handle p X cfg GetUnauditedWithdrawals = body UnauditedWithdrawalsBody (route_get_unaudited_withdrawals p X)"
| "http_handle p X cfg GetUnauditedMints = body UnauditedMintsBody (route_get_unaudited_mints p X)"

text \<open>\<open>Cors::on_response\<close>: \<open>set_header\<close> replaces a header of the same name.\<close>

definition cors_on_response :: "(string \<times> string) list \<Rightarrow> (string \<times> string) list" where
  "cors_on_response headers =
     AList.update ''Access-Control-Allow-Credentials'' ''true''
       (AList.update ''Access-Control-Allow-Headers'' ''*''
         (AList.update ''Access-Control-Allow-Methods'' ''POST, GET, PATCH, OPTIONS''
           (AList.update ''Access-Control-Allow-Origin'' ''*'' headers)))"

text \<open>\<open>start_http_server\<close>: a failed launch is printed and otherwise ignored.\<close>

definition start_http_server ::
  "(string \<Rightarrow> (string, nat) res) \<Rightarrow> (nat \<Rightarrow> nat \<Rightarrow> (string, unit) res) \<Rightarrow> nat \<Rightarrow> string \<Rightarrow> (error, string list) res" where
  "start_http_server ipv4_from_str launch port host = (case ipv4_from_str host of
      Ok address \<Rightarrow> (case launch address port of
          Ok _ \<Rightarrow> Ok []
        | Err _ \<Rightarrow> Ok [''Whoops! Rocket didn'' @ [CHR 0x27] @ ''t launch!'']
        | Panic p \<Rightarrow> Panic p)
    | _ \<Rightarrow> Panic ''called `Result::unwrap()` on an `Err` value'')"

section \<open>Requests only read\<close>

lemma keeps_map_err_comp [keeps_intros]: "keeps I m \<Longrightarrow> keeps I (map_err_comp f m)"
  unfolding keeps_def map_err_comp_def by (auto split: prod.splits)

lemma keeps_route_result [keeps_intros]: "keeps I m \<Longrightarrow> keeps I (route_result X m)"
  unfolding route_result_def by (rule keeps_map_err_comp)

lemma keeps_body [keeps_intros]: "keeps I m \<Longrightarrow> keeps I (body f m)"
  unfolding body_def by (intro keeps_intros)

lemma keeps_safes_0 [keeps_intros]: "keeps I (safes_0 cfg)"
  unfolding safes_0_def by (cases "gsc_safes cfg") (auto intro: keeps_intros)

lemmas http_defs = http_get_counters_def http_get_token_precisions_def http_get_block_audit_data_def
  http_get_last_block_audit_data_def http_get_audited_mints_def http_get_unaudited_gnosis_deposits_def
  http_get_audited_burns_def http_get_unaudited_burn_tx_outs_def http_get_mint_total_def http_get_burn_total_def
  http_get_token_symbol_def http_get_gnosis_safe_config_def http_get_mint_info_by_block_def
  http_get_burns_by_block_def http_get_unaudited_withdrawals_def http_get_unaudited_mints_def

lemmas route_defs = route_get_counters_def route_get_token_precisions_def route_get_block_audit_data_def
  route_get_last_block_audit_data_def route_get_audited_mints_def route_get_unaudited_gnosis_deposits_def
  route_get_audited_burns_def route_get_unaudited_burn_tx_outs_def route_get_ledger_balance_def
  route_get_gnosis_safe_config_def route_get_mint_info_for_block_def route_get_burns_for_block_def
  route_get_unaudited_withdrawals_def route_get_unaudited_mints_def

lemmas query_defs = list_with_mint_and_deposit_def list_with_burn_and_withdrawal_def get_mint_amounts_def
  get_burn_amounts_def get_mint_txs_by_block_index_def get_burn_txs_by_block_def mint_config_tx_get_by_block_index_def
  find_unaudited_deposits_def find_unaudited_withdrawals_def find_unaudited_mint_txs_def find_unaudited_burn_tx_outs_def

lemma keeps_signers [keeps_intros]: "keeps I (mint_tx_get_signers X m)" "keeps I last_block_audit_data"
  unfolding mint_tx_get_signers_def last_block_audit_data_def
  by (intro keeps_intros)+

lemma keeps_pushes [keeps_intros]:
  "keeps I (push_hybrid_config X c acc)" "keeps I (push_config_tx X t acc')" "keeps I (push_mint X m acc'')"
  unfolding push_hybrid_config_def push_config_tx_def push_mint_def
  by (intro keeps_intros)+

lemma http_handle_keeps:
  assumes "keeps I p"
  shows "keeps I (http_handle p X cfg req)"
  by (cases req)
    (simp_all only: http_handle.simps http_defs route_defs query_defs Let_def,
      (intro keeps_intros keeps_query keeps_counters_get assms)+)

text \<open>C24: the HTTP API only reads: whatever the request and whatever its answer, an error or a panic
  included, neither the database nor any other state of the process changes, as long as taking a
  connection from the pool does not change it.\<close>

theorem http_requests_read_only:
  assumes "\<forall>s. snd (pool_get s) = s"
  shows "snd (http_handle pool_get X cfg req s) = s"
proof -
  have "keeps (\<lambda>t. t = s) pool_get" using assms by (simp add: keeps_def)
  from http_handle_keeps [OF this, of X cfg req] show ?thesis by (simp add: keeps_def)
qed

text \<open>The CORS headers are the only ones a response gains or changes.\<close>

lemma cors_other_headers:
  assumes "h \<notin> {''Access-Control-Allow-Credentials'', ''Access-Control-Allow-Headers'',
    ''Access-Control-Allow-Methods'', ''Access-Control-Allow-Origin''}"
  shows "map_of (cors_on_response headers) h = map_of headers h"
  using assms by (simp add: cors_on_response_def update_conv')

end
