(* ===== verification/Commands.thy ===== *)
theory Commands
  imports Scan Http_Server
begin

text \<open>
  The commands of the program, \<open>src/bin/main.rs\<close>, from the parsed command line on, and the options
  of database connections, \<open>src/db/conn.rs\<close>. What the operating system and other crates do (opening
  the ledger and watcher databases, the connection pool, migrations, servers, threads, SQL pragmas)
  is the record \<open>platform\<close>, with the service the safes' threads talk to. The scan command starts its
  threads and then runs as an interleaving of their steps (\<open>Scan\<close>), in the order of a schedule. It
  runs until something panics, so the commands are partial: not returning is \<open>None\<close>.

  The theorems: at every moment of every schedule the database is one the scan command can be started
  on again; and on a new database the command goes only through reachable states of \<open>System\<close>.
\<close>

section \<open>Connection options\<close>

record connection_options =
  co_enable_wal :: bool
  co_busy_timeout :: "nat option"

definition WAL_PRAGMAS :: string where
  "WAL_PRAGMAS = concat (map (\<lambda>line. CHR 0x0A # line)
    [''                    PRAGMA journal_mode = WAL;          -- better write-concurrency'',
     ''                    PRAGMA synchronous = NORMAL;        -- fsync only in critical moments'',
     ''                    PRAGMA wal_autocheckpoint = 1000;   -- write WAL changes back every 1000 pages, for an in average 1MB WAL file. May affect readers if number is increased'',
     ''                    PRAGMA wal_checkpoint(TRUNCATE);    -- free some space by truncating possibly massive WAL files from the last run.'',
     ''                ''])"

text \<open>\<open>on_acquire\<close>: \<open>batch_execute\<close> runs SQL on a connection.\<close>

definition on_acquire ::
  "(string \<Rightarrow> ('c, 'e, unit) comp) \<Rightarrow> connection_options \<Rightarrow> ('c, 'e, unit) comp" where
  "on_acquire batch_execute self =
     bnd (case co_busy_timeout self of
            Some d \<Rightarrow> batch_execute (''PRAGMA busy_timeout = '' @ show_nat d @ '';'')
          | None \<Rightarrow> ret ()) (\<lambda>_.
     bnd (if co_enable_wal self then batch_execute WAL_PRAGMAS else ret ()) (\<lambda>_.
     bnd (batch_execute ''PRAGMA foreign_keys = ON;'') (\<lambda>_.
     ret ())))"

text \<open>Every connection handed out enforces foreign keys: enabling them is the last thing that succeeded.\<close>

lemma on_acquire_foreign_keys:
  assumes "on_acquire batch_execute self c = (Ok u, c')"
  shows "\<exists>c1. batch_execute ''PRAGMA foreign_keys = ON;'' c1 = (Ok (), c')"
  using assms unfolding on_acquire_def by (auto simp: ret_def elim!: bnd_eq_OkE)

section \<open>Commands\<close>

type_synonym path = string
type_synonym uri = string

definition DB_POOL_SIZE :: nat where
  "DB_POOL_SIZE = 10"

datatype command =
    ScanLedger path "path option" path nat "uri option" "uri option" "gnosis_safe_config option"
  | GetBlockAuditData path "u64 option" bool
  | StartHttpServer path nat string "gnosis_safe_config option"

text \<open>\<open>pf_client_build i\<close> and \<open>pf_http_get i n\<close> are the HTTP client of the \<open>i\<close>-th safe's thread, during its
  \<open>n\<close>-th poll; \<open>pf_panic_exits\<close> says whether the installed panic handler ends the process.\<close>

record platform =
  pf_path_into_string :: "path \<Rightarrow> (string, string) res"
  pf_ledger_open :: "path \<Rightarrow> (string, nat \<Rightarrow> nat \<Rightarrow> ledger) res"
  pf_watcher_open :: "path \<Rightarrow> (string, watcher) res"
  pf_pool_build :: "string \<Rightarrow> nat \<Rightarrow> unit dbm"
  pf_pool_get :: "unit dbm"
  pf_run_migrations :: "unit dbm"
  pf_api_server :: "uri \<Rightarrow> (string, unit) res"
  pf_hostname :: "(string, string option) res"
  pf_admin_server :: "uri \<Rightarrow> string \<Rightarrow> (string, unit) res"
  pf_json_to_string :: "json \<Rightarrow> string"
  pf_decode_value :: "json \<Rightarrow> (string, gnosis_transaction) res"
  pf_url_path :: "url \<Rightarrow> string"
  pf_url_join :: "url \<Rightarrow> string \<Rightarrow> (string, url) res"
  pf_client_build :: "nat \<Rightarrow> (string, unit) res"
  pf_http_get :: "nat \<Rightarrow> nat \<Rightarrow> nat \<Rightarrow> url \<Rightarrow> (string, http_response) res"
  pf_panic_exits :: bool
  pf_ipv4_from_str :: "string \<Rightarrow> (string, nat) res"
  pf_launch :: "nat \<Rightarrow> nat \<Rightarrow> (string, unit) res"

definition open_db :: "platform \<Rightarrow> path \<Rightarrow> unit dbm" where
  "open_db pf reserve_auditor_db_path =
     bnd (lift_res (expect_res ''called `Result::unwrap()` on an `Err` value''
            (pf_path_into_string pf reserve_auditor_db_path))) (\<lambda>db_file_path.
     expect ''Could not open reserve auditor DB''
       (new_from_path (pf_pool_build pf db_file_path DB_POOL_SIZE) (pf_pool_get pf) (pf_run_migrations pf)))"

definition no_watcher :: watcher where
  "no_watcher = \<lparr>wdb_poll_block_timestamp = None, wdb_timestamp_opt = (\<lambda>_. None)\<rparr>"

definition open_watcher :: "platform \<Rightarrow> path option \<Rightarrow> (error, watcher) res" where
  "open_watcher pf watcher_db_path = (case watcher_db_path of
      None \<Rightarrow> Ok no_watcher
    | Some path \<Rightarrow> expect_res ''Could not open watcher DB'' (pf_watcher_open pf path))"

text \<open>One thread per configured safe; a thread's number is its position.\<close>

definition configured_safes :: "gnosis_safe_config option \<Rightarrow> audited_safe_config list" where
  "configured_safes gnosis_safe_config = (case gnosis_safe_config of None \<Rightarrow> [] | Some config \<Rightarrow> gsc_safes config)"

definition start_threads :: "audited_safe_config list \<Rightarrow> gnosis_sync_thread list dbm" where
  "start_threads safes =
     fold_m (\<lambda>safe_config threads.
       bnd (expect ''Failed starting gnosis safe fetcher thread''
              (lift_res (gnosis_sync_thread_start (\<lambda>_. length threads) safe_config))) (\<lambda>thread.
       ret (threads @ [thread]))) safes []"

text \<open>The part of \<open>cmd_scan_ledger\<close> before its loop: databases, servers, threads.\<close>

definition start_scan ::
  "platform \<Rightarrow> path \<Rightarrow> path option \<Rightarrow> path \<Rightarrow> uri option \<Rightarrow> uri option \<Rightarrow> gnosis_safe_config option
   \<Rightarrow> ((nat \<Rightarrow> nat \<Rightarrow> ledger) \<times> watcher \<times> gnosis_sync_thread list) dbm" where
  "start_scan pf ledger_db_path watcher_db_path reserve_auditor_db_path listen_uri admin_listen_uri
     gnosis_safe_config =
     bnd (lift_res (expect_res ''Could not open ledger DB'' (pf_ledger_open pf ledger_db_path))) (\<lambda>ledger_db.
     bnd (lift_res (open_watcher pf watcher_db_path)) (\<lambda>watcher_db.
     bnd (open_db pf reserve_auditor_db_path) (\<lambda>_.
     bnd (lift_res (case listen_uri of None \<Rightarrow> Ok ()
          | Some u \<Rightarrow> expect_res ''called `Result::unwrap()` on an `Err` value'' (pf_api_server pf u))) (\<lambda>_.
     bnd (lift_res (case admin_listen_uri of None \<Rightarrow> Ok ()
          | Some u \<Rightarrow> rbind (expect_res ''failed getting local hostname'' (pf_hostname pf)) (\<lambda>hostname.
              rbind (res_unwrap ''failed getting hostname as str'' hostname) (\<lambda>local_hostname.
              expect_res ''Failed starting admin grpc server'' (pf_admin_server pf u local_hostname))))) (\<lambda>_.
     bnd (start_threads (configured_safes gnosis_safe_config)) (\<lambda>threads.
     ret (ledger_db, watcher_db, threads)))))))"

text \<open>The system of threads when the loop begins, and a step of it.\<close>

definition scan_started :: "gnosis_sync_thread list \<Rightarrow> state \<Rightarrow> scan_system" where
  "scan_started threads s = \<lparr>ss_main = MainSync 0 0, ss_handles = threads,
     ss_threads = map (\<lambda>_. ThreadStarting) threads, ss_state = s\<rparr>"

definition scan_command_step ::
  "platform \<Rightarrow> ext \<Rightarrow> gnosis_safe_config option \<Rightarrow> (nat \<Rightarrow> nat \<Rightarrow> ledger) \<Rightarrow> watcher \<Rightarrow> nat
   \<Rightarrow> nat option \<Rightarrow> scan_system \<Rightarrow> scan_system" where
  "scan_command_step pf X gnosis_safe_config ledger_db watcher_db poll_interval =
     scan_step (scan_loop_step (pf_pool_get pf) X gnosis_safe_config ledger_db watcher_db poll_interval)
       (\<lambda>i. thread_step (pf_pool_get pf) X (pf_json_to_string pf) (pf_decode_value pf) (pf_url_path pf)
          (pf_url_join pf) (pf_client_build pf i) (pf_http_get pf i) (configured_safes gnosis_safe_config ! i)
          poll_interval)
       (pf_panic_exits pf)"

definition cmd_scan_ledger ::
  "platform \<Rightarrow> (nat \<Rightarrow> nat option) \<Rightarrow> ext \<Rightarrow> path \<Rightarrow> path option \<Rightarrow> path \<Rightarrow> nat \<Rightarrow> uri option \<Rightarrow> uri option
   \<Rightarrow> gnosis_safe_config option \<Rightarrow> state \<Rightarrow> ((error, unit) res \<times> state) option" where
  "cmd_scan_ledger pf schedule X ledger_db_path watcher_db_path reserve_auditor_db_path poll_interval listen_uri
     admin_listen_uri gnosis_safe_config s =
     (case start_scan pf ledger_db_path watcher_db_path reserve_auditor_db_path listen_uri admin_listen_uri
             gnosis_safe_config s of
        (Ok (ledger_db, watcher_db, threads), s) \<Rightarrow>
          scan_exec (scan_command_step pf X gnosis_safe_config ledger_db watcher_db poll_interval) schedule 0
            (scan_started threads s)
      | (Err e, s) \<Rightarrow> Some (Err e, s)
      | (Panic p, s) \<Rightarrow> Some (Panic p, s))"

definition cmd_start_http_server :: "platform \<Rightarrow> path \<Rightarrow> nat \<Rightarrow> string \<Rightarrow> string list dbm" where
  "cmd_start_http_server pf reserve_auditor_db_path port host =
     bnd (open_db pf reserve_auditor_db_path) (\<lambda>_.
     lift_res (start_http_server (pf_ipv4_from_str pf) (pf_launch pf) port host))"

definition cmd_get_block_audit_data_at ::
  "platform \<Rightarrow> (block_audit_data \<Rightarrow> balance_map \<Rightarrow> (string, string) res) \<Rightarrow> path \<Rightarrow> u64 option \<Rightarrow> bool
   \<Rightarrow> string list dbm" where
  "cmd_get_block_audit_data_at pf to_json reserve_auditor_db_path block_index json =
     bnd (open_db pf reserve_auditor_db_path) (\<lambda>_.
     bnd (expect ''Could not get db connection'' (pf_pool_get pf)) (\<lambda>_.
     cmd_get_block_audit_data to_json block_index json))"

text \<open>\<open>main\<close>: the result holds the printed lines.\<close>

fun main_command ::
  "platform \<Rightarrow> (nat \<Rightarrow> nat option) \<Rightarrow> ext \<Rightarrow> (block_audit_data \<Rightarrow> balance_map \<Rightarrow> (string, string) res) \<Rightarrow> command
   \<Rightarrow> state \<Rightarrow> ((error, string list) res \<times> state) option" where
  "main_command pf schedule X to_json (ScanLedger ledger_db watcher_db reserve_auditor_db poll_interval listen_uri
     admin_listen_uri gnosis_safe_config) s =
     map_option (\<lambda>(r, s'). (rbind r (\<lambda>_. Ok []), s'))
       (cmd_scan_ledger pf schedule X ledger_db watcher_db reserve_auditor_db poll_interval listen_uri admin_listen_uri
          gnosis_safe_config s)"
| "main_command pf schedule X to_json (GetBlockAuditData reserve_auditor_db block_index json) s =
     Some (cmd_get_block_audit_data_at pf to_json reserve_auditor_db block_index json s)"
| "main_command pf schedule X to_json (StartHttpServer reserve_auditor_db port host gnosis_safe_config) s =
     Some (bnd (expect_some ''Failure to read gnosis safe config file.'' gnosis_safe_config) (\<lambda>_.
       cmd_start_http_server pf reserve_auditor_db port host) s)"

section \<open>Computations that never return an error\<close>

definition no_err :: "('s, 'e, 'a) comp \<Rightarrow> bool" where
  "no_err m \<longleftrightarrow> (\<forall>s e s'. m s \<noteq> (Err e, s'))"

named_theorems no_err_intros

lemma no_err_ret [no_err_intros]: "no_err (ret x)"
  by (simp add: no_err_def ret_def)

lemma no_err_expect [no_err_intros]: "no_err (expect p m)"
  by (simp add: no_err_def expect_def split: prod.splits res.splits)

lemma no_err_bnd [no_err_intros]: "no_err m \<Longrightarrow> (\<And>x. no_err (f x)) \<Longrightarrow> no_err (bnd m f)"
  unfolding no_err_def by (metis bnd_eq_ErrE)

lemma no_err_fold_m [no_err_intros]: "(\<And>x b. no_err (f x b)) \<Longrightarrow> no_err (fold_m f xs b)"
  by (induction xs arbitrary: b) (auto intro: no_err_intros)

lemma no_err_lift_res: "(\<And>e. r \<noteq> Err e) \<Longrightarrow> no_err (lift_res r)"
  by (simp add: no_err_def lift_res_def)

lemma expect_res_not_Err [simp]: "expect_res p r \<noteq> Err e" "Err e \<noteq> expect_res p r"
  by (cases r; simp add: expect_res_def)+

lemma expect_res_Ok [simp]: "expect_res p r = Ok x \<longleftrightarrow> r = Ok x"
  by (cases r) (simp_all add: expect_res_def)

lemma rbind_not_Err: "(\<And>e. r \<noteq> Err e) \<Longrightarrow> (\<And>x e. f x \<noteq> Err e) \<Longrightarrow> rbind r f \<noteq> Err e"
  by (cases r) auto

lemma start_scan_no_err: "no_err (start_scan pf lp wp dp lu au gcfg)"
  unfolding start_scan_def start_threads_def open_db_def open_watcher_def
  by (intro no_err_intros no_err_lift_res) (auto split: option.splits simp: rbind_not_Err res_unwrap_def)

section \<open>The scan command\<close>

text \<open>A database the command can be started on: a new one, or one it has left before.\<close>

definition restartable ::
  "ext \<Rightarrow> gnosis_safe_config \<Rightarrow> (nat \<Rightarrow> block_contents) \<Rightarrow> (nat \<Rightarrow> datetime option) \<Rightarrow> state \<Rightarrow> bool" where
  "restartable X cfg bc ts s \<longleftrightarrow> st_db s = empty_database \<or> sys_inv X cfg bc ts s"

definition platform_reads :: "platform \<Rightarrow> bool" where
  "platform_reads pf \<longleftrightarrow> (\<forall>s path n. snd (pf_pool_build pf path n s) = s \<and> snd (pf_pool_get pf s) = s
     \<and> snd (pf_run_migrations pf s) = s)"

lemma ensure_exists_restartable:
  "valid (restartable X cfg bc ts) ensure_exists (\<lambda>_. sys_inv X cfg bc ts) (restartable X cfg bc ts)"
proof -
  have run: "\<exists>s'. ensure_exists s = (Ok (), s') \<and> sys_inv X cfg bc ts s'" if "restartable X cfg bc ts s" for s
  proof (cases "st_db s = empty_database")
    case True
    then have "t_counters (st_db s) = []" by (simp add: empty_database_def)
    note ensure_exists_new [OF this]
    moreover have "sys_init (s\<lparr>st_db := (st_db s)\<lparr>t_counters := [counters_default]\<rparr>\<rparr>)"
      using True by (simp add: sys_init_def)
    ultimately show ?thesis using sys_init_inv by blast
  next
    case False
    with that have inv: "sys_inv X cfg bc ts s" by (simp add: restartable_def)
    then obtain c where "t_counters (st_db s) = [c]" by (auto simp: sys_inv_def chain_at_def)
    from ensure_exists_row [OF this] inv show ?thesis by blast
  qed
  then show ?thesis by (intro validI) (metis prod.inject res.distinct(1,3))+
qed

lemma valid_reads: "\<forall>s. snd (m s) = s \<Longrightarrow> valid P m (\<lambda>_. P) P"
  by (intro valid_keeps) (simp add: keeps_def)

lemma open_db_valid:
  assumes "platform_reads pf" and "valid P ensure_exists (\<lambda>_. Q) P"
  shows "valid P (open_db pf path) (\<lambda>_. Q) P"
proof -
  have "valid P (new_from_path (pf_pool_build pf p n) (pf_pool_get pf) (pf_run_migrations pf)) (\<lambda>_. Q) P" for p n
    unfolding new_from_path_def
    by (intro valid_bnd [OF valid_reads] assms(2)) (use assms(1) in \<open>simp_all add: platform_reads_def\<close>)
  moreover have "valid P m Q E \<Longrightarrow> valid P (expect msg m) Q E" for P Q E msg and m :: "unit dbm"
    unfolding valid_def expect_def by (fastforce split: prod.splits res.splits)
  ultimately show ?thesis
    unfolding open_db_def by (intro valid_bnd [OF valid_reads]) (simp_all add: lift_res_def)
qed

lemma start_scan_valid:
  assumes "platform_reads pf" and "valid P ensure_exists (\<lambda>_. Q) P" and "\<And>s. Q s \<Longrightarrow> P s"
  shows "valid P (start_scan pf lp wp dp lu au gcfg) (\<lambda>_. Q) P"
proof -
  have after: "valid Q m (\<lambda>_. Q) P" if "\<And>I. keeps I m" for m :: "'a dbm"
    by (rule validI) (blast intro: assms(3) dest: keepsD [OF that [of Q]])+
  show ?thesis
    unfolding start_scan_def start_threads_def
    by (intro valid_bnd [OF valid_reads] valid_bnd [OF open_db_valid [OF assms(1,2)]] after keeps_intros)
      (simp_all add: lift_res_def)
qed

lemma fold_m_collect:
  "fold_m (\<lambda>_ hs. ret (hs @ [f (length hs)])) xs hs = ret (hs @ map f [length hs ..< length hs + length xs])"
  by (induction xs arbitrary: hs) (simp_all add: bnd_def ret_def fun_eq_iff upt_conv_Cons del: upt_Suc)

lemma start_threads_run:
  "start_threads safes = ret (map (\<lambda>i. \<lparr>gth_stop_requested = False, gth_join_handle = Some i\<rparr>) [0 ..< length safes])"
proof -
  have "start_threads safes =
      fold_m (\<lambda>_ hs. ret (hs @ [\<lparr>gth_stop_requested = False, gth_join_handle = Some (length hs)\<rparr>])) safes []"
    by (simp add: start_threads_def gnosis_sync_thread_start_def lift_res_def expect_def bnd_def ret_def)
  then show ?thesis
    by (simp add: fold_m_collect [of "\<lambda>i. \<lparr>gth_stop_requested = False, gth_join_handle = Some i\<rparr>"])
qed

lemma start_scan_OkD:
  assumes "start_scan pf lp wp dp lu au gcfg s = (Ok (ledger_at, w, threads), s')"
  shows "pf_ledger_open pf lp = Ok ledger_at \<and> open_watcher pf wp = Ok w
    \<and> threads = map (\<lambda>i. \<lparr>gth_stop_requested = False, gth_join_handle = Some i\<rparr>) [0 ..< length (configured_safes gcfg)]"
  using assms unfolding start_scan_def start_threads_run
  by (auto simp: lift_res_def ret_def elim!: bnd_eq_OkE)

section \<open>Every moment of every schedule\<close>

text \<open>A relation that covers the transactions of the threads covers the whole run of the command.\<close>

lemma scan_command_covered:
  assumes "\<And>m n. ledger_serves (ledger_at m n) w bc ts"
    and "covers R (pf_pool_get pf) X (pf_json_to_string pf) (pf_decode_value pf) gcfg (ledger_block w bc ts) w
      (configured_safes gcfg)"
    and "length threads = length (configured_safes gcfg)"
  shows "R\<^sup>*\<^sup>* s (ss_state (scan_run (scan_command_step pf X gcfg ledger_at w d) schedule t (scan_started threads s)))"
proof -
  let ?P = "ledger_block w bc ts" and ?safes = "configured_safes gcfg"
  have "scan_ok ?P ?safes (scan_started threads s)"
    using assms(3) by (simp add: scan_ok_def scan_started_def list_all2_conv_all_nth)
  moreover have "scan_ok ?P ?safes (scan_command_step pf X gcfg ledger_at w d who c)
      \<and> R\<^sup>*\<^sup>* (ss_state c) (ss_state (scan_command_step pf X gcfg ledger_at w d who c))"
    if ok: "scan_ok ?P ?safes c" for who c
  proof -
    let ?loop = "scan_loop_step (pf_pool_get pf) X gcfg ledger_at w d"
    let ?step = "\<lambda>i. thread_step (pf_pool_get pf) X (pf_json_to_string pf) (pf_decode_value pf) (pf_url_path pf)
      (pf_url_join pf) (pf_client_build pf i) (pf_http_get pf i) (?safes ! i) d"
    have main: "scan_ok ?P ?safes (main_step ?loop b c) \<and> R\<^sup>*\<^sup>* (ss_state c) (ss_state (main_step ?loop b c))" for b
      by (rule main_step_covered [OF ok]) (auto intro: loop_step_steps [OF assms(2)] loop_step_ok [OF assms(1)])
    have thread: "scan_ok ?P ?safes (safe_thread_step ?step b i c)
        \<and> R\<^sup>*\<^sup>* (ss_state c) (ss_state (safe_thread_step ?step b i c))" for b i
      by (rule safe_thread_step_covered [OF ok])
        (auto intro: thread_step_steps [OF assms(2)] thread_step_ok)
    show ?thesis
      using main thread ok by (simp add: scan_command_step_def scan_step_def split: main_state.split option.split)
  qed
  ultimately have "R\<^sup>*\<^sup>* (ss_state (scan_started threads s))
      (ss_state (scan_run (scan_command_step pf X gcfg ledger_at w d) schedule t (scan_started threads s)))"
    by (rule scan_run_covered [THEN conjunct2])
  then show ?thesis by (simp add: scan_started_def)
qed

lemma sys_step_covers:
  assumes "steps (sys_step X cfg js dec bc ts) pool_get"
  shows "covers (sys_step X cfg js dec bc ts) pool_get X js dec (Some cfg) (ledger_block w bc ts) w (gsc_safes cfg)"
  unfolding covers_def
proof (intro conjI allI ballI impI assms poll_steps sleep_step)
  fix bd assume "ledger_block w bc ts bd"
  then obtain k where k: "k < 2 ^ 63" "blk_index (bd_block bd) = of_nat k" "bd_contents bd = bc k"
    "block_timestamp_of w bd = ts k" by (auto simp: ledger_block_def)
  show "steps (sys_step X cfg js dec bc ts) (sync_next X (Some cfg) bd (block_timestamp_of w bd))"
  proof (rule stepsI)
    fix s r s' assume "sync_next X (Some cfg) bd (block_timestamp_of w bd) s = (r, s')"
    with k have "sys_step X cfg js dec bc ts s s'" by (intro sync_block_step [of _ _ bd ts k _ r]) simp_all
    then show "(sys_step X cfg js dec bc ts)\<^sup>*\<^sup>* s s'" by blast
  qed
qed

text \<open>Keeping the invariant, also when no safe is configured and nothing is audited.\<close>

definition inv_kept ::
  "ext \<Rightarrow> gnosis_safe_config \<Rightarrow> (nat \<Rightarrow> block_contents) \<Rightarrow> (nat \<Rightarrow> datetime option) \<Rightarrow> state \<Rightarrow> state \<Rightarrow> bool" where
  "inv_kept X cfg bc ts s s' \<longleftrightarrow> (sys_inv X cfg bc ts s \<longrightarrow> sys_inv X cfg bc ts s')"

lemma inv_kept_star: "(inv_kept X cfg bc ts)\<^sup>*\<^sup>* s s' \<Longrightarrow> inv_kept X cfg bc ts s s'"
  by (induction rule: rtranclp_induct) (auto simp: inv_kept_def)

lemma inv_kept_covers:
  assumes "audit_system X dec" and pool: "\<forall>s. snd (pool_get s) = s" and gcfg: "gcfg = None \<or> gcfg = Some cfg"
  shows "covers (inv_kept X cfg bc ts) pool_get X js dec gcfg (ledger_block w bc ts) w (configured_safes gcfg)"
  unfolding covers_def
proof (intro conjI allI ballI impI)
  show "steps (inv_kept X cfg bc ts) pool_get" using pool by (simp add: steps_def)
  show "inv_kept X cfg bc ts s (sleep ms s)" for ms s by (simp add: inv_kept_def sys_inv_def)
  fix bd assume "ledger_block w bc ts bd"
  then obtain k where k: "k < 2 ^ 63" "blk_index (bd_block bd) = of_nat k" "bd_contents bd = bc k"
    "block_timestamp_of w bd = ts k" by (auto simp: ledger_block_def)
  show "steps (inv_kept X cfg bc ts) (sync_next X gcfg bd (block_timestamp_of w bd))"
  proof (rule stepsI)
    fix s r s' assume "sync_next X gcfg bd (block_timestamp_of w bd) s = (r, s')"
    with k ext_laws.sync_block_keeps_inv [OF audit_system.axioms(1) [OF assms(1)], of cfg bc ts s gcfg bd k r s'] gcfg
    have "inv_kept X cfg bc ts s s'" by (simp add: inv_kept_def)
    then show "(inv_kept X cfg bc ts)\<^sup>*\<^sup>* s s'" by blast
  qed
next
  fix safe fetched assume "safe \<in> set (configured_safes gcfg)"
  with gcfg have safe: "safe \<in> set (gsc_safes cfg)" by (auto simp: configured_safes_def)
  have "steps (sys_step X cfg js dec bc ts) pool_get" using pool by (simp add: steps_def)
  from poll_steps [OF safe this] have poll: "steps (sys_step X cfg js dec bc ts) (poll pool_get X js dec safe fetched)" .
  show "steps (inv_kept X cfg bc ts) (poll pool_get X js dec safe fetched)"
  proof (rule stepsI)
    fix s r s' assume "poll pool_get X js dec safe fetched s = (r, s')"
    from stepsD [OF poll this] have "inv_kept X cfg bc ts s s'"
      using steps_keep_inv [OF assms(1)] by (auto simp: inv_kept_def)
    then show "(inv_kept X cfg bc ts)\<^sup>*\<^sup>* s s'" by blast
  qed
qed

text \<open>The state of the command after \<open>t\<close> steps of a schedule, once it has started.\<close>

definition scan_state_at ::
  "platform \<Rightarrow> ext \<Rightarrow> gnosis_safe_config option \<Rightarrow> nat \<Rightarrow> (nat \<Rightarrow> nat \<Rightarrow> ledger) \<Rightarrow> watcher
   \<Rightarrow> gnosis_sync_thread list \<Rightarrow> (nat \<Rightarrow> nat option) \<Rightarrow> nat \<Rightarrow> state \<Rightarrow> state" where
  "scan_state_at pf X gcfg d ledger_at w threads schedule t s =
     ss_state (scan_run (scan_command_step pf X gcfg ledger_at w d) schedule t (scan_started threads s))"

text \<open>C15: the scan command is crash safe, however its main thread and its safes' threads interleave.
  Start it on a new database or on one it has left before, with the audited configuration or with
  none, over a ledger whose block \<open>k\<close> has index \<open>k\<close>, a fixed content and a fixed timestamp and which
  has at most \<open>2 ^ 63\<close> blocks; the pool and the migrations change no row. Then after any number of steps of any schedule, so wherever the process
  is killed between two transactions, the database is again one it can be started on, with all its
  guarantees; the same holds of the database it leaves when it ends, which is by a panic: a database
  or server that cannot be opened, a failing \<open>sync_loop\<close> followed by stopping the threads, or, if the
  panic handler ends the process, a panic of a safe's thread.\<close>

theorem scan_ledger_crash_safe:
  assumes "audit_system X (pf_decode_value pf)" and "platform_reads pf" and "gcfg = None \<or> gcfg = Some cfg"
    and "restartable X cfg bc ts s"
    and serves: "\<And>ledger_at w m n. pf_ledger_open pf lp = Ok ledger_at \<Longrightarrow> open_watcher pf wp = Ok w \<Longrightarrow>
      ledger_serves (ledger_at m n) w bc ts"
  shows "(\<forall>ledger_at w threads s0 t. start_scan pf lp wp dp lu au gcfg s = (Ok (ledger_at, w, threads), s0) \<longrightarrow>
       restartable X cfg bc ts (scan_state_at pf X gcfg d ledger_at w threads schedule t s0))
    \<and> (\<forall>r s'. cmd_scan_ledger pf schedule X lp wp dp d lu au gcfg s = Some (r, s') \<longrightarrow>
       (\<exists>p. r = Panic p) \<and> restartable X cfg bc ts s')"
proof -
  note start = start_scan_valid [OF assms(2) ensure_exists_restartable [of X cfg bc ts], of lp wp dp lu au gcfg]
  have start: "valid (restartable X cfg bc ts) (start_scan pf lp wp dp lu au gcfg) (\<lambda>_. sys_inv X cfg bc ts)
      (restartable X cfg bc ts)"
    by (rule start) (simp add: restartable_def)
  have moment: "restartable X cfg bc ts (scan_state_at pf X gcfg d ledger_at w threads schedule t s0)"
    if run: "start_scan pf lp wp dp lu au gcfg s = (Ok (ledger_at, w, threads), s0)" for ledger_at w threads s0 t
  proof -
    note opened = start_scan_OkD [OF run]
    have "sys_inv X cfg bc ts s0" using valid_OkD [OF start assms(4) run] .
    moreover have "(inv_kept X cfg bc ts)\<^sup>*\<^sup>* s0 (scan_state_at pf X gcfg d ledger_at w threads schedule t s0)"
      unfolding scan_state_at_def
      by (rule scan_command_covered [OF serves inv_kept_covers [OF assms(1) _ assms(3)]])
        (use opened assms(2) in \<open>simp_all add: platform_reads_def\<close>)
    ultimately show ?thesis using inv_kept_star by (auto simp: inv_kept_def restartable_def)
  qed
  moreover have "(\<exists>p. r = Panic p) \<and> restartable X cfg bc ts s'"
    if cmd: "cmd_scan_ledger pf schedule X lp wp dp d lu au gcfg s = Some (r, s')" for r s'
  proof (cases "start_scan pf lp wp dp lu au gcfg s")
    case (Pair r0 s0)
    show ?thesis
    proof (cases r0)
      case (Ok v)
      obtain ledger_at w threads where v: "v = (ledger_at, w, threads)" by (cases v)
      with cmd Pair Ok have "scan_exec (scan_command_step pf X gcfg ledger_at w d) schedule 0 (scan_started threads s0)
          = Some (r, s')" by (simp add: cmd_scan_ledger_def)
      from scan_exec_run [OF this, of "scan_started threads s0"] moment Pair Ok v
      show ?thesis by (auto simp: scan_state_at_def)
    next
      case (Err e)
      with Pair start_scan_no_err show ?thesis by (simp add: no_err_def)
    next
      case (Panic p)
      with Pair cmd valid_PanicD [OF start assms(4)] show ?thesis by (auto simp: cmd_scan_ledger_def)
    qed
  qed
  ultimately show ?thesis by blast
qed

text \<open>C20: what is proved of reachable states holds of the running command: started on a new database with a
  configuration, over a ledger whose block \<open>k\<close> has index \<open>k\<close>, a fixed content and a fixed timestamp
  and which has at most \<open>2 ^ 63\<close> blocks, and with a pool and migrations that change no row, the scan command with all its threads, interleaved by any
  schedule, is at every moment in a state that the transition system reaches from its initial state.\<close>

theorem scan_command_reaches:
  assumes "platform_reads pf" and "st_db s = empty_database"
    and serves: "\<And>ledger_at w m n. pf_ledger_open pf lp = Ok ledger_at \<Longrightarrow> open_watcher pf wp = Ok w \<Longrightarrow>
      ledger_serves (ledger_at m n) w bc ts"
    and run: "start_scan pf lp wp dp lu au (Some cfg) s = (Ok (ledger_at, w, threads), s0)"
  shows "sys_init s0 \<and> (sys_step X cfg (pf_json_to_string pf) (pf_decode_value pf) bc ts)\<^sup>*\<^sup>* s0
    (scan_state_at pf X (Some cfg) d ledger_at w threads schedule t s0)"
proof
  have new: "valid (\<lambda>s. st_db s = empty_database \<or> sys_init s) ensure_exists (\<lambda>_. sys_init)
      (\<lambda>s. st_db s = empty_database \<or> sys_init s)"
  proof -
    have "\<exists>s'. ensure_exists s = (Ok (), s') \<and> sys_init s'" if "st_db s = empty_database \<or> sys_init s" for s
      using that
    proof
      assume "st_db s = empty_database"
      then show ?thesis using ensure_exists_new [of s] by (simp add: sys_init_def empty_database_def)
    next
      assume "sys_init s"
      then show ?thesis using ensure_exists_row [of s] by (simp add: sys_init_def)
    qed
    then show ?thesis by (intro validI) (metis prod.inject res.distinct(1,3))+
  qed
  show "sys_init s0" by (rule valid_OkD [OF start_scan_valid [OF assms(1) new] _ run]) (simp_all add: assms(2))
  note opened = start_scan_OkD [OF run]
  have "steps (sys_step X cfg (pf_json_to_string pf) (pf_decode_value pf) bc ts) (pf_pool_get pf)"
    using assms(1) by (simp add: steps_def platform_reads_def)
  from sys_step_covers [OF this]
  show "(sys_step X cfg (pf_json_to_string pf) (pf_decode_value pf) bc ts)\<^sup>*\<^sup>* s0
      (scan_state_at pf X (Some cfg) d ledger_at w threads schedule t s0)"
    unfolding scan_state_at_def
    by (intro scan_command_covered [OF serves]) (use opened in \<open>simp_all add: configured_safes_def\<close>)
qed

end
