(* ===== verification/Column_Types.thy ===== *)
theory Column_Types
  imports System Convert
begin

text \<open>
  The column types. The columns declared \<open>BigInt\<close> in \<open>src/db/schema.rs\<close> are integers in the model;
  a Rust value read from one of them is an \<open>i64\<close>. The interpretation \<open>typing\<close> checks that the model
  respects this: in every reachable state every such column of the data tables holds a value in that
  range, a side condition of the theorems on what is served and stored. (The counters, which grow by
  one at a time, are left out.)
\<close>

section \<open>Typed rows\<close>

lemma i64_ok_as_i64 [simp]: "i64_ok (as_i64 w)"
  using sint_ge [of w] sint_lt [of w] by (simp add: i64_ok_def as_i64_def)

definition mint_columns :: "mint_tx \<Rightarrow> bool" where
  "mint_columns m \<longleftrightarrow> i64_ok (mt_block_index m) \<and> i64_ok (mt_token_id m) \<and> i64_ok (mt_amount m)
     \<and> i64_ok (mt_tombstone_block m)"

definition burn_columns :: "burn_tx_out \<Rightarrow> bool" where
  "burn_columns b \<longleftrightarrow> i64_ok (bto_block_index b) \<and> i64_ok (bto_token_id b) \<and> i64_ok (bto_amount b)"

definition config_tx_columns :: "mint_config_tx \<Rightarrow> bool" where
  "config_tx_columns t \<longleftrightarrow> i64_ok (mct_block_index t) \<and> i64_ok (mct_token_id t)
     \<and> i64_ok (mct_total_mint_limit t) \<and> i64_ok (mct_tombstone_block t)"

definition balance_columns :: "block_balance \<Rightarrow> bool" where
  "balance_columns b \<longleftrightarrow> i64_ok (bb_block_index b) \<and> i64_ok (bb_token_id b) \<and> i64_ok (bb_balance b)"

definition deposit_columns :: "gnosis_safe_deposit \<Rightarrow> bool" where
  "deposit_columns x \<longleftrightarrow> i64_ok (gsd_eth_block_number x) \<and> i64_ok (gsd_amount x)"

definition withdrawal_columns :: "gnosis_safe_withdrawal \<Rightarrow> bool" where
  "withdrawal_columns x \<longleftrightarrow> i64_ok (gsw_eth_block_number x) \<and> i64_ok (gsw_amount x)"

definition columns_ok :: "database \<Rightarrow> bool" where
  "columns_ok d \<longleftrightarrow> list_all mint_columns (t_mint_txs d) \<and> list_all burn_columns (t_burn_tx_outs d)
     \<and> list_all (\<lambda>c. i64_ok (mc_mint_limit c)) (t_mint_configs d)
     \<and> list_all config_tx_columns (t_mint_config_txs d)
     \<and> list_all (\<lambda>b. i64_ok (bad_block_index b)) (t_block_audit_data d)
     \<and> list_all balance_columns (t_block_balance d)
     \<and> list_all deposit_columns (t_gnosis_safe_deposits d)
     \<and> list_all withdrawal_columns (t_gnosis_safe_withdrawals d)"

abbreviation typed :: "state \<Rightarrow> bool" where
  "typed s \<equiv> columns_ok (st_db s)"

named_theorems typed_intros

lemma columns_ok_frames [simp]:
  "columns_ok (d\<lparr>t_counters := a\<rparr>) = columns_ok d" "columns_ok (d\<lparr>t_audited_mints := b\<rparr>) = columns_ok d"
  "columns_ok (d\<lparr>t_audited_burns := c\<rparr>) = columns_ok d" "columns_ok (d\<lparr>t_gnosis_safe_txs := e\<rparr>) = columns_ok d"
  by (simp_all add: columns_ok_def)

section \<open>Inserts\<close>

lemma keeps_sql_insert_row:
  assumes "\<And>d i. I d \<Longrightarrow> I (put (get d @ [set_rid i r]) d)"
  shows "keeps (\<lambda>s. I (st_db s)) (sql_insert X rid set_rid get put uniq fk r)"
  by (auto simp: keeps_def sql_insert_def Let_def assms split: option.split)

lemma typed_inserts:
  "mint_columns m \<Longrightarrow> keeps typed (insert_into_mint_txs X m)"
  "burn_columns b \<Longrightarrow> keeps typed (insert_into_burn_tx_outs X b)"
  "i64_ok (mc_mint_limit c) \<Longrightarrow> keeps typed (insert_into_mint_configs X c)"
  "config_tx_columns t \<Longrightarrow> keeps typed (insert_into_mint_config_txs X t)"
  "deposit_columns x \<Longrightarrow> keeps typed (insert_into_gnosis_safe_deposits X x)"
  "withdrawal_columns w \<Longrightarrow> keeps typed (insert_into_gnosis_safe_withdrawals X w)"
  unfolding insert_into_mint_txs_def insert_into_burn_tx_outs_def insert_into_mint_configs_def
    insert_into_mint_config_txs_def insert_into_gnosis_safe_deposits_def insert_into_gnosis_safe_withdrawals_def
  by (rule keeps_sql_insert_row [where I = columns_ok],
      simp add: columns_ok_def mint_columns_def burn_columns_def config_tx_columns_def deposit_columns_def
        withdrawal_columns_def)+

lemma typed_mint [typed_intros]: "keeps typed (insert_from_core_mint_tx X i ts c tx)"
  unfolding insert_from_core_mint_tx_def mint_tx_insert_def
  by (intro keeps_bnd_lift_res keeps_intros typed_inserts)
    (auto simp: from_core_mint_tx_def rbind_eq_Ok mint_columns_def)

lemma typed_burn [typed_intros]:
  "b \<in> set (find_burns X i ts outs) \<Longrightarrow> keeps typed (burn_tx_out_insert X b)"
  unfolding burn_tx_out_insert_def
  by (intro keeps_intros typed_inserts)
    (auto simp: find_burns_def List.map_filter_def res_ok_def from_core_tx_out_def burn_columns_def rbind_eq_Ok
      split: res.splits)

lemma typed_block_audit_data [typed_intros]: "keeps typed (block_audit_data_set (block_audit_data_new i))"
  by (auto simp: keeps_def columns_ok_def block_audit_data_new_def list_all_iff)

lemma typed_balances [typed_intros]: "keeps typed (set_balances_for_block i bm)"
proof -
  have "keeps typed (insert_into_block_balance \<lparr>bb_block_index = as_i64 i, bb_token_id = as_i64 t, bb_balance = as_i64 b\<rparr>)"
    for t b
    by (auto simp: keeps_def insert_into_block_balance_def Let_def columns_ok_def balance_columns_def)
  then show ?thesis
    unfolding set_balances_for_block_def by (intro keeps_intros keeps_transaction) (auto split: prod.splits)
qed

lemma typed_configs [typed_intros]: "keeps typed (store_config_txs X i ts txs)"
  by (intro keeps_store_config_txs typed_inserts)
    (simp_all add: from_core_mint_config_def from_core_mint_config_tx_def config_tx_columns_def)

lemma typed_sync_block: "keeps typed (sync_block_with_conn X blk bc ts)"
  unfolding sync_block_with_conn_def sync_block_tx_def sync_mint_def sync_burn_def Let_def inc_defs
    store_config_txs_def [symmetric] split_def
  by (intro keeps_intros keeps_impl_inc typed_intros) simp_all

section \<open>The safe side\<close>

lemma inc_keeps_typed [simp]: "inc_keeps columns_ok"
  by (rule inc_keeps_frame) simp

lemma parsed_columns:
  "parse_deposit X safe tx t = Ok x \<Longrightarrow> deposit_columns x"
  "parse_withdrawal_with_pub_key_multi_sig_tx X safe m = Ok w \<Longrightarrow> withdrawal_columns w"
  unfolding parse_deposit_def parse_withdrawal_with_pub_key_multi_sig_tx_def
  by (auto simp: rbind_eq_Ok gnosis_safe_deposit_new_def gnosis_safe_withdrawal_new_def deposit_columns_def
      withdrawal_columns_def split: prod.splits)

lemma typed_process_transaction: "keeps typed (process_transaction X js dec safe tx)"
  by (rule keeps_process_rows) (simp_all add: typed_inserts parsed_columns)

section \<open>Every reachable state\<close>

lemma typed_sync_next: "keeps typed (sync_next X gcfg bd t)"
  unfolding sync_next_def
  by (intro keeps_conn_transaction keeps_bnd typed_sync_block keeps_audit_option) simp_all

lemma columns_ok_empty: "columns_ok empty_database"
  by (simp add: columns_ok_def empty_database_def)

interpretation typing: step_invariant sys_init "sys_step X cfg js dec bc ts" typed
  for X cfg js dec bc ts
proof
  show "typed s" if "sys_init s" for s using that by (simp add: sys_init_def columns_ok_empty)
  show "typed s'" if "typed s" and "sys_step X cfg js dec bc ts s s'" for s s'
    using that(2)
  proof (cases rule: sys_stepE)
    case (sync_block bd k r)
    from keepsD [OF typed_sync_next that(1) sync_block(1)] show ?thesis .
  next
    case (gnosis safe tx r)
    from keepsD [OF keeps_conn_transaction [OF typed_process_transaction] that(1) gnosis(2)] show ?thesis .
  qed (use that(1) in simp_all)
qed

end
