(* ===== verification/Accounting.thy ===== *)
theory Accounting
  imports System
begin

text \<open>
  The books of the auditor. Three parts of the database are written by the transaction of a block and never
  compared by the code: the stored balances, the tables of mints and burns, and two counters. Here: in every
  reachable state they balance. What was minted of a token is what the last block's balance holds plus
  what was burned, as long as no burn was counted as exceeding its balance; and the counter of mints without
  configuration counts exactly the rows without one.
\<close>

section \<open>Totals over rows\<close>

definition minted_rows :: "token_id \<Rightarrow> mint_tx list \<Rightarrow> nat" where
  "minted_rows tok ms = (\<Sum>m \<leftarrow> filter (\<lambda>m. mint_tx_token_id m = tok) ms. unat (mint_tx_amount m))"

definition unconfigured :: "mint_tx list \<Rightarrow> nat" where
  "unconfigured ms = length (filter (\<lambda>m. mt_mint_config_id m = None) ms)"

lemma rows_append [simp]:
  "minted_rows tok (ms @ ms') = minted_rows tok ms + minted_rows tok ms'"
  "burned tok (bs @ bs') = burned tok bs + burned tok bs'"
  "unconfigured (ms @ ms') = unconfigured ms + unconfigured ms'"
  by (simp_all add: minted_rows_def burned_def unconfigured_def)

lemma rows_Nil [simp]: "minted_rows tok [] = 0" "burned tok [] = 0" "unconfigured [] = 0"
  by (simp_all add: minted_rows_def burned_def unconfigured_def)

lemma minted_rows_stored: "list_all2 (mint_row X i ts) txs ms \<Longrightarrow> minted_rows tok ms = minted tok txs"
proof (induction rule: list_all2_induct)
  case (Cons tx txs row ms)
  from Cons.hyps(1) have "mint_tx_amount row = mtp_amount (cmt_prefix tx)"
    "mint_tx_token_id row = mtp_token_id (cmt_prefix tx)"
    by (auto simp: mint_row_def mint_tx_amount_def mint_tx_token_id_def dest!: from_core_mint_tx_values)
  with Cons.IH show ?case by (simp add: minted_rows_def minted_def)
qed (simp add: minted_def)

lemma burned_stored: "list_all2 burn_row outs bs \<Longrightarrow> burned tok bs = burned tok outs"
proof (induction rule: list_all2_induct)
  case (Cons b outs row bs)
  from Cons.hyps(1) have "burn_tx_out_amount row = burn_tx_out_amount b"
    "burn_tx_out_token_id row = burn_tx_out_token_id b"
    by (auto simp: burn_row_def burn_tx_out_amount_def burn_tx_out_token_id_def)
  with Cons.IH show ?case by (simp add: burned_def)
qed simp

text \<open>Burns never raise a balance, take at most what they say, and exactly that when none exceeds it.\<close>

lemma fold_burn_account:
  "unat (fold burn_effect bs bal tok) \<le> unat (bal tok) \<and> unat (bal tok) \<le> unat (fold burn_effect bs bal tok) + burned tok bs
    \<and> (exceeding_burns bs bal = 0 \<longrightarrow> unat (bal tok) = unat (fold burn_effect bs bal tok) + burned tok bs)"
proof (induction bs arbitrary: bal)
  case (Cons b bs)
  have "unat (burn_effect b bal tok) \<le> unat (bal tok)
      \<and> unat (bal tok) \<le> unat (burn_effect b bal tok) + burned tok [b]
      \<and> (exceeding_burns [b] bal = 0 \<longrightarrow> unat (bal tok) = unat (burn_effect b bal tok) + burned tok [b])"
    by (auto simp: burn_effect_def burned_def word_less_nat_alt unat_sub_if_size split: if_splits)
  moreover have "burned tok (b # bs) = burned tok [b] + burned tok bs"
    using rows_append(2) [of tok "[b]" bs] by simp
  ultimately show ?case using Cons.IH [of "burn_effect b bal"] by (simp split: if_splits)
qed simp

section \<open>The books balance\<close>

definition account_ok :: "counters \<Rightarrow> (token_id \<Rightarrow> u64) \<Rightarrow> mint_tx list \<Rightarrow> burn_tx_out list \<Rightarrow> bool" where
  "account_ok c bal ms bs \<longleftrightarrow> num_mint_txs_without_matching_mint_config c = int (unconfigured ms)
     \<and> 0 \<le> num_burns_exceeding_balance c
     \<and> (\<forall>tok. minted_rows tok ms < 2 ^ 64 \<longrightarrow> unat (bal tok) \<le> minted_rows tok ms
          \<and> minted_rows tok ms \<le> unat (bal tok) + burned tok bs
          \<and> (num_burns_exceeding_balance c = 0 \<longrightarrow> minted_rows tok ms = unat (bal tok) + burned tok bs))"

lemma account_okD:
  assumes "account_ok c bal ms bs" and "minted_rows tok ms < 2 ^ 64"
  shows "unat (bal tok) \<le> minted_rows tok ms" and "minted_rows tok ms \<le> unat (bal tok) + burned tok bs"
    and "num_burns_exceeding_balance c = 0 \<Longrightarrow> minted_rows tok ms = unat (bal tok) + burned tok bs"
  using assms unfolding account_ok_def by blast+

lemma block_counters_counts:
  "num_mint_txs_without_matching_mint_config (block_counters X i ts bc bal rows c)
     = num_mint_txs_without_matching_mint_config c + int (unconfigured rows)"
  "num_burns_exceeding_balance (block_counters X i ts bc bal rows c) = num_burns_exceeding_balance c
     + int (exceeding_burns (find_burns X i ts (bc_outputs bc)) (fold mint_effect (bc_mint_txs bc) bal))"
  by (simp_all add: block_counters_def Let_def add_exceeding_burns_def add_unmatched_mints_def unconfigured_def)

lemma account_block:
  assumes ok: "account_ok c bal ms bs" and mints: "list_all2 (mint_row X i ts) (bc_mint_txs bc) ms'"
    and burns: "list_all2 burn_row (find_burns X i ts (bc_outputs bc)) bs'"
  shows "account_ok (block_counters X i ts bc bal ms' c) (block_effect X i ts bc bal) (ms @ ms') (bs @ bs')"
proof -
  let ?outs = "find_burns X i ts (bc_outputs bc)" and ?mid = "fold mint_effect (bc_mint_txs bc) bal"
  note m = minted_rows_stored [OF mints] and b = burned_stored [OF burns]
  have "unat (block_effect X i ts bc bal tok) \<le> minted_rows tok (ms @ ms')
      \<and> minted_rows tok (ms @ ms') \<le> unat (block_effect X i ts bc bal tok) + burned tok (bs @ bs')
      \<and> (num_burns_exceeding_balance c = 0 \<and> exceeding_burns ?outs ?mid = 0 \<longrightarrow>
           minted_rows tok (ms @ ms') = unat (block_effect X i ts bc bal tok) + burned tok (bs @ bs'))"
    if fits: "minted_rows tok (ms @ ms') < 2 ^ 64" for tok
  proof -
    have "minted_rows tok ms < 2 ^ 64" using fits by simp
    note old = account_okD [OF ok this]
    have "unat (?mid tok) = unat (bal tok) + minted tok (bc_mint_txs bc)"
      using fits old(1) by (intro fold_mint_exact) (simp add: m)
    with fold_burn_account [of ?outs ?mid tok] old show ?thesis
      by (auto simp: block_effect_def m b)
  qed
  with ok show ?thesis
    unfolding account_ok_def by (auto simp: block_counters_counts)
qed

definition books_ok :: "database \<Rightarrow> bool" where
  "books_ok d \<longleftrightarrow> (\<exists>n c. chain_at n d \<and> t_counters d = [c]
     \<and> account_ok c (balances_before d (of_nat n)) (t_mint_txs d) (t_burn_tx_outs d))"

lemma books_frames [simp]:
  "books_ok (d\<lparr>t_audited_mints := a\<rparr>) = books_ok d" "books_ok (d\<lparr>t_audited_burns := b\<rparr>) = books_ok d"
  "books_ok (d\<lparr>t_gnosis_safe_deposits := e\<rparr>) = books_ok d" "books_ok (d\<lparr>t_gnosis_safe_withdrawals := f\<rparr>) = books_ok d"
  "books_ok (d\<lparr>t_gnosis_safe_txs := g\<rparr>) = books_ok d"
  by (simp_all add: books_ok_def balances_before_def balances_at_def block_rows_def)

lemma inc_keeps_books: "inc_keeps books_ok"
  unfolding inc_keeps_def keeps_def
proof (intro allI impI)
  fix upd :: "(i64 \<Rightarrow> i64) \<Rightarrow> counters \<Rightarrow> counters" and s :: state
  assume upd: "\<forall>f c. ledger_counts (upd f c) = ledger_counts c" and ok: "books_ok (st_db s)"
  then obtain n c where c: "t_counters (st_db s) = [c]" and n: "chain_at n (st_db s)"
    and account: "account_ok c (balances_before (st_db s) (of_nat n)) (t_mint_txs (st_db s)) (t_burn_tx_outs (st_db s))"
    by (auto simp: books_ok_def)
  let ?s = "snd (impl_inc upd s)"
  have s': "st_db ?s = (st_db s)\<lparr>t_counters := [upd (\<lambda>x. x + 1) c]\<rparr>" using c by simp
  have "keeps (\<lambda>s. chain_at n (st_db s)) (impl_inc upd)"
    using inc_keeps_chain_at [of n] upd by (simp add: inc_keeps_def)
  with n have "chain_at n (st_db ?s)" by (simp add: keeps_def)
  moreover have "account_ok (upd f c) bal ms bs = account_ok c bal ms bs" for f bal ms bs
    using upd [rule_format, of f c] by (simp add: account_ok_def ledger_counts_def)
  ultimately show "books_ok (st_db ?s)"
    using account by (auto simp: books_ok_def s' balances_before_def)
qed

lemma books_empty: "books_ok (empty_database\<lparr>t_counters := [counters_default]\<rparr>)"
  unfolding books_ok_def
proof (intro exI [of _ "0::nat"] exI [of _ counters_default] conjI)
  show "chain_at 0 (empty_database\<lparr>t_counters := [counters_default]\<rparr>)" by (rule chain_at_initial)
qed (simp_all add: account_ok_def balances_before_def empty_database_def counters_default_def)

context ext_laws
begin

lemma sync_block_books:
  assumes books: "books_ok (st_db s)" and ids: "ids_ok mc_id (t_mint_configs (st_db s))"
    and n: "chain_at n (st_db s)" "n < 2 ^ 63"
    and run: "sync_block_with_conn X blk bc ts s = (Ok data, s')"
  shows "books_ok (st_db s')"
proof -
  obtain c where c: "t_counters (st_db s) = [c]" "num_blocks_synced c = int n" and chain: "chain_ok (st_db s)"
    using n(1) by (auto simp: chain_at_def)
  have bound: "num_blocks_synced c < 2 ^ 63"
    using n(2) c(2) by (metis of_nat_less_iff of_nat_numeral of_nat_power)
  let ?i = "blk_index blk"
  note step = sync_block_chain [OF chain c(1) bound ids rowid run] sync_block_account [OF chain c(1) bound ids rowid run]
  have i: "?i = of_nat n"
    using step(1) c(2) by (metis as_u64_as_i64 as_u64_int)
  obtain c' where "t_counters (st_db s') = [c']" "num_blocks_synced c' = int (Suc n)"
    using step(1) c(2) by (metis of_nat_Suc add.commute)
  with step(1) have chain': "chain_at (Suc n) (st_db s')" by (auto simp: chain_at_def)
  have "account_ok c (balances_before (st_db s) ?i) (t_mint_txs (st_db s)) (t_burn_tx_outs (st_db s))"
    using books c n(1) i by (auto simp: books_ok_def chain_at_def)
  moreover from sync_block_OkE [OF chain c(1) bound ids rowid run] obtain d1 bm where
    "list_all2 (mint_row X ?i ts) (bc_mint_txs bc) (sbd_mint_txs data)"
    "list_all2 burn_row (find_burns X ?i ts (bc_outputs bc)) (sbd_burn_tx_outs data)"
    and db: "st_db s' = d1\<lparr>t_mint_txs := t_mint_txs (st_db s) @ sbd_mint_txs data,
        t_burn_tx_outs := t_burn_tx_outs (st_db s) @ sbd_burn_tx_outs data,
        t_counters := [block_counters X ?i ts bc (balances_before (st_db s) ?i) (sbd_mint_txs data) c],
        t_block_audit_data := t_block_audit_data (st_db s) @ [block_audit_data_new ?i],
        t_block_balance := t_block_balance (st_db s) @ balance_rows ?i bm\<rparr>"
    by metis
  ultimately have "account_ok (block_counters X ?i ts bc (balances_before (st_db s) ?i) (sbd_mint_txs data) c)
      (balances_at (st_db s') ?i) (t_mint_txs (st_db s')) (t_burn_tx_outs (st_db s'))"
    using account_block step(2) by simp
  moreover have "balances_before (st_db s') (of_nat (Suc n)) = balances_at (st_db s') ?i"
  proof -
    have "unat (of_nat (Suc n) :: u64) = Suc n" using n(2) by (simp add: unat_of_nat del: of_nat_Suc)
    then have "(of_nat (Suc n) :: u64) \<noteq> 0" by (metis unat_0 old.nat.distinct(2))
    then show ?thesis by (simp add: balances_before_def i)
  qed
  ultimately show ?thesis
    using chain' unfolding books_ok_def
    by (intro exI [of _ "Suc n"] exI [of _ "block_counters X ?i ts bc (balances_before (st_db s) ?i) (sbd_mint_txs data) c"])
      (simp add: db del: of_nat_Suc)
qed

lemma sync_next_books:
  assumes "books_ok (st_db s)" and "db_ok X cfg (st_db s)" and "chain_at n (st_db s)" "n < 2 ^ 63"
    and "sync_next X gcfg bd ts s = (Ok u, s')"
  shows "books_ok (st_db s')"
proof -
  obtain data s1 where sync: "sync_block_with_conn X (bd_block bd) (bd_contents bd) ts s = (Ok data, s1)"
    and audit: "(case gcfg of None \<Rightarrow> ret () | Some config \<Rightarrow> audit_block_data X data config) s1 = (Ok (), s')"
    using assms(5) by (rule sync_next_OkE)
  have "books_ok (st_db s1)"
    by (rule sync_block_books [OF assms(1) _ assms(3,4) sync]) (use assms(2) in \<open>simp add: db_ok_def config_tables_ok_def\<close>)
  from keepsD [OF keeps_audit_option [where I = books_ok] this audit] show ?thesis by (simp add: inc_keeps_books)
qed

end

sublocale audit_system \<subseteq> books: step_invariant sys_init "sys_step X cfg js dec bc ts"
  "\<lambda>s. sys_inv X cfg bc ts s \<and> books_ok (st_db s)" for cfg js bc ts
proof
  show "sys_inv X cfg bc ts s \<and> books_ok (st_db s)" if "sys_init s" for s
    using that books_empty by (simp add: sys_init_inv) (simp add: sys_init_def)
next
  fix s s' assume inv: "sys_inv X cfg bc ts s \<and> books_ok (st_db s)" and step: "sys_step X cfg js dec bc ts s s'"
  have "books_ok (st_db s')"
    using step
  proof (cases rule: sys_stepE)
    case (sync_block bd k r)
    obtain n where n: "n \<le> 2 ^ 63" "chain_at n (st_db s)" and ok: "db_ok X cfg (st_db s)"
      using inv by (auto simp: sys_inv_def)
    show ?thesis
    proof (cases "st_db s' = st_db s")
      case False
      from sync_block_changes [OF n ok sync_block(1,2) _ False] sync_block(3) have "r = Ok ()" "n < 2 ^ 63" by auto
      with sync_next_books [OF _ ok n(2)] sync_block(1) inv show ?thesis by blast
    qed (use inv in simp)
  next
    case (gnosis safe tx r)
    have "keeps (\<lambda>s. books_ok (st_db s)) (conn_transaction (process_transaction X js dec safe tx))"
      by (intro keeps_conn_transaction keeps_process_transaction) (simp_all add: inc_keeps_books)
    from keepsD [OF this _ gnosis(2)] inv show ?thesis by simp
  qed (use inv in simp_all)
  with step_keeps_inv [OF conjunct1 [OF inv] step] show "sys_inv X cfg bc ts s' \<and> books_ok (st_db s')" ..
qed

context audit_system
begin

lemma reachable_books: "sys_init s0 \<Longrightarrow> (sys_step X cfg js dec bc ts)\<^sup>*\<^sup>* s0 s \<Longrightarrow> books_ok (st_db s)"
  using books.reach_inv by blast

end

section \<open>Every reachable state\<close>

text \<open>C9: the books balance in every reachable state: for each token whose mints sum up to less than
  \<open>2 ^ 64\<close>, all stored mints are at most the balance of the last synced block plus all stored
  burns, and exactly that as long as the counter of burns exceeding their balance is zero; and the counter
  of mints without configuration is the number of stored mints without one. None of the three is derived
  from another by the code.\<close>

theorem books_balance:
  assumes "audit_system X dec" and "sys_init s0" and "(sys_step X cfg js dec bc ts)\<^sup>*\<^sup>* s0 s"
  shows "\<exists>c bal. t_counters (st_db s) = [c]
    \<and> last_synced_block_index s = (Ok (if num_blocks_synced c = 0 then None else Some (as_u64 (num_blocks_synced c - 1))), s)
    \<and> (if num_blocks_synced c = 0 then bal = (\<lambda>_. 0)
       else bal = balances_at (st_db s) (as_u64 (num_blocks_synced c - 1)))
    \<and> num_mint_txs_without_matching_mint_config c
        = int (length (filter (\<lambda>m. mt_mint_config_id m = None) (t_mint_txs (st_db s))))
    \<and> (\<forall>tok. minted_rows tok (t_mint_txs (st_db s)) < 2 ^ 64 \<longrightarrow>
        minted_rows tok (t_mint_txs (st_db s)) \<le> unat (bal tok) + burned tok (t_burn_tx_outs (st_db s))
        \<and> (num_burns_exceeding_balance c = 0 \<longrightarrow>
             minted_rows tok (t_mint_txs (st_db s)) = unat (bal tok) + burned tok (t_burn_tx_outs (st_db s))))"
proof -
  obtain n c where n: "chain_at n (st_db s)" and c: "t_counters (st_db s) = [c]"
    and account: "account_ok c (balances_before (st_db s) (of_nat n)) (t_mint_txs (st_db s)) (t_burn_tx_outs (st_db s))"
    using audit_system.reachable_books [OF assms] by (auto simp: books_ok_def)
  obtain m where m: "m \<le> 2 ^ 63" "chain_at m (st_db s)"
    using audit_system.reachable_inv [OF assms] by (auto simp: sys_inv_def)
  have count: "num_blocks_synced c = int n" "m = n" using n m(2) c by (auto simp: chain_at_def)
  let ?bal = "balances_before (st_db s) (of_nat n)"
  have bal: "if n = 0 then ?bal = (\<lambda>_. 0) else ?bal = balances_at (st_db s) (as_u64 (int n - 1))"
  proof (cases n)
    case (Suc k)
    have "unat (of_nat n :: u64) = n" using m count by (simp add: unat_of_nat)
    with Suc have "(of_nat n :: u64) \<noteq> 0" by (metis unat_0 old.nat.distinct(2))
    with Suc show ?thesis by (simp add: balances_before_def)
  qed (simp add: balances_before_def)
  note last = chain_at_last_synced [OF n]
  show ?thesis
    using account bal last
    by (intro exI [of _ c] exI [of _ ?bal]) (auto simp: c count(1) account_ok_def unconfigured_def of_nat_diff)
qed

end
