(* ===== verification/Served_Data.thy ===== *)
theory Served_Data
  imports Accounting Column_Types Grpc_Service Http_Service
begin

text \<open>
  What a client of the gRPC service sees of the running system. The answers of \<open>Grpc_Service\<close> hold for
  every database; in the states the threads of the auditor can reach they report the audit's
  progress.
\<close>

lemma chain_at_audit_data:
  assumes "chain_at n (st_db s)" and "n \<le> 2 ^ 63"
  shows "bad_block_index ` set (t_block_audit_data (st_db s)) = int ` {..<n}"
    and "\<forall>r \<in> set (t_block_audit_data (st_db s)). - (2 ^ 63) \<le> bad_block_index r \<and> bad_block_index r < 2 ^ 63"
proof -
  have rows: "t_block_audit_data (st_db s) = map (\<lambda>k. \<lparr>bad_block_index = int k\<rparr>) [0..<n]"
    using assms(1) by (auto simp: chain_at_def chain_ok_def)
  then show img: "bad_block_index ` set (t_block_audit_data (st_db s)) = int ` {..<n}"
    by (simp add: image_image atLeast0LessThan)
  have "int k < 2 ^ 63" if "k < n" for k
    using that assms(2) by (metis of_nat_less_iff of_nat_numeral of_nat_power order_less_le_trans)
  then show "\<forall>r \<in> set (t_block_audit_data (st_db s)). - (2 ^ 63) \<le> bad_block_index r \<and> bad_block_index r < 2 ^ 63"
    by (auto simp: rows)
qed

lemma as_i64_in_chain:
  assumes "n \<le> 2 ^ 63"
  shows "as_i64 i \<in> int ` {..<n} \<longleftrightarrow> unat i < n"
proof
  assume "as_i64 i \<in> int ` {..<n}"
  then obtain k where "as_i64 i = int k" "k < n" by auto
  then have "i = of_nat k" using as_u64_as_i64 [of i] by (simp add: as_u64_int)
  with \<open>k < n\<close> assms show "unat i < n" by (simp add: unat_of_nat)
next
  assume "unat i < n"
  with assms have "as_i64 i = int (unat i)"
    by (intro as_i64_small) simp
  moreover have "int (unat i) \<in> int ` {..<n}" using \<open>unat i < n\<close> by (intro imageI) simp
  ultimately show "as_i64 i \<in> int ` {..<n}" by (simp only:)
qed

text \<open>C28: in every reachable state the gRPC service reports one and the same number of synced blocks: the call
  for a block answers with its data exactly when its index is below the number, and with \<open>NOT_FOUND\<close> otherwise;
  the call for the last block answers with the one before the number, or \<open>NOT_FOUND\<close> at the start; the counters
  answered are those of the table and carry the number. No call panics or answers \<open>INTERNAL\<close> once it has a
  connection, and none changes the state.\<close>

theorem rpc_reports_progress:
  assumes "audit_system X dec" and "sys_init s0" and "(sys_step X cfg js dec bc ts)\<^sup>*\<^sup>* s0 s"
  shows "\<exists>n \<le> 2 ^ 63. \<exists>c. t_counters (st_db s) = [c] \<and> pc_num_blocks_synced (counters_to_proto c) = of_nat n
    \<and> rpc_handle (ret ()) X RpcGetCounters s = (Ok (GrpcCounters (counters_to_proto c)), s)
    \<and> rpc_handle (ret ()) X RpcGetLastBlockAuditData s =
        (if n = 0 then (Err (RpcStatus NOT_FOUND ''No last synced block index''), s)
         else (Ok (GetLastBlockAuditDataResponse \<lparr>gbad_block_index = of_nat (n - 1)\<rparr>), s))
    \<and> (\<forall>i. rpc_handle (ret ()) X (RpcGetBlockAuditData \<lparr>gbadr_block_index = i\<rparr>) s =
        (if unat i < n then (Ok (GetBlockAuditDataResponse \<lparr>gbad_block_index = i\<rparr>), s)
         else (Err (RpcStatus NOT_FOUND (''Block audit data not found for block index '' @ show_u64 i)), s)))"
proof -
  have "sys_inv X cfg bc ts s" by (rule audit_system.reachable_inv [OF assms])
  then obtain n where n: "n \<le> 2 ^ 63" and chain: "chain_at n (st_db s)" by (auto simp: sys_inv_def)
  then obtain c where c: "t_counters (st_db s) = [c]" "num_blocks_synced c = int n" by (auto simp: chain_at_def)
  note data = chain_at_audit_data [OF chain n]
  have empty: "t_block_audit_data (st_db s) = [] \<longleftrightarrow> n = 0"
    using data(1) by (metis empty_set image_is_empty lessThan_empty_iff bot_nat_def set_empty)
  have last: "Max (int ` {..<n}) = int (n - 1)" if "n \<noteq> 0"
    using that by (intro Max_eqI imageI) auto
  note answers = rpc_answers [OF data(2) c(1), of X]
  have "rpc_handle (ret ()) X (RpcGetBlockAuditData \<lparr>gbadr_block_index = i\<rparr>) s =
        (if unat i < n then (Ok (GetBlockAuditDataResponse \<lparr>gbad_block_index = i\<rparr>), s)
         else (Err (RpcStatus NOT_FOUND (''Block audit data not found for block index '' @ show_u64 i)), s))" for i
    using answers [of i, THEN conjunct1] by (simp add: data(1) as_i64_in_chain [OF n] ret_def split: if_splits)
  moreover have "rpc_handle (ret ()) X RpcGetLastBlockAuditData s =
        (if n = 0 then (Err (RpcStatus NOT_FOUND ''No last synced block index''), s)
         else (Ok (GetLastBlockAuditDataResponse \<lparr>gbad_block_index = of_nat (n - 1)\<rparr>), s))"
    using answers [of 0, THEN conjunct2, THEN conjunct1]
    by (simp add: data(1) empty last ret_def as_u64_def of_nat_diff split: if_splits)
  moreover have "rpc_handle (ret ()) X RpcGetCounters s = (Ok (GrpcCounters (counters_to_proto c)), s)"
    using answers [of 0] by (simp add: ret_def)
  moreover have "pc_num_blocks_synced (counters_to_proto c) = of_nat n"
    by (simp add: counters_to_proto_def impl_get_def c(2) as_u64_int)
  ultimately show ?thesis using n c(1) by blast
qed

section \<open>The HTTP service\<close>

lemma chain_at_block_found:
  assumes "chain_at n (st_db s)" and "n \<le> 2 ^ 63"
  shows "unat i < n \<Longrightarrow> \<exists>b. block_audit_data_get i s = (Ok b, s) \<and> block_audit_data_block_index b = i"
    and "\<not> unat i < n \<Longrightarrow> block_audit_data_get i s = (Err NotFound, s)"
  using block_audit_data_get_found [of i s] block_audit_data_get_absent [of i s]
  by (simp_all add: chain_at_audit_data(1) [OF assms] as_i64_in_chain [OF assms(2)])

text \<open>What the service sends of stored balances.\<close>

lemma balance_of_collect_pairs: "balance_of (collect_map (collect_map ps)) = balance_of (collect_map ps)"
  by (simp add: balance_of_def fun_eq_iff map_of_collect_map map_of_rev_distinct distinct_collect_map)

lemma served_balances:
  assumes "block_audit_data_get i s = (Ok b, s)" and "block_audit_data_block_index b = i"
  shows "\<exists>r. route_get_block_audit_data (ret ()) X i s = (Ok r, s) \<and> badr_block_index r = i
    \<and> balance_of (badr_balances r) = balances_at (st_db s) i"
  using assms
  by (simp add: route_get_block_audit_data_def route_result_def http_get_block_audit_data_def map_err_comp_def
      get_balances_for_block_eq) (simp add: ret_def block_audit_data_response_new_def balance_of_collect_pairs balances_at_def)

lemma chain_at_balances:
  assumes "history_ok X bc ts n d" and "unat i < n"
  shows "balances_at d i = ledger_balances X bc ts (Suc (unat i))"
  using assms(1) [unfolded history_ok_def, rule_format, OF assms(2)] by simp

lemma balances_before_history:
  assumes "history_ok X bc ts n d" and "n \<le> 2 ^ 63"
  shows "balances_before d (of_nat n) = ledger_balances X bc ts n"
proof (cases n)
  case (Suc k)
  have "unat (of_nat n :: u64) = n" using assms(2) by (simp add: unat_of_nat)
  with Suc have "(of_nat n :: u64) \<noteq> 0" by (metis unat_0 old.nat.distinct(2))
  with Suc assms(1) show ?thesis by (simp add: balances_before_def history_ok_def)
qed (simp add: balances_before_def)

text \<open>The sums the ledger balance shows are the totals of the tables.\<close>

lemma as_i64_eq_iff: "i64_ok v \<Longrightarrow> v = as_i64 tok \<longleftrightarrow> as_u64 v = tok"
  by (metis as_i64_as_u64 as_u64_as_i64 i64_ok_def)

lemma shown_totals:
  assumes "columns_ok d"
  shows "(\<Sum>m \<leftarrow> filter (\<lambda>m. mt_token_id m = as_i64 tok) (t_mint_txs d). unat (mint_tx_amount m)) = minted_rows tok (t_mint_txs d)"
    and "(\<Sum>b \<leftarrow> filter (\<lambda>b. bto_token_id b = as_i64 tok) (t_burn_tx_outs d). unat (burn_tx_out_amount b)) = burned tok (t_burn_tx_outs d)"
proof -
  have "filter (\<lambda>m. mt_token_id m = as_i64 tok) (t_mint_txs d) = filter (\<lambda>m. mint_tx_token_id m = tok) (t_mint_txs d)"
    using assms by (intro filter_cong refl) (auto simp: columns_ok_def list_all_iff mint_columns_def mint_tx_token_id_def as_i64_eq_iff)
  then show "(\<Sum>m \<leftarrow> filter (\<lambda>m. mt_token_id m = as_i64 tok) (t_mint_txs d). unat (mint_tx_amount m)) = minted_rows tok (t_mint_txs d)"
    by (simp add: minted_rows_def)
  have "filter (\<lambda>b. bto_token_id b = as_i64 tok) (t_burn_tx_outs d) = filter (\<lambda>b. burn_tx_out_token_id b = tok) (t_burn_tx_outs d)"
    using assms by (intro filter_cong refl) (auto simp: columns_ok_def list_all_iff burn_columns_def burn_tx_out_token_id_def as_i64_eq_iff)
  then show "(\<Sum>b \<leftarrow> filter (\<lambda>b. bto_token_id b = as_i64 tok) (t_burn_tx_outs d). unat (burn_tx_out_amount b)) = burned tok (t_burn_tx_outs d)"
    by (simp add: burned_def)
qed

lemma ledger_balance_books:
  assumes "columns_ok (st_db s)" and "account_ok c bal (t_mint_txs (st_db s)) (t_burn_tx_outs (st_db s))"
    and "num_burns_exceeding_balance c = 0" and "minted_rows tok (t_mint_txs (st_db s)) < 2 ^ 64"
    and "gsc_safes cfg \<noteq> []" and "length (t_mint_txs (st_db s)) < 2 ^ 64" "length (t_burn_tx_outs (st_db s)) < 2 ^ 64"
  shows "\<exists>r total. route_get_ledger_balance (ret ()) X cfg (Some tok) s = (Ok r, s)
    \<and> lbr_burn_balance r = show_nat total \<and> lbr_mint_balance r = show_nat (total + unat (bal tok))"
proof -
  obtain r where "route_get_ledger_balance (ret ()) X cfg (Some tok) s = (Ok r, s)"
    and "lbr_mint_balance r = show_nat (minted_rows tok (t_mint_txs (st_db s)))"
      "lbr_burn_balance r = show_nat (burned tok (t_burn_tx_outs (st_db s)))"
    using ledger_balance_exact [OF assms(6,7), of cfg X tok] assms(5) by (auto simp: shown_totals [OF assms(1)])
  with account_okD(3) [OF assms(2,4,3)] show ?thesis by (auto simp: add.commute)
qed

text \<open>C10: from the ledger to the browser: in every reachable state there is a number of synced blocks such that
  the HTTP service shows, for each block below it, the balances recomputed from the contents of the ledger's
  blocks up to that one, and for no other block anything. And when four conditions hold, the total of mints
  it shows for a token is the total of burns it shows plus the recomputed balance, both as the exact decimal
  numbers: no burn exceeded its balance so far, the mints stored for the token add up to less than
  \<open>2 ^ 64\<close> (balances wrap there), the configuration has at least one safe (the request panics without), and
  the mint table and the burn table have less than \<open>2 ^ 64\<close> rows each.\<close>

theorem http_shows_the_ledger:
  assumes "audit_system X dec" and "sys_init s0" and "(sys_step X cfg js dec bc ts)\<^sup>*\<^sup>* s0 s"
  shows "\<exists>n c. t_counters (st_db s) = [c] \<and> num_blocks_synced c = int n
    \<and> (\<forall>i. if unat i < n then \<exists>r. route_get_block_audit_data (ret ()) X i s = (Ok r, s) \<and> badr_block_index r = i
             \<and> balance_of (badr_balances r) = ledger_balances X bc ts (Suc (unat i))
           else route_get_block_audit_data (ret ()) X i s = (Err ''Not found'', s))
    \<and> (\<forall>tok. num_burns_exceeding_balance c = 0 \<and> minted_rows tok (t_mint_txs (st_db s)) < 2 ^ 64
         \<and> gsc_safes cfg \<noteq> [] \<and> length (t_mint_txs (st_db s)) < 2 ^ 64 \<and> length (t_burn_tx_outs (st_db s)) < 2 ^ 64
         \<longrightarrow> (\<exists>r total. route_get_ledger_balance (ret ()) X cfg (Some tok) s = (Ok r, s)
               \<and> lbr_burn_balance r = show_nat total
               \<and> lbr_mint_balance r = show_nat (total + unat (ledger_balances X bc ts n tok))))"
proof -
  have inv: "sys_inv X cfg bc ts s" by (rule audit_system.reachable_inv [OF assms])
  then obtain n where n: "n \<le> 2 ^ 63" and chain: "chain_at n (st_db s)" and hist: "history_ok X bc ts n (st_db s)"
    by (auto simp: sys_inv_def)
  obtain m c where "chain_at m (st_db s)" and c: "t_counters (st_db s) = [c]"
    and "account_ok c (balances_before (st_db s) (of_nat m)) (t_mint_txs (st_db s)) (t_burn_tx_outs (st_db s))"
    using audit_system.reachable_books [OF assms] by (auto simp: books_ok_def)
  moreover have count: "num_blocks_synced c = int n" using chain c by (auto simp: chain_at_def)
  ultimately have books: "account_ok c (ledger_balances X bc ts n) (t_mint_txs (st_db s)) (t_burn_tx_outs (st_db s))"
    using balances_before_history [OF hist n] by (auto simp: chain_at_def)
  note typed = typing.reach_inv [OF assms(2,3)]
  have "\<exists>r. route_get_block_audit_data (ret ()) X i s = (Ok r, s) \<and> badr_block_index r = i
      \<and> balance_of (badr_balances r) = ledger_balances X bc ts (Suc (unat i))" if "unat i < n" for i
    using chain_at_block_found(1) [OF chain n that] served_balances chain_at_balances [OF hist that] by metis
  moreover have "route_get_block_audit_data (ret ()) X i s = (Err ''Not found'', s)" if "\<not> unat i < n" for i
    using chain_at_block_found(2) [OF chain n that]
    by (simp add: route_get_block_audit_data_def route_result_def http_get_block_audit_data_def map_err_comp_def)
  ultimately show ?thesis
    using ledger_balance_books [OF typed books] c count by (intro exI [of _ n] exI [of _ c]) simp
qed

end
