(* ===== verification/Stored_Rows.thy ===== *)
theory Stored_Rows
  imports Column_Types
begin

text \<open>
  The rows of the safe side, as they are written and read. Addresses, hashes and values are stored as text
  (\<open>src/db/models/sql_types.rs\<close>) and parsed when a row is loaded; the API sends them as text again
  (\<open>src/convert\<close>). Here: what the program stores can always be read back, from the database and from the
  messages, and the output key of a withdrawal is always 32 bytes. It rests on the decoder of the safe service's
  JSON parsing addresses and hashes with \<open>from_str\<close>, as their types declare it.
\<close>

section \<open>Typed transactions\<close>

definition transfer_typed :: "ext \<Rightarrow> ethereum_transfer \<Rightarrow> bool" where
  "transfer_typed X t \<longleftrightarrow> eth_tx_hash_wf (et_tx_hash t) \<and> addr_ok X (et_from t) \<and> addr_ok X (et_to t)
     \<and> (\<forall>a. et_token_addr t = Some a \<longrightarrow> addr_ok X a)"

text \<open>The decoded calls of a multi-signature transaction, one level deep.\<close>

definition calls_of :: "multi_sig_transaction \<Rightarrow> value_decoded list" where
  "calls_of m = (case mst_data_decoded m of None \<Rightarrow> []
     | Some data \<Rightarrow> concat (map (\<lambda>p. case ddp_value_decoded p of None \<Rightarrow> [] | Some vs \<Rightarrow> vs) (dd_parameters data)))"

fun gnosis_transaction_typed :: "ext \<Rightarrow> gnosis_transaction \<Rightarrow> bool" where
  "gnosis_transaction_typed X (Ethereum tx) = list_all (transfer_typed X) (etx_transfers tx)"
| "gnosis_transaction_typed X (MultiSig m) = (eth_tx_hash_wf (mst_tx_hash m) \<and> addr_ok X (mst_safe m)
     \<and> list_all (transfer_typed X) (mst_transfer_data m) \<and> list_all (\<lambda>v. addr_ok X (vd_to v)) (calls_of m))"
| "gnosis_transaction_typed X (Module v) = True"

locale typed_decoder = ext_laws +
  fixes dec :: "json \<Rightarrow> (string, gnosis_transaction) res"
  assumes dec_typed: "dec v = Ok t \<Longrightarrow> gnosis_transaction_typed X t"

lemma typed_wf: "gnosis_transaction_typed X t \<Longrightarrow> gnosis_transaction_wf t"
  by (cases t) (simp_all add: list_all_iff transfer_typed_def)

sublocale typed_decoder \<subseteq> audit_system
  by unfold_locales (rule typed_wf, rule dec_typed)

section \<open>Rows that can be read back\<close>

definition deposit_text :: "ext \<Rightarrow> gnosis_safe_deposit \<Rightarrow> bool" where
  "deposit_text X x \<longleftrightarrow> addr_ok X (gsd_safe_addr x) \<and> addr_ok X (gsd_token_addr x) \<and> addr_ok X (gsd_from_addr x)"

definition withdrawal_text :: "ext \<Rightarrow> gnosis_safe_withdrawal \<Rightarrow> bool" where
  "withdrawal_text X w \<longleftrightarrow> eth_tx_hash_wf (gsw_eth_tx_hash w) \<and> addr_ok X (gsw_safe_addr w)
     \<and> addr_ok X (gsw_token_addr w) \<and> addr_ok X (gsw_to_addr w)
     \<and> (\<exists>key. length key = 32 \<and> gsw_mc_tx_out_public_key_hex w = hex_encode X key)"

definition texts_ok :: "ext \<Rightarrow> database \<Rightarrow> bool" where
  "texts_ok X d \<longleftrightarrow> list_all (deposit_text X) (t_gnosis_safe_deposits d)
     \<and> list_all (withdrawal_text X) (t_gnosis_safe_withdrawals d)"

lemma texts_ok_frames [simp]:
  "texts_ok X (d\<lparr>t_counters := a\<rparr>) = texts_ok X d" "texts_ok X (d\<lparr>t_audited_mints := b\<rparr>) = texts_ok X d"
  "texts_ok X (d\<lparr>t_audited_burns := c\<rparr>) = texts_ok X d" "texts_ok X (d\<lparr>t_gnosis_safe_txs := e\<rparr>) = texts_ok X d"
  "texts_ok X (d\<lparr>t_mint_configs := f\<rparr>) = texts_ok X d" "texts_ok X (d\<lparr>t_mint_config_txs := g\<rparr>) = texts_ok X d"
  "texts_ok X (d\<lparr>t_mint_txs := h\<rparr>) = texts_ok X d" "texts_ok X (d\<lparr>t_burn_tx_outs := i\<rparr>) = texts_ok X d"
  "texts_ok X (d\<lparr>t_block_audit_data := j\<rparr>) = texts_ok X d" "texts_ok X (d\<lparr>t_block_balance := k\<rparr>) = texts_ok X d"
  by (simp_all add: texts_ok_def)

lemma text_inserts:
  "deposit_text X x \<Longrightarrow> keeps (\<lambda>s. texts_ok X (st_db s)) (insert_into_gnosis_safe_deposits X x)"
  "withdrawal_text X w \<Longrightarrow> keeps (\<lambda>s. texts_ok X (st_db s)) (insert_into_gnosis_safe_withdrawals X w)"
  unfolding insert_into_gnosis_safe_deposits_def insert_into_gnosis_safe_withdrawals_def
  by (rule keeps_sql_insert_row [where I = "texts_ok X"], simp add: texts_ok_def deposit_text_def withdrawal_text_def)+

text \<open>The key that is cut from the call's data.\<close>

lemma parse_aux_data_length: "parse_aux_data X tok v = Ok key \<Longrightarrow> length key = 32"
  by (auto simp: parse_aux_data_def parse_err_def Let_def rbind_eq_Ok map_err_eq_Ok split: if_splits)

lemma parse_multi_send_call: "parse_multi_send safe m = Ok (v0, v1, tok, ps) \<Longrightarrow> v0 \<in> set (calls_of m)"
  by (auto simp: parse_multi_send_def parse_err_def rbind_eq_Ok index_res_def calls_of_def length_Suc_conv
      split: if_splits intro!: nth_mem)

lemma parsed_texts:
  "transfer_typed X t \<Longrightarrow> parse_deposit X safe tx t = Ok x \<Longrightarrow> deposit_text X x"
  "gnosis_transaction_typed X (MultiSig m) \<Longrightarrow> parse_withdrawal_with_pub_key_multi_sig_tx X safe m = Ok w \<Longrightarrow>
    withdrawal_text X w"
  unfolding parse_deposit_def parse_withdrawal_with_pub_key_multi_sig_tx_def
  by (auto simp: rbind_eq_Ok gnosis_safe_deposit_new_def gnosis_safe_withdrawal_new_def deposit_text_def
      withdrawal_text_def transfer_typed_def list_all_iff index_res_def split: prod.splits if_splits
      dest: parse_multi_send_call parse_aux_data_length)

context typed_decoder
begin

lemma texts_process_transaction: "keeps (\<lambda>s. texts_ok X (st_db s)) (process_transaction X js dec safe tx)"
proof (rule keeps_process_rows)
  fix etx t x assume "dec (rgt_raw tx) = Ok (Ethereum etx)" "t \<in> set (etx_transfers etx)" "parse_deposit X safe etx t = Ok x"
  with dec_typed [of "rgt_raw tx"] show "keeps (\<lambda>s. texts_ok X (st_db s)) (insert_into_gnosis_safe_deposits X x)"
    by (auto simp: list_all_iff intro!: text_inserts parsed_texts)
next
  fix m w assume "dec (rgt_raw tx) = Ok (MultiSig m)" "parse_withdrawal_with_pub_key_multi_sig_tx X safe m = Ok w"
  with dec_typed [of "rgt_raw tx"] show "keeps (\<lambda>s. texts_ok X (st_db s)) (insert_into_gnosis_safe_withdrawals X w)"
    by (intro text_inserts parsed_texts) auto
qed simp_all

end

lemma texts_sync_next: "keeps (\<lambda>s. texts_ok X (st_db s)) (sync_next X gcfg bd t)"
  unfolding sync_next_def
  by (intro keeps_conn_transaction keeps_bnd keeps_sync_block keeps_frame_inserts keeps_audit_option) simp_all

section \<open>Every reachable state\<close>

sublocale typed_decoder \<subseteq> texts: step_invariant sys_init "sys_step X cfg js dec bc ts" "\<lambda>s. texts_ok X (st_db s)"
  for cfg js bc ts
proof
  show "texts_ok X (st_db s)" if "sys_init s" for s
    using that by (simp add: sys_init_def) (simp add: texts_ok_def empty_database_def)
  show "texts_ok X (st_db s')" if "texts_ok X (st_db s)" and "sys_step X cfg js dec bc ts s s'" for s s'
    using that(2)
  proof (cases rule: sys_stepE)
    case (sync_block bd k r)
    from keepsD [OF texts_sync_next that(1) sync_block(1)] show ?thesis .
  next
    case (gnosis safe tx r)
    from keepsD [OF keeps_conn_transaction [where I = "texts_ok X", OF texts_process_transaction] that(1) gnosis(2)]
    show ?thesis .
  qed (use that(1) in simp_all)
qed

context typed_decoder
begin

lemma reachable_rows_ok:
  assumes "sys_init s0" and "(sys_step X cfg js dec bc ts)\<^sup>*\<^sup>* s0 s"
  shows "x \<in> set (t_gnosis_safe_deposits (st_db s)) \<Longrightarrow> deposit_row_ok X x"
    and "w \<in> set (t_gnosis_safe_withdrawals (st_db s)) \<Longrightarrow> withdrawal_row_ok X w \<and> withdrawal_text X w"
  using texts.reach_inv [OF assms] typing.reach_inv [OF assms] sys.reach_inv [OF assms]
  by (auto simp: texts_ok_def columns_ok_def list_all_iff sys_inv_def db_ok_def mint_side_ok_def mint_tables_ok_def
      burn_tables_ok_def ids_ok_def deposit_wf_def deposit_row_ok_def deposit_text_def deposit_columns_def
      withdrawal_row_ok_def withdrawal_text_def withdrawal_columns_def)

end

lemma column_roundtrips:
  "sql_eth_tx_value_from_sql (sql_eth_tx_value_to_sql v) = Ok v"
  "addr_ok X a \<Longrightarrow> sql_eth_addr_from_sql X (sql_eth_addr_to_sql a) = Ok a"
  "hex_codec (hex_encode X) (hex_decode X) \<Longrightarrow> eth_tx_hash_wf h \<Longrightarrow>
     sql_eth_tx_hash_from_sql X (sql_eth_tx_hash_to_sql X h) = Ok h"
  by (simp_all add: sql_eth_tx_value_from_sql_def sql_eth_tx_value_to_sql_def eth_tx_value_roundtrip
      sql_eth_addr_from_sql_def sql_eth_addr_to_sql_def addr_ok_def sql_eth_tx_hash_from_sql_def
      sql_eth_tx_hash_to_sql_def eth_tx_hash_from_str_display)

lemma withdrawal_key_decodes:
  "hex_codec (hex_encode X) (hex_decode X) \<Longrightarrow> withdrawal_text X w \<Longrightarrow>
     \<exists>key. length key = 32 \<and> hex_decode X (gsw_mc_tx_out_public_key_hex w) = Ok key"
  by (auto simp: withdrawal_text_def hex_codec.dec_enc)

text \<open>C30: what is stored can be read back: in every reachable state, each deposit and each withdrawal survives the
  text columns of the database (loading parses the hash, the value and the addresses that were printed) and the
  conversion to its API message and back, and the output key of a withdrawal decodes to 32 bytes. Loading a
  row of these tables never fails.\<close>

theorem stored_rows_round_trip:
  assumes "typed_decoder X dec" and "sys_init s0" and "(sys_step X cfg js dec bc ts)\<^sup>*\<^sup>* s0 s"
    and "proto_values nanos_opt nanos compressed"
  shows "(\<forall>x \<in> set (t_gnosis_safe_deposits (st_db s)).
      sql_eth_tx_hash_from_sql X (sql_eth_tx_hash_to_sql X (gsd_eth_tx_hash x)) = Ok (gsd_eth_tx_hash x)
      \<and> sql_eth_tx_value_from_sql (sql_eth_tx_value_to_sql (gsd_eth_tx_value x)) = Ok (gsd_eth_tx_value x)
      \<and> (\<forall>a \<in> {gsd_safe_addr x, gsd_token_addr x, gsd_from_addr x}. sql_eth_addr_from_sql X (sql_eth_addr_to_sql a) = Ok a)
      \<and> (\<forall>p. deposit_to_proto X nanos_opt x = Ok p \<longrightarrow> deposit_from_proto X nanos p = Ok x))
    \<and> (\<forall>w \<in> set (t_gnosis_safe_withdrawals (st_db s)).
      sql_eth_tx_hash_from_sql X (sql_eth_tx_hash_to_sql X (gsw_eth_tx_hash w)) = Ok (gsw_eth_tx_hash w)
      \<and> sql_eth_tx_value_from_sql (sql_eth_tx_value_to_sql (gsw_eth_tx_value w)) = Ok (gsw_eth_tx_value w)
      \<and> (\<forall>a \<in> {gsw_safe_addr w, gsw_token_addr w, gsw_to_addr w}. sql_eth_addr_from_sql X (sql_eth_addr_to_sql a) = Ok a)
      \<and> (\<exists>key. length key = 32 \<and> hex_decode X (gsw_mc_tx_out_public_key_hex w) = Ok key)
      \<and> (\<forall>p. withdrawal_to_proto X compressed nanos_opt w = Ok p \<longrightarrow> withdrawal_from_proto X nanos p = Ok w))"
    (is "(\<forall>x \<in> _. ?D x) \<and> (\<forall>w \<in> _. ?W w)")
proof (intro conjI [OF ballI ballI])
  have hex: "hex_codec (hex_encode X) (hex_decode X)"
    using assms(1) by (simp add: typed_decoder_def ext_laws_def)
  note ok = typed_decoder.reachable_rows_ok [OF assms(1-3)]
  show "?D x" if "x \<in> set (t_gnosis_safe_deposits (st_db s))" for x
    using ok(1) [OF that] column_roundtrips deposit_proto_roundtrip [OF hex assms(4) ok(1) [OF that]] hex
    by (simp add: deposit_row_ok_def)
  show "?W w" if "w \<in> set (t_gnosis_safe_withdrawals (st_db s))" for w
    using ok(2) [OF that] column_roundtrips withdrawal_proto_roundtrip [OF hex assms(4)] withdrawal_key_decodes [OF hex] hex
    by (simp add: withdrawal_row_ok_def)
qed

end
