(* ===== verification/Ledger_Tables.thy ===== *)
theory Ledger_Tables
  imports Audit_Complete
begin

text \<open>
  The mint and burn tables as a function of the ledger. In every reachable state they list the mints and
  burns of the synced blocks, in ledger order, each once and with the ledger's values. Together with the
  exactness of the audit this makes its outcome a function of what was synced: how the transactions of
  the ledger thread and of the safe threads interleaved does not matter.
\<close>

section \<open>The tables follow the ledger\<close>

definition mints_upto :: "(nat \<Rightarrow> block_contents) \<Rightarrow> (nat \<Rightarrow> datetime option) \<Rightarrow> nat
    \<Rightarrow> (u64 \<times> datetime option \<times> core_mint_tx) list" where
  "mints_upto bc ts n = concat (map (\<lambda>k. map (\<lambda>tx. (of_nat k, ts k, tx)) (bc_mint_txs (bc k))) [0..<n])"

definition burns_upto :: "ext \<Rightarrow> (nat \<Rightarrow> block_contents) \<Rightarrow> (nat \<Rightarrow> datetime option) \<Rightarrow> nat \<Rightarrow> burn_tx_out list" where
  "burns_upto X bc ts n = concat (map (\<lambda>k. find_burns X (of_nat k) (ts k) (bc_outputs (bc k))) [0..<n])"

definition lists_ledger :: "ext \<Rightarrow> (nat \<Rightarrow> block_contents) \<Rightarrow> (nat \<Rightarrow> datetime option) \<Rightarrow> nat \<Rightarrow> database \<Rightarrow> bool" where
  "lists_ledger X bc ts n d \<longleftrightarrow>
     list_all2 (\<lambda>(i, t, tx). mint_row X i t tx) (mints_upto bc ts n) (t_mint_txs d)
     \<and> list_all2 burn_row (burns_upto X bc ts n) (t_burn_tx_outs d)"

lemma lists_ledger_frames [simp]:
  "lists_ledger X bc ts n (d\<lparr>t_counters := a\<rparr>) = lists_ledger X bc ts n d"
  "lists_ledger X bc ts n (d\<lparr>t_audited_mints := b\<rparr>) = lists_ledger X bc ts n d"
  "lists_ledger X bc ts n (d\<lparr>t_audited_burns := c\<rparr>) = lists_ledger X bc ts n d"
  "lists_ledger X bc ts n (d\<lparr>t_gnosis_safe_txs := e\<rparr>) = lists_ledger X bc ts n d"
  "lists_ledger X bc ts n (d\<lparr>t_gnosis_safe_deposits := f\<rparr>) = lists_ledger X bc ts n d"
  "lists_ledger X bc ts n (d\<lparr>t_gnosis_safe_withdrawals := g\<rparr>) = lists_ledger X bc ts n d"
  by (simp_all add: lists_ledger_def)

lemma inc_keeps_lists_ledger: "inc_keeps (\<lambda>d. chain_at n d \<and> lists_ledger X bc ts n d)"
  by (rule inc_keeps_conj [OF inc_keeps_chain_at inc_keeps_frame]) simp

context ext_laws
begin

lemma sync_next_lists_ledger:
  assumes "chain_at n (st_db s)" "n < 2 ^ 63" and ok: "db_ok X cfg (st_db s)" and old: "lists_ledger X bc ts n (st_db s)"
    and run: "sync_next X gcfg bd (ts n) s = (Ok u, s')" and bd: "bd_contents bd = bc n"
  shows "chain_at (Suc n) (st_db s') \<and> lists_ledger X bc ts (Suc n) (st_db s')"
proof -
  have cfgs: "config_tables_ok X (st_db s)" using ok by (simp add: db_ok_def)
  note chain' = sync_next_chain [OF ext_laws_axioms assms(1,2) cfgs run]
  obtain data s1 where sync: "sync_block_with_conn X (bd_block bd) (bd_contents bd) (ts n) s = (Ok data, s1)"
    and audit: "(case gcfg of None \<Rightarrow> ret () | Some config \<Rightarrow> audit_block_data X data config) s1 = (Ok (), s')"
    using run by (rule sync_next_OkE)
  obtain c where c: "t_counters (st_db s) = [c]" "num_blocks_synced c = int n" and chain: "chain_ok (st_db s)"
    using assms(1) by (auto simp: chain_at_def)
  have bound: "num_blocks_synced c < 2 ^ 63"
    using assms(2) c(2) by (metis of_nat_less_iff of_nat_numeral of_nat_power)
  have ids: "ids_ok mc_id (t_mint_configs (st_db s))" using cfgs by (simp add: config_tables_ok_def)
  have i: "blk_index (bd_block bd) = of_nat n" using chain' by blast
  from sync_block_OkE [OF chain c(1) bound ids rowid sync] obtain d1 bm k where
    rows: "list_all2 (mint_row X (of_nat n) (ts n)) (bc_mint_txs (bc n)) (sbd_mint_txs data)"
      "list_all2 burn_row (find_burns X (of_nat n) (ts n) (bc_outputs (bc n))) (sbd_burn_tx_outs data)"
    and "st_db s1 = d1\<lparr>t_mint_txs := t_mint_txs (st_db s) @ sbd_mint_txs data,
        t_burn_tx_outs := t_burn_tx_outs (st_db s) @ sbd_burn_tx_outs data, t_counters := [k],
        t_block_audit_data := t_block_audit_data (st_db s) @ [block_audit_data_new (of_nat n)],
        t_block_balance := t_block_balance (st_db s) @ balance_rows (of_nat n) bm\<rparr>"
    unfolding i bd by metis
  then have "t_mint_txs (st_db s1) = t_mint_txs (st_db s) @ sbd_mint_txs data"
    "t_burn_tx_outs (st_db s1) = t_burn_tx_outs (st_db s) @ sbd_burn_tx_outs data"
    by simp_all
  with old rows have "lists_ledger X bc ts (Suc n) (st_db s1)"
    by (simp add: lists_ledger_def mints_upto_def burns_upto_def list_all2_appendI list_all2_map1)
  from keepsD [OF keeps_audit_option [where I = "lists_ledger X bc ts (Suc n)"] this audit]
  have "lists_ledger X bc ts (Suc n) (st_db s')" by simp
  with chain' show ?thesis by blast
qed

end

sublocale audit_system \<subseteq> ledger: step_invariant sys_init "sys_step X cfg js dec bc ts"
  "\<lambda>s. sys_inv X cfg bc ts s \<and> (\<exists>n. chain_at n (st_db s) \<and> lists_ledger X bc ts n (st_db s))" for cfg js bc ts
proof
  fix s assume init: "sys_init s"
  then have "chain_at 0 (st_db s) \<and> lists_ledger X bc ts 0 (st_db s)"
    using chain_at_initial
    by (simp add: sys_init_def lists_ledger_def mints_upto_def burns_upto_def) (simp add: empty_database_def)
  with sys_init_inv [OF init] show "sys_inv X cfg bc ts s \<and> (\<exists>n. chain_at n (st_db s) \<and> lists_ledger X bc ts n (st_db s))"
    by blast
next
  fix s s' assume inv: "sys_inv X cfg bc ts s \<and> (\<exists>n. chain_at n (st_db s) \<and> lists_ledger X bc ts n (st_db s))"
    and step: "sys_step X cfg js dec bc ts s s'"
  then obtain n where n: "chain_at n (st_db s)" and rows: "lists_ledger X bc ts n (st_db s)" by blast
  obtain m where "m \<le> 2 ^ 63" "chain_at m (st_db s)" and ok: "db_ok X cfg (st_db s)"
    using inv by (auto simp: sys_inv_def)
  with n have bound: "n \<le> 2 ^ 63" by (auto simp: chain_at_def)
  have "\<exists>n. chain_at n (st_db s') \<and> lists_ledger X bc ts n (st_db s')"
    using step
  proof (cases rule: sys_stepE)
    case (sync_block bd k r)
    show ?thesis
    proof (cases "st_db s' = st_db s")
      case False
      from sync_block_changes [OF bound n ok sync_block(1,2) _ False] sync_block(3)
      have "r = Ok ()" and k: "k = n" "n < 2 ^ 63" by auto
      with sync_next_lists_ledger [OF n k(2) ok rows] sync_block(1,4) show ?thesis by blast
    qed (use n rows in auto)
  next
    case (gnosis safe tx r)
    have "keeps (\<lambda>s. chain_at n (st_db s) \<and> lists_ledger X bc ts n (st_db s))
        (conn_transaction (process_transaction X js dec safe tx))"
      by (intro keeps_conn_transaction [where I = "\<lambda>d. chain_at n d \<and> lists_ledger X bc ts n d"]
          keeps_process_transaction inc_keeps_lists_ledger) simp_all
    from keepsD [OF this _ gnosis(2)] n rows show ?thesis by blast
  qed (use n rows in auto)
  with step_keeps_inv [OF conjunct1 [OF inv] step]
  show "sys_inv X cfg bc ts s' \<and> (\<exists>n. chain_at n (st_db s') \<and> lists_ledger X bc ts n (st_db s'))" ..
qed

context audit_system
begin

lemma reachable_lists_ledger:
  "sys_init s0 \<Longrightarrow> (sys_step X cfg js dec bc ts)\<^sup>*\<^sup>* s0 s \<Longrightarrow> \<exists>n. chain_at n (st_db s) \<and> lists_ledger X bc ts n (st_db s)"
  using ledger.reach_inv by blast

end

text \<open>C7: the tables list the ledger: in every reachable state, with \<open>n\<close> the counter of synced blocks, the mint
  table holds exactly the mints of the first \<open>n\<close> blocks and the burn table exactly their burns (the outputs that
  the auditor can read as burns), in ledger order, each stored once with the values of the ledger. No
  interleaving with the safe threads and no failed attempt at a block drops or repeats one.\<close>

theorem tables_list_the_ledger:
  assumes "audit_system X dec" and "sys_init s0" and "(sys_step X cfg js dec bc ts)\<^sup>*\<^sup>* s0 s"
  shows "\<exists>n c. t_counters (st_db s) = [c] \<and> num_blocks_synced c = int n
    \<and> list_all2 (\<lambda>(i, t, tx) m. mint_row X i t tx m)
        (concat (map (\<lambda>k. map (\<lambda>tx. (of_nat k, ts k, tx)) (bc_mint_txs (bc k))) [0..<n])) (t_mint_txs (st_db s))
    \<and> list_all2 burn_row (concat (map (\<lambda>k. find_burns X (of_nat k) (ts k) (bc_outputs (bc k))) [0..<n]))
        (t_burn_tx_outs (st_db s))"
  using audit_system.reachable_lists_ledger [OF assms]
  by (auto simp: chain_at_def lists_ledger_def mints_upto_def burns_upto_def)

section \<open>The schedule does not matter\<close>

text \<open>What a row says, apart from the ids that the database chose for it, and the pairs that are matched.\<close>

definition mint_content :: "mint_tx \<Rightarrow> mint_tx" where
  "mint_content m = m\<lparr>mt_id := None, mt_mint_config_id := None\<rparr>"

definition burn_content :: "burn_tx_out \<Rightarrow> burn_tx_out" where
  "burn_content b = b\<lparr>bto_id := None\<rparr>"

definition deposit_content :: "gnosis_safe_deposit \<Rightarrow> gnosis_safe_deposit" where
  "deposit_content x = x\<lparr>gsd_id := None\<rparr>"

definition withdrawal_content :: "gnosis_safe_withdrawal \<Rightarrow> gnosis_safe_withdrawal" where
  "withdrawal_content w = w\<lparr>gsw_id := None\<rparr>"

definition linked_ids :: "(i32 \<rightharpoonup> i32) \<Rightarrow> i32 option \<Rightarrow> i32 option \<Rightarrow> bool" where
  "linked_ids m i j \<longleftrightarrow> j \<noteq> None \<and> Option.bind i m = j"

lemma linked_ids_iff: "\<exists>i j. a = Some i \<and> b = Some j \<and> (m i = Some j \<longleftrightarrow> A) \<Longrightarrow> linked_ids m a b \<longleftrightarrow> A"
  by (auto simp: linked_ids_def)

definition matched_mints :: "database \<Rightarrow> (mint_tx \<times> gnosis_safe_deposit) set" where
  "matched_mints d = set [(mint_content m, deposit_content x). m \<leftarrow> t_mint_txs d, x \<leftarrow> t_gnosis_safe_deposits d,
     linked_ids (mint_links d) (mt_id m) (gsd_id x)]"

definition matched_burns :: "database \<Rightarrow> (burn_tx_out \<times> gnosis_safe_withdrawal) set" where
  "matched_burns d = set [(burn_content b, withdrawal_content w). b \<leftarrow> t_burn_tx_outs d, w \<leftarrow> t_gnosis_safe_withdrawals d,
     linked_ids (burn_links d) (bto_id b) (gsw_id w)]"

lemma agree_content:
  "mint_deposit_agree cfg (mint_content m) (deposit_content x) = mint_deposit_agree cfg m x"
  "burn_withdrawal_agree cfg (burn_content b) (withdrawal_content w) = burn_withdrawal_agree cfg b w"
  by (simp_all add: mint_deposit_agree_def mint_content_def deposit_content_def mint_tx_amount_def mint_tx_token_id_def
      deposit_amount_def burn_withdrawal_agree_def burn_content_def withdrawal_content_def burn_tx_out_amount_def
      burn_tx_out_token_id_def withdrawal_amount_def)

lemma matched_pairs:
  assumes "\<And>l g. l \<in> set ls \<Longrightarrow> g \<in> set gs \<Longrightarrow> P l g \<longleftrightarrow> agree (cl l) (cg g)"
  shows "set [(cl l, cg g). l \<leftarrow> ls, g \<leftarrow> gs, P l g] = {(a, b). a \<in> cl ` set ls \<and> b \<in> cg ` set gs \<and> agree a b}"
  using assms by auto

text \<open>The ledger determines the contents.\<close>

lemma list_all2_functional:
  assumes "list_all2 R xs ys" and "list_all2 R xs zs" and "\<And>x y z. R x y \<Longrightarrow> R x z \<Longrightarrow> f y = f z"
  shows "map f ys = map f zs"
  using assms(1,2)
proof (induction xs arbitrary: ys zs)
  case (Cons x xs)
  from Cons.prems obtain y ys' z zs' where "ys = y # ys'" "R x y" "list_all2 R xs ys'"
    and "zs = z # zs'" "R x z" "list_all2 R xs zs'"
    by (auto simp: list_all2_Cons1)
  with Cons.IH [of ys' zs'] assms(3) [of x y z] show ?case by simp
qed simp

lemma mint_row_content: "mint_row X i t tx m \<Longrightarrow> mint_row X i t tx m' \<Longrightarrow> mint_content m = mint_content m'"
  by (cases m; cases m') (auto simp: mint_row_def mint_content_def from_core_mint_tx_def rbind_eq_Ok)

lemma burn_row_content: "burn_row b r \<Longrightarrow> burn_row b r' \<Longrightarrow> burn_content r = burn_content r'"
  by (auto simp: burn_row_def burn_content_def)

lemma ledger_contents:
  assumes "lists_ledger X bc ts n d" and "lists_ledger X bc ts n d'"
  shows "mint_content ` set (t_mint_txs d) = mint_content ` set (t_mint_txs d')"
    and "burn_content ` set (t_burn_tx_outs d) = burn_content ` set (t_burn_tx_outs d')"
proof -
  have "map mint_content (t_mint_txs d) = map mint_content (t_mint_txs d')"
    by (rule list_all2_functional [OF conjunct1 [OF assms(1) [unfolded lists_ledger_def]]
          conjunct1 [OF assms(2) [unfolded lists_ledger_def]]]) (auto intro: mint_row_content)
  then show "mint_content ` set (t_mint_txs d) = mint_content ` set (t_mint_txs d')" by (metis set_map)
  have "map burn_content (t_burn_tx_outs d) = map burn_content (t_burn_tx_outs d')"
    by (rule list_all2_functional [OF conjunct2 [OF assms(1) [unfolded lists_ledger_def]]
          conjunct2 [OF assms(2) [unfolded lists_ledger_def]]]) (rule burn_row_content)
  then show "burn_content ` set (t_burn_tx_outs d) = burn_content ` set (t_burn_tx_outs d')" by (metis set_map)
qed

context complete_audit
begin

lemma matched_is_agreed:
  assumes "sys_init s0" and "(sys_step X cfg js dec bc ts)\<^sup>*\<^sup>* s0 s"
  shows "matched_mints (st_db s) = {(m, x). m \<in> mint_content ` set (t_mint_txs (st_db s))
      \<and> x \<in> deposit_content ` set (t_gnosis_safe_deposits (st_db s)) \<and> mint_deposit_agree cfg m x}"
    and "distinct (map gsw_mc_tx_out_public_key_hex (t_gnosis_safe_withdrawals (st_db s))) \<Longrightarrow>
      matched_burns (st_db s) = {(b, w). b \<in> burn_content ` set (t_burn_tx_outs (st_db s))
      \<and> w \<in> withdrawal_content ` set (t_gnosis_safe_withdrawals (st_db s)) \<and> burn_withdrawal_agree cfg b w}"
  unfolding matched_mints_def matched_burns_def
proof -
  show "set [(mint_content m, deposit_content x). m \<leftarrow> t_mint_txs (st_db s), x \<leftarrow> t_gnosis_safe_deposits (st_db s),
      linked_ids (mint_links (st_db s)) (mt_id m) (gsd_id x)] = {(m, x). m \<in> mint_content ` set (t_mint_txs (st_db s))
      \<and> x \<in> deposit_content ` set (t_gnosis_safe_deposits (st_db s)) \<and> mint_deposit_agree cfg m x}"
    by (rule matched_pairs [where agree = "mint_deposit_agree cfg"], unfold agree_content, rule linked_ids_iff,
        rule links_iff_agree(1) [OF assms])
  assume keys: "distinct (map gsw_mc_tx_out_public_key_hex (t_gnosis_safe_withdrawals (st_db s)))"
  show "set [(burn_content b, withdrawal_content w). b \<leftarrow> t_burn_tx_outs (st_db s), w \<leftarrow> t_gnosis_safe_withdrawals (st_db s),
      linked_ids (burn_links (st_db s)) (bto_id b) (gsw_id w)] = {(b, w). b \<in> burn_content ` set (t_burn_tx_outs (st_db s))
      \<and> w \<in> withdrawal_content ` set (t_gnosis_safe_withdrawals (st_db s)) \<and> burn_withdrawal_agree cfg b w}"
    by (rule matched_pairs [where agree = "burn_withdrawal_agree cfg"], unfold agree_content, rule linked_ids_iff,
        rule links_iff_agree(2) [OF assms], assumption, assumption, rule only_key_distinct [OF keys])
qed

end

text \<open>C8: the outcome of the audit does not depend on the schedule, given that no two configured safes have the
  same address: two runs of the program on the same ledger and with the same configuration that
  have synced equally many blocks and recorded the same deposits have matched the same mints with the same
  deposits, however their transactions interleaved and whatever ids the rows have; and likewise for the burns
  and withdrawals, when moreover no two recorded withdrawals of a run name the same output key. (With two
  safes of one address the deposit side uses its thread's safe and the mint side the first one found.)\<close>

theorem schedule_irrelevant:
  assumes "audit_system X dec" and "safes_distinct cfg"
    and "sys_init s0" and "(sys_step X cfg js dec bc ts)\<^sup>*\<^sup>* s0 s"
    and "sys_init s1" and "(sys_step X cfg js dec bc ts)\<^sup>*\<^sup>* s1 s'"
    and "map num_blocks_synced (t_counters (st_db s)) = map num_blocks_synced (t_counters (st_db s'))"
  shows "(deposit_content ` set (t_gnosis_safe_deposits (st_db s)) = deposit_content ` set (t_gnosis_safe_deposits (st_db s'))
      \<longrightarrow> matched_mints (st_db s) = matched_mints (st_db s'))
    \<and> (withdrawal_content ` set (t_gnosis_safe_withdrawals (st_db s))
          = withdrawal_content ` set (t_gnosis_safe_withdrawals (st_db s'))
        \<and> distinct (map gsw_mc_tx_out_public_key_hex (t_gnosis_safe_withdrawals (st_db s)))
        \<and> distinct (map gsw_mc_tx_out_public_key_hex (t_gnosis_safe_withdrawals (st_db s')))
      \<longrightarrow> matched_burns (st_db s) = matched_burns (st_db s'))"
proof -
  have "complete_audit X cfg dec"
    using assms(1,2) by (simp add: complete_audit_def audit_run_def audit_run_axioms_def audit_system_def)
  note exact = complete_audit.matched_is_agreed [OF this assms(3,4)] complete_audit.matched_is_agreed [OF this assms(5,6)]
  obtain n n' where n: "chain_at n (st_db s)" "lists_ledger X bc ts n (st_db s)"
    and n': "chain_at n' (st_db s')" "lists_ledger X bc ts n' (st_db s')"
    using audit_system.reachable_lists_ledger [OF assms(1,3,4)] audit_system.reachable_lists_ledger [OF assms(1,5,6)]
    by blast
  have "n' = n" using n(1) n'(1) assms(7) by (auto simp: chain_at_def)
  with ledger_contents [OF n(2)] n'(2) exact show ?thesis by simp
qed

end
