(* ===== verification/Examples_Service.thy ===== *)
theory Examples_Service
  imports Examples Commands Column_Types Served_Data Stored_Rows Ledger_Tables
begin

text \<open>
  Concrete instances for the conversions, the services, the fetcher, the threads and the commands, in the
  scenario of \<open>Examples\<close>.
\<close>

section \<open>Messages\<close>

lemma demo_address_ok: "addr_ok ext_ref (demo_address b)"
  by (simp add: addr_ok_def demo_address_def eth_addr_from_str_Ok starts_with_def hex_ref.dec_enc ETH_ADDR_LEN_def
      del: hex_encode_ref.simps)

definition demo_deposit_row :: gnosis_safe_deposit where
  "demo_deposit_row = gnosis_safe_deposit_new ext_ref (Some 1) demo_hash 0 (EthTxValue 5000000000000) 10
     (demo_address 0x5A) (demo_address 0xA0) (demo_address 0xC0) 5"

definition demo_withdrawal_row :: gnosis_safe_withdrawal where
  "demo_withdrawal_row = gnosis_safe_withdrawal_new (Some 1) demo_hash 0 (EthTxValue 3000000000000) 11
     (demo_address 0x5A) (demo_address 0xA0) (demo_address 0xC0) 3 (hex_encode_ref (replicate 32 9))"

lemma deposit_proto_roundtrip_example:
  "\<exists>p. deposit_to_proto ext_ref nanos_opt_ref demo_deposit_row = Ok p
     \<and> deposit_from_proto ext_ref id p = Ok demo_deposit_row"
proof -
  have row: "deposit_row_ok ext_ref demo_deposit_row"
    by (simp add: deposit_row_ok_def demo_deposit_row_def gnosis_safe_deposit_new_def demo_address_ok i64_ok_def
        as_i64_def eth_tx_hash_wf_def demo_hash_def ETH_TX_HASH_LEN_def)
  have "\<exists>p. deposit_to_proto ext_ref nanos_opt_ref demo_deposit_row = Ok p"
    by (simp add: deposit_to_proto_def execution_date_nanos_def deposit_getter_defs demo_deposit_row_def
        gnosis_safe_deposit_new_def nanos_opt_ref_def res_unwrap_def)
  with deposit_proto_roundtrip [OF ref.hex proto_ref.proto_values_axioms row] show ?thesis by blast
qed

lemma withdrawal_proto_roundtrip_example:
  "\<exists>p. withdrawal_to_proto ext_ref compressed_ref nanos_opt_ref demo_withdrawal_row = Ok p
     \<and> withdrawal_from_proto ext_ref id p = Ok demo_withdrawal_row"
proof -
  have row: "withdrawal_row_ok ext_ref demo_withdrawal_row"
    by (auto simp: withdrawal_row_ok_def demo_withdrawal_row_def gnosis_safe_withdrawal_new_def demo_address_ok
        i64_ok_def as_i64_def eth_tx_hash_wf_def demo_hash_def ETH_TX_HASH_LEN_def)
  have "\<exists>p. withdrawal_to_proto ext_ref compressed_ref nanos_opt_ref demo_withdrawal_row = Ok p"
    by (simp add: withdrawal_to_proto_def execution_date_nanos_def withdrawal_getter_defs demo_withdrawal_row_def
        gnosis_safe_withdrawal_new_def nanos_opt_ref_def res_unwrap_def withdrawal_mc_tx_out_public_key_def
        hex_ref.dec_enc compressed_ref_def del: hex_encode_ref.simps)
  with withdrawal_proto_roundtrip [OF ref.hex proto_ref.proto_values_axioms row] show ?thesis by blast
qed

section \<open>Services\<close>

definition demo_synced :: state where
  "demo_synced = initial_state\<lparr>st_db := demo_db\<lparr>t_block_audit_data := [\<lparr>bad_block_index = 0\<rparr>]\<rparr>\<rparr>"

lemma rpc_answers_example:
  "get_block_audit_data_impl (ret ()) ext_ref \<lparr>gbadr_block_index = 0\<rparr> demo_synced = (Ok \<lparr>gbad_block_index = 0\<rparr>, demo_synced)
   \<and> get_last_block_audit_data_impl (ret ()) ext_ref demo_synced = (Ok \<lparr>gbad_block_index = 0\<rparr>, demo_synced)"
  using rpc_answers [of demo_synced counters_default ext_ref 0]
  by (simp add: demo_synced_def as_i64_def as_u64_def)

lemma ledger_balance_exact_example:
  "\<exists>r. route_get_ledger_balance (ret ()) ext_ref demo_config (Some 1) demo_state = (Ok r, demo_state)
     \<and> lbr_mint_balance r = ''5'' \<and> lbr_burn_balance r = ''3''"
proof -
  have "(\<Sum>m \<leftarrow> filter (\<lambda>m. mt_token_id m = as_i64 1) [demo_mint]. unat (mint_tx_amount m)) = 5"
    "(\<Sum>b \<leftarrow> filter (\<lambda>b. bto_token_id b = as_i64 1) [demo_burn]. unat (burn_tx_out_amount b)) = 3"
    by (simp_all add: small_as_i64 demo_mint_def demo_burn_def mint_tx_amount_def burn_tx_out_amount_def small_as_u64)
  moreover have "show_nat 5 = ''5''" "show_nat 3 = ''3''" by code_simp+
  ultimately show ?thesis
    using ledger_balance_exact [of demo_state demo_config ext_ref 1] by simp
qed

theorem mint_lists_complete_witness:
  "\<exists>ams us ms. http_get_audited_mints (ret ()) None None demo_state = (Ok ams, demo_state)
     \<and> http_get_unaudited_gnosis_deposits (ret ()) demo_state = (Ok us, demo_state)
     \<and> http_get_unaudited_mints (ret ()) demo_state = (Ok ms, demo_state)
     \<and> mset (map amr_deposit ams) + mset (map ugdr_deposit us) = {#demo_deposit#}
     \<and> mset (map amr_mint ams) + mset ms = {#demo_mint#}"
  using mint_lists_complete [of demo_config demo_state] demo_mint_tables by simp blast

theorem burn_lists_complete_witness:
  "\<exists>abs us ws. http_get_audited_burns (ret ()) ext_ref None None demo_state = (Ok abs, demo_state)
     \<and> http_get_unaudited_burn_tx_outs (ret ()) ext_ref demo_state = (Ok us, demo_state)
     \<and> http_get_unaudited_withdrawals (ret ()) demo_state = (Ok ws, demo_state)
     \<and> mset (map abr_withdrawal abs) + mset ws = {#demo_withdrawal#}
     \<and> mset (map abr_burn abs) + mset (map ubr_burn us) = {#demo_burn#}"
  using burn_lists_complete [of demo_config demo_state ext_ref] demo_burn_tables by simp blast

lemma audited_mint_pages_example:
  "\<exists>pages all. http_get_audited_mints (ret ()) None None demo_state = (Ok all, demo_state)
     \<and> concat (map pages [0..<2]) = take 20 all"
proof -
  obtain all where all: "http_get_audited_mints (ret ()) None None demo_state = (Ok all, demo_state)"
    by (simp add: http_get_audited_mints_def list_with_mint_and_deposit_def ret_def)
  from audited_mint_pages [of 10 2, OF _ _ all] all show ?thesis by auto
qed

theorem mint_info_fails_without_config_witness:
  "\<not> (\<exists>r s'. route_get_mint_info_for_block (ret ()) ext_ref 0 demo_state = (Ok r, s'))"
  using mint_info_fails_without_config [of demo_mint demo_state 0 ext_ref]
  by (simp add: demo_mint_def as_i64_def)

section \<open>The fetcher\<close>

text \<open>A service with two pages, each with a transaction, that link to each other, and nothing else.\<close>

definition demo_url :: url where
  "demo_url = ''http://localhost/'' @ all_transactions_path (demo_address 0x5A)"

definition demo_page :: "url option \<Rightarrow> http_response" where
  "demo_page next_url = \<lparr>hr_status = 200, hr_status_text = ''200 OK'',
     hr_json = Ok \<lparr>atr_count = 1, atr_next = next_url, atr_previous = None, atr_results = [rgt_raw demo_raw]\<rparr>\<rparr>"

definition demo_endless :: "nat \<Rightarrow> url \<Rightarrow> (string, http_response) res" where
  "demo_endless n url =
     (if url = demo_url then Ok (demo_page (Some ''http://localhost/2''))
      else if url = ''http://localhost/2'' then Ok (demo_page (Some demo_url))
      else Err ''connection refused'')"

theorem fetch_endless_witness:
  "get_all_transaction_data (\<lambda>base path. Ok (base @ path)) demo_endless \<lparr>gsf_base_url = ''http://localhost/''\<rparr>
     (demo_address 0x5A) = None"
proof (rule fetch_endless [where U = "{demo_url, ''http://localhost/2''}" and url = demo_url])
  show "\<exists>p v. get_all_transaction_data_from_url (demo_endless n) u = Ok p \<and> atr_next p = Some v
      \<and> v \<in> {demo_url, ''http://localhost/2''}" if "u \<in> {demo_url, ''http://localhost/2''}" for n u
    using that by (auto simp: demo_endless_def demo_page_def get_all_transaction_data_from_url_def)
qed (simp_all add: demo_url_def)

section \<open>The running program\<close>

lemma demo_decode_wf: "demo_decode_tx demo_transfer v = Ok t \<Longrightarrow> gnosis_transaction_wf t"
  by (auto simp: demo_decode_tx_def demo_etx_def demo_transfer_def demo_hash_def eth_tx_hash_wf_def ETH_TX_HASH_LEN_def)

interpretation demo: audit_system ext_ref "demo_decode_tx demo_transfer"
  by unfold_locales (rule demo_decode_wf)

lemma demo_gnosis_step:
  "\<exists>s'. sys_step ext_ref demo_config (\<lambda>_. ''text'') (demo_decode_tx demo_transfer) bc ts demo_start s'
     \<and> t_gnosis_safe_deposits (st_db s') = [demo_deposit]"
proof -
  obtain s' where "process_transaction ext_ref (\<lambda>_. ''text'') (demo_decode_tx demo_transfer) demo_safe demo_raw demo_start
      = (Ok (), s')" and s': "t_gnosis_safe_deposits (st_db s') = [demo_deposit]"
    using demo_process by blast
  then have "conn_transaction (process_transaction ext_ref (\<lambda>_. ''text'') (demo_decode_tx demo_transfer) demo_safe
      demo_raw) demo_start = (Ok (), s')"
    by (simp add: conn_transaction_def)
  then have "sys_step ext_ref demo_config (\<lambda>_. ''text'') (demo_decode_tx demo_transfer) bc ts demo_start s'"
    by (intro sys_step.gnosis_step) simp_all
  with s' show ?thesis by blast
qed

lemma demo_sys_init: "sys_init demo_start"
  by (simp add: sys_init_def demo_start_def)

definition demo_step :: "state \<Rightarrow> state \<Rightarrow> bool" where
  "demo_step = sys_step ext_ref demo_config (\<lambda>_. ''text'') (demo_decode_tx demo_transfer) (\<lambda>_. demo_contents) (\<lambda>_. None)"

lemma demo_one_step: "\<exists>s'. demo_step demo_start s' \<and> t_gnosis_safe_deposits (st_db s') = [demo_deposit]"
  unfolding demo_step_def by (rule demo_gnosis_step)

theorem reachable_states_safe_witness:
  "\<exists>s. demo_step\<^sup>*\<^sup>* demo_start s \<and> t_gnosis_safe_deposits (st_db s) = [demo_deposit]
     \<and> mint_tables_ok demo_config (st_db s)"
proof -
  obtain s where step: "demo_step demo_start s" and s: "t_gnosis_safe_deposits (st_db s) = [demo_deposit]"
    using demo_one_step by blast
  then have star: "demo_step\<^sup>*\<^sup>* demo_start s" by blast
  from reachable_states_safe [OF demo.audit_system_axioms demo_sys_init star [unfolded demo_step_def]] star s
  show ?thesis by blast
qed

theorem system_implements_spec_witness:
  "\<exists>s. demo_step demo_start s \<and> t_gnosis_safe_deposits (st_db s) = [demo_deposit]
     \<and> spec_step (abs_audit (st_db demo_start)) (abs_audit (st_db s))"
proof -
  obtain s where step: "demo_step demo_start s" and s: "t_gnosis_safe_deposits (st_db s) = [demo_deposit]"
    using demo_one_step by blast
  from system_implements_spec [OF demo.audit_system_axioms sys_init_inv [OF demo_sys_init] step [unfolded demo_step_def]]
    step s
  show ?thesis by blast
qed

theorem rpc_reports_progress_witness:
  "\<exists>s c. demo_step\<^sup>*\<^sup>* demo_start s \<and> t_gnosis_safe_deposits (st_db s) = [demo_deposit]
     \<and> rpc_handle (ret ()) ext_ref RpcGetCounters s = (Ok (GrpcCounters (counters_to_proto c)), s)"
proof -
  obtain s where step: "demo_step demo_start s" and s: "t_gnosis_safe_deposits (st_db s) = [demo_deposit]"
    using demo_one_step by blast
  then have star: "demo_step\<^sup>*\<^sup>* demo_start s" by blast
  from rpc_reports_progress [OF demo.audit_system_axioms demo_sys_init star [unfolded demo_step_def]] star s
  show ?thesis by blast
qed

section \<open>A mint, its deposit and the match\<close>

lemma demo_safes_distinct: "safes_distinct demo_config"
  by (simp add: safes_distinct_def)

interpretation demo_audit: complete_audit ext_ref demo_config "demo_decode_tx demo_transfer"
  by unfold_locales (rule demo_safes_distinct)

definition demo_block_data :: block_data where
  "demo_block_data = \<lparr>bd_block = demo_block, bd_contents = demo_contents\<rparr>"

text \<open>A step that stores the block: one mint.\<close>

lemma demo_block_index: "blk_index (bd_block demo_block_data) = of_nat 0"
  by (simp add: demo_block_data_def demo_block_def)

lemma demo_sync_step:
  assumes inv: "sys_inv ext_ref demo_config (\<lambda>_. demo_contents) (\<lambda>_. None) s" and fresh: "demo_fresh (st_db s)"
  shows "\<exists>s' m. demo_step s s' \<and> mint_row ext_ref 0 None demo_core_mint m \<and> t_mint_txs (st_db s') = [m]
     \<and> t_gnosis_safe_txs (st_db s') = t_gnosis_safe_txs (st_db s)
     \<and> t_gnosis_safe_deposits (st_db s') = t_gnosis_safe_deposits (st_db s)"
proof -
  obtain data s1 where sync: "sync_block_with_conn ext_ref demo_block demo_contents None s = (Ok data, s1)"
    using demo_block_run_any [OF fresh] by blast
  have "fst (sync_next ext_ref (Some demo_config) demo_block_data None s) = Ok ()"
    using sync_next_like_sync_block [OF ref.ext_laws_axioms inv demo_block_index] sync
    by (simp add: demo_block_data_def)
  then obtain s2 where stored: "sync_next ext_ref (Some demo_config) demo_block_data None s = (Ok (), s2)"
    by (metis prod.collapse)
  then have step: "demo_step s s2"
    unfolding demo_step_def
    by (intro sys_step.sync_block_step [OF _ demo_block_index]) (simp_all add: demo_block_data_def)
  from stored sync have audit: "audit_block_data ext_ref data demo_config s1 = (Ok (), s2)"
    by (auto simp: demo_block_data_def elim: sync_next_OkE)
  obtain k where k: "t_counters (st_db s) = [k]" "num_blocks_synced k < 2 ^ 63"
    using demo_fresh_counters [OF fresh] by auto
  have tables: "chain_ok (st_db s)" "ids_ok mc_id (t_mint_configs (st_db s))" "t_mint_txs (st_db s) = []"
    using fresh by (simp_all add: demo_fresh_def chain_at_def ids_ok_def)
  obtain m where m: "mint_row ext_ref 0 None demo_core_mint m" "t_mint_txs (st_db s1) = [m]"
    and safe: "t_gnosis_safe_txs (st_db s1) = t_gnosis_safe_txs (st_db s)"
      "t_gnosis_safe_deposits (st_db s1) = t_gnosis_safe_deposits (st_db s)"
  proof (rule sync_block_OkE [OF tables(1) k tables(2) ref.rowid sync])
    fix d1 bm
    assume rows: "list_all2 (mint_row ext_ref (blk_index demo_block) None) (bc_mint_txs demo_contents) (sbd_mint_txs data)"
      and d1: "outside_configs d1 = outside_configs (st_db s)"
      and s1: "st_db s1 = d1\<lparr>t_mint_txs := t_mint_txs (st_db s) @ sbd_mint_txs data,
        t_burn_tx_outs := t_burn_tx_outs (st_db s) @ sbd_burn_tx_outs data,
        t_counters := [block_counters ext_ref (blk_index demo_block) None demo_contents
          (balances_before (st_db s) (blk_index demo_block)) (sbd_mint_txs data) k],
        t_block_audit_data := t_block_audit_data (st_db s) @ [block_audit_data_new (blk_index demo_block)],
        t_block_balance := t_block_balance (st_db s) @ balance_rows (blk_index demo_block) bm\<rparr>"
    have "t_gnosis_safe_txs d1 = t_gnosis_safe_txs (st_db s)" "t_gnosis_safe_deposits d1 = t_gnosis_safe_deposits (st_db s)"
      using d1 by (cases d1; cases "st_db s"; simp add: outside_configs_def)+
    moreover obtain m where "mint_row ext_ref 0 None demo_core_mint m" "sbd_mint_txs data = [m]"
      using rows by (auto simp: demo_block_def demo_contents_def list_all2_Cons1)
    ultimately show thesis using s1 tables(3) by (intro that [of m]) simp_all
  qed
  have "keeps (\<lambda>u. t_mint_txs (st_db u) = [m] \<and> t_gnosis_safe_txs (st_db u) = t_gnosis_safe_txs (st_db s)
      \<and> t_gnosis_safe_deposits (st_db u) = t_gnosis_safe_deposits (st_db s)) (audit_block_data ext_ref data demo_config)"
    by (rule keeps_audit_block_data) simp_all
  from keepsD [OF this _ audit] m safe step show ?thesis by auto
qed

lemma demo_mint_agrees: "mint_row ext_ref 0 None demo_core_mint m \<Longrightarrow> mint_deposit_agree demo_config m demo_deposit"
proof -
  assume "mint_row ext_ref 0 None demo_core_mint m"
  then have "mt_nonce_hex m = gsd_expected_mc_mint_tx_nonce_hex demo_deposit" "mint_tx_amount m = 5" "mint_tx_token_id m = 1"
    by (auto simp: mint_row_def demo_core_mint_def demo_nonce_def demo_deposit_def gnosis_safe_deposit_new_def
        mint_tx_amount_def mint_tx_token_id_def dest!: from_core_mint_tx_values)
  then show ?thesis
    using demo_token_found
    by (simp add: mint_deposit_agree_def deposit_amount_def demo_deposit_def gnosis_safe_deposit_new_def small_as_u64)
      (simp add: demo_token_def)
qed

text \<open>A step that stores the deposit.\<close>

lemma demo_deposit_step:
  assumes inv: "sys_inv ext_ref demo_config (\<lambda>_. demo_contents) (\<lambda>_. None) s"
    and empty: "t_gnosis_safe_txs (st_db s) = []" "t_gnosis_safe_deposits (st_db s) = []"
  shows "\<exists>s'. demo_step s s' \<and> t_gnosis_safe_deposits (st_db s') = [demo_deposit]
     \<and> t_mint_txs (st_db s') = t_mint_txs (st_db s) \<and> (demo_fresh (st_db s) \<longrightarrow> demo_fresh (st_db s'))"
proof -
  let ?run = "conn_transaction (process_transaction ext_ref (\<lambda>_. ''text'') (demo_decode_tx demo_transfer) demo_safe demo_raw)"
  have "ids_ok mt_id (t_mint_txs (st_db s))"
    using inv by (simp add: sys_inv_def db_ok_def mint_side_ok_def mint_tables_ok_def)
  from demo_process_any [OF empty this] obtain s' where run: "?run s = (Ok (), s')"
    and s': "t_gnosis_safe_deposits (st_db s') = [demo_deposit]" "t_mint_txs (st_db s') = t_mint_txs (st_db s)"
    by (auto simp: conn_transaction_def)
  have "demo_step s s'"
    unfolding demo_step_def by (rule sys_step.gnosis_step [OF _ run]) simp
  moreover have "keeps (\<lambda>s. demo_fresh (st_db s)) ?run"
    unfolding demo_fresh_def
    by (intro keeps_conn_transaction [where I = "\<lambda>d. chain_at 0 d \<and> _ d"] keeps_process_transaction
        inc_keeps_conj [OF inc_keeps_chain_at inc_keeps_frame]) simp_all
  from keepsD [OF this _ run] have "demo_fresh (st_db s) \<longrightarrow> demo_fresh (st_db s')" by blast
  ultimately show ?thesis using s' by blast
qed

lemma demo_start_inv: "sys_inv ext_ref demo_config (\<lambda>_. demo_contents) (\<lambda>_. None) demo_start"
  by (rule sys_init_inv [OF demo_sys_init])

lemma demo_step_inv:
  "demo_step s s' \<Longrightarrow> sys_inv ext_ref demo_config (\<lambda>_. demo_contents) (\<lambda>_. None) s \<Longrightarrow>
     sys_inv ext_ref demo_config (\<lambda>_. demo_contents) (\<lambda>_. None) s'"
  unfolding demo_step_def using demo.step_keeps_inv by blast

lemma demo_start_empty: "t_gnosis_safe_txs (st_db demo_start) = []" "t_gnosis_safe_deposits (st_db demo_start) = []"
  by (simp_all add: demo_start_def empty_database_def)

text \<open>The two schedules: the mint before its deposit, and the deposit before its mint.\<close>

lemma demo_mint_first:
  "\<exists>s s' m. demo_step demo_start s \<and> t_gnosis_safe_deposits (st_db s) = [] \<and> demo_step s s' \<and> t_mint_txs (st_db s') = [m]
     \<and> t_gnosis_safe_deposits (st_db s') = [demo_deposit] \<and> mint_deposit_agree demo_config m demo_deposit"
proof -
  obtain s m where step: "demo_step demo_start s" and m: "mint_row ext_ref 0 None demo_core_mint m" "t_mint_txs (st_db s) = [m]"
    and safe: "t_gnosis_safe_txs (st_db s) = []" "t_gnosis_safe_deposits (st_db s) = []"
    using demo_sync_step [OF demo_start_inv demo_start_fresh] demo_start_empty by auto
  from demo_deposit_step [OF demo_step_inv [OF step demo_start_inv] safe] step m safe demo_mint_agrees show ?thesis
    by metis
qed

lemma demo_deposit_first:
  "\<exists>s s' m. demo_step demo_start s \<and> t_mint_txs (st_db s) = [] \<and> demo_step s s' \<and> t_mint_txs (st_db s') = [m]
     \<and> t_gnosis_safe_deposits (st_db s') = [demo_deposit]"
proof -
  obtain s where step: "demo_step demo_start s" and s: "t_gnosis_safe_deposits (st_db s) = [demo_deposit]"
    and fresh: "demo_fresh (st_db s)"
    using demo_deposit_step [OF demo_start_inv demo_start_empty] demo_start_fresh by blast
  have "t_mint_txs (st_db s) = []" using fresh by (simp add: demo_fresh_def)
  with demo_sync_step [OF demo_step_inv [OF step demo_start_inv] fresh] step s show ?thesis by metis
qed

lemma demo_two_steps:
  "\<exists>s m. demo_step\<^sup>*\<^sup>* demo_start s \<and> t_mint_txs (st_db s) = [m] \<and> t_gnosis_safe_deposits (st_db s) = [demo_deposit]
     \<and> mint_deposit_agree demo_config m demo_deposit"
  using demo_mint_first by (meson converse_rtranclp_into_rtranclp r_into_rtranclp)

theorem audit_exact_witness:
  "\<exists>s m i j. demo_step\<^sup>*\<^sup>* demo_start s \<and> t_mint_txs (st_db s) = [m] \<and> t_gnosis_safe_deposits (st_db s) = [demo_deposit]
     \<and> mt_id m = Some i \<and> gsd_id demo_deposit = Some j \<and> mint_links (st_db s) i = Some j"
proof -
  obtain s m where star: "demo_step\<^sup>*\<^sup>* demo_start s" and m: "t_mint_txs (st_db s) = [m]"
    and x: "t_gnosis_safe_deposits (st_db s) = [demo_deposit]" and "mint_deposit_agree demo_config m demo_deposit"
    using demo_two_steps by blast
  with audit_exact [OF demo.audit_system_axioms demo_safes_distinct demo_sys_init star [unfolded demo_step_def]]
  show ?thesis by auto
qed

lemma demo_transfer_typed: "transfer_typed ext_ref demo_transfer"
  by (simp add: transfer_typed_def demo_transfer_def demo_address_ok eth_tx_hash_wf_def demo_hash_def ETH_TX_HASH_LEN_def)

interpretation demo_typed: typed_decoder ext_ref "demo_decode_tx demo_transfer"
  by unfold_locales (auto simp: demo_decode_tx_def demo_etx_def demo_transfer_typed)

theorem stored_rows_round_trip_witness:
  "\<exists>s p. demo_step\<^sup>*\<^sup>* demo_start s \<and> t_gnosis_safe_deposits (st_db s) = [demo_deposit]
     \<and> sql_eth_addr_from_sql ext_ref (sql_eth_addr_to_sql (gsd_token_addr demo_deposit)) = Ok (gsd_token_addr demo_deposit)
     \<and> deposit_to_proto ext_ref nanos_opt_ref demo_deposit = Ok p \<and> deposit_from_proto ext_ref id p = Ok demo_deposit"
proof -
  obtain s m where star: "demo_step\<^sup>*\<^sup>* demo_start s" and x: "t_gnosis_safe_deposits (st_db s) = [demo_deposit]"
    using demo_two_steps by blast
  obtain p where p: "deposit_to_proto ext_ref nanos_opt_ref demo_deposit = Ok p"
    by (simp add: deposit_to_proto_def execution_date_nanos_def deposit_getter_defs demo_deposit_def
        gnosis_safe_deposit_new_def nanos_opt_ref_def res_unwrap_def)
  from stored_rows_round_trip [OF demo_typed.typed_decoder_axioms demo_sys_init star [unfolded demo_step_def]
      proto_ref.proto_values_axioms] star x p
  show ?thesis by auto
qed

text \<open>Each block has one mint, so one mint is one block.\<close>

lemma demo_one_block:
  assumes "demo_step\<^sup>*\<^sup>* demo_start s" and "t_mint_txs (st_db s) = [m]"
  shows "map num_blocks_synced (t_counters (st_db s)) = [1]"
proof -
  obtain n where n: "chain_at n (st_db s)" and rows: "lists_ledger ext_ref (\<lambda>_. demo_contents) (\<lambda>_. None) n (st_db s)"
    using demo.reachable_lists_ledger [OF demo_sys_init assms(1) [unfolded demo_step_def]] by blast
  have "length (mints_upto (\<lambda>_. demo_contents) (\<lambda>_. None) n) = n"
    by (simp add: mints_upto_def demo_contents_def length_concat comp_def sum_list_triv)
  with rows assms(2) have "n = 1" by (auto simp: lists_ledger_def dest!: list_all2_lengthD)
  with n show ?thesis by (auto simp: chain_at_def)
qed

theorem tables_list_the_ledger_witness:
  "\<exists>s m c. demo_step\<^sup>*\<^sup>* demo_start s \<and> t_mint_txs (st_db s) = [m] \<and> t_counters (st_db s) = [c]
     \<and> num_blocks_synced c = 1 \<and> mint_row ext_ref 0 None demo_core_mint m"
proof -
  obtain s m where star: "demo_step\<^sup>*\<^sup>* demo_start s" and m: "t_mint_txs (st_db s) = [m]"
    using demo_two_steps by blast
  from tables_list_the_ledger [OF demo.audit_system_axioms demo_sys_init star [unfolded demo_step_def]]
  obtain n c where c: "t_counters (st_db s) = [c]" "num_blocks_synced c = int n"
    and rows: "list_all2 (\<lambda>(i, t, tx). mint_row ext_ref i t tx)
        (concat (map (\<lambda>k. map (\<lambda>tx. (of_nat k, None, tx)) (bc_mint_txs demo_contents)) [0..<n])) [m]"
    using m by auto
  have "length (concat (map (\<lambda>k. map (\<lambda>tx. (of_nat k :: u64, None :: datetime option, tx)) (bc_mint_txs demo_contents)) [0..<n])) = n"
    by (simp add: demo_contents_def length_concat comp_def sum_list_triv)
  with list_all2_lengthD [OF rows] have "n = 1" by simp
  with rows c star m show ?thesis by (auto simp: demo_contents_def)
qed

text \<open>Both schedules match the same pair.\<close>

theorem schedule_irrelevant_witness:
  "\<exists>s1 s s1' s'. demo_step demo_start s1 \<and> t_gnosis_safe_deposits (st_db s1) = [] \<and> demo_step s1 s
     \<and> demo_step demo_start s1' \<and> t_mint_txs (st_db s1') = [] \<and> demo_step s1' s'
     \<and> matched_mints (st_db s) = matched_mints (st_db s') \<and> matched_mints (st_db s) \<noteq> {}"
proof -
  obtain s1 s m where run: "demo_step demo_start s1" "t_gnosis_safe_deposits (st_db s1) = []" "demo_step s1 s"
    and s: "t_mint_txs (st_db s) = [m]" "t_gnosis_safe_deposits (st_db s) = [demo_deposit]"
    and agree: "mint_deposit_agree demo_config m demo_deposit"
    using demo_mint_first by blast
  obtain s1' s' m' where run': "demo_step demo_start s1'" "t_mint_txs (st_db s1') = []" "demo_step s1' s'"
    and s': "t_mint_txs (st_db s') = [m']" "t_gnosis_safe_deposits (st_db s') = [demo_deposit]"
    using demo_deposit_first by blast
  have star: "demo_step\<^sup>*\<^sup>* demo_start s" "demo_step\<^sup>*\<^sup>* demo_start s'"
    using run run' by (meson converse_rtranclp_into_rtranclp r_into_rtranclp)+
  note reached = demo_sys_init star(1) [unfolded demo_step_def] demo_sys_init star(2) [unfolded demo_step_def]
  from schedule_irrelevant [OF demo.audit_system_axioms demo_safes_distinct reached]
    demo_one_block [OF star(1) s(1)] demo_one_block [OF star(2) s'(1)]
  have "matched_mints (st_db s) = matched_mints (st_db s')" using s s' by simp
  moreover have "matched_mints (st_db s) \<noteq> {}"
    using demo_audit.matched_is_agreed(1) [OF reached(1,2)] s agree by (auto simp: agree_content)
  ultimately show ?thesis using run run' by blast
qed

theorem books_balance_witness:
  "\<exists>s m c. demo_step\<^sup>*\<^sup>* demo_start s \<and> t_mint_txs (st_db s) = [m] \<and> t_counters (st_db s) = [c]
     \<and> num_mint_txs_without_matching_mint_config c = (if mt_mint_config_id m = None then 1 else 0)"
proof -
  obtain s m where star: "demo_step\<^sup>*\<^sup>* demo_start s" and m: "t_mint_txs (st_db s) = [m]"
    using demo_two_steps by blast
  from books_balance [OF demo.audit_system_axioms demo_sys_init star [unfolded demo_step_def]] obtain c where
    "t_counters (st_db s) = [c]" and "num_mint_txs_without_matching_mint_config c
      = int (length (filter (\<lambda>m. mt_mint_config_id m = None) (t_mint_txs (st_db s))))"
    by blast
  with star m show ?thesis by (intro exI [of _ s] exI [of _ m] exI [of _ c]) simp
qed

theorem http_shows_the_ledger_witness:
  "\<exists>s m c n. demo_step\<^sup>*\<^sup>* demo_start s \<and> t_mint_txs (st_db s) = [m]
     \<and> t_counters (st_db s) = [c] \<and> num_blocks_synced c = int n
     \<and> (\<forall>i. if unat i < n then \<exists>r. route_get_block_audit_data (ret ()) ext_ref i s = (Ok r, s) \<and> badr_block_index r = i
              \<and> balance_of (badr_balances r) = ledger_balances ext_ref (\<lambda>_. demo_contents) (\<lambda>_. None) (Suc (unat i))
            else route_get_block_audit_data (ret ()) ext_ref i s = (Err ''Not found'', s))"
proof -
  obtain s m where star: "demo_step\<^sup>*\<^sup>* demo_start s" and m: "t_mint_txs (st_db s) = [m]"
    using demo_two_steps by blast
  from http_shows_the_ledger [OF demo.audit_system_axioms demo_sys_init star [unfolded demo_step_def]] star m
  show ?thesis by blast
qed

theorem audit_never_blocks_witness:
  "fst (sync_next ext_ref (Some demo_config) demo_block_data None demo_start) = Ok ()"
proof -
  obtain data s1 where sync: "sync_block_with_conn ext_ref demo_block demo_contents None demo_start = (Ok data, s1)"
    using demo_block_run by blast
  show ?thesis
    using audit_never_blocks [OF demo.audit_system_axioms demo_sys_init rtranclp.rtrancl_refl demo_block_index] sync
    by (simp add: demo_block_data_def)
qed

section \<open>Threads and commands\<close>

theorem http_requests_read_only_witness:
  "snd (http_handle (ret ()) ext_ref demo_config (GetAuditedMints None (Some 10)) demo_state) = demo_state"
  by (rule http_requests_read_only) (simp add: ret_def)

lemma demo_serves: "ledger_serves demo_ledger demo_watcher (\<lambda>_. demo_contents) (\<lambda>_. None)"
  by (auto simp: ledger_serves_def demo_ledger_def demo_no_timestamp demo_block_def split: if_splits)

theorem threads_take_steps_witness:
  "\<exists>r s'. sync_loop (ret ()) ext_ref (Some demo_config) (\<lambda>_. demo_ledger) demo_watcher demo_start = Some (r, s')
     \<and> sys_inv ext_ref demo_config (\<lambda>_. demo_contents) (\<lambda>_. None) s'"
proof -
  have "ledger_has demo_ledger demo_watcher 1 (\<lambda>_. demo_contents) (\<lambda>_. None)"
    by (simp add: ledger_has_def demo_ledger_def demo_no_timestamp)
  from loop_from_returns [OF ref.ext_laws_axioms this _ demo_start_ok(1,2,3), of "Some demo_config" 0]
  obtain r s' where run: "sync_loop (ret ()) ext_ref (Some demo_config) (\<lambda>_. demo_ledger) demo_watcher demo_start = Some (r, s')"
    by (auto simp: sync_loop_def)
  have "\<forall>s. snd (ret () s) = s" by (simp add: ret_def)
  from threads_take_steps [OF demo.audit_system_axioms sys_init_inv [OF demo_sys_init] this, of "\<lambda>_. demo_ledger"
      demo_watcher "\<lambda>_. demo_contents" "\<lambda>_. None" demo_safe demo_config] demo_serves run
  show ?thesis by auto
qed

text \<open>A platform whose ledger cannot be read and whose service has one page with one transaction for the safe.\<close>

definition demo_platform :: platform where
  "demo_platform = \<lparr>pf_path_into_string = Ok,
     pf_ledger_open = (\<lambda>_. Ok (\<lambda>_ _. \<lparr>ldb_num_blocks = Err ''lost'', ldb_get_block_data = (\<lambda>_. Err ''not found'')\<rparr>)),
     pf_watcher_open = (\<lambda>_. Err ''no watcher''), pf_pool_build = (\<lambda>_ _. ret ()), pf_pool_get = ret (),
     pf_run_migrations = ret (), pf_api_server = (\<lambda>_. Ok ()), pf_hostname = Ok (Some ''host''),
     pf_admin_server = (\<lambda>_ _. Ok ()), pf_json_to_string = (\<lambda>_. ''text''),
     pf_decode_value = demo_decode_tx demo_transfer, pf_url_path = (\<lambda>_. ''/''),
     pf_url_join = (\<lambda>base path. Ok (base @ path)), pf_client_build = (\<lambda>_. Ok ()),
     pf_http_get = (\<lambda>_ _ _ _. Ok (demo_page None)), pf_panic_exits = False,
     pf_ipv4_from_str = (\<lambda>_. Ok 0), pf_launch = (\<lambda>_ _. Ok ())\<rparr>"

lemma demo_open_db: "open_db demo_platform ''db'' initial_state = (Ok (), demo_start)"
proof -
  have "ensure_exists initial_state = (Ok (), demo_start)"
    by (subst ensure_exists_new) (simp_all add: initial_state_def empty_database_def demo_start_def)
  then show ?thesis
    by (simp add: open_db_def new_from_path_def demo_platform_def expect_res_def lift_res_def expect_def bnd_def ret_apply)
qed

definition demo_handle :: "bool \<Rightarrow> gnosis_sync_thread" where
  "demo_handle stop = \<lparr>gth_stop_requested = stop, gth_join_handle = Some 0\<rparr>"

lemma demo_start_scan:
  "start_scan demo_platform ''ledger'' None ''db'' None None (Some demo_config) initial_state
     = (Ok (\<lambda>_ _. \<lparr>ldb_num_blocks = Err ''lost'', ldb_get_block_data = (\<lambda>_. Err ''not found'')\<rparr>, no_watcher,
         [demo_handle False]), demo_start)"
  using demo_open_db
  by (simp add: start_scan_def start_threads_run configured_safes_def lift_res_def demo_platform_def [abs_def]
      expect_res_def open_watcher_def ret_apply demo_handle_def)


definition demo_sync :: gnosis_sync where
  "demo_sync = \<lparr>gs_fetcher = \<lparr>gsf_base_url = ''http://localhost''\<rparr>, gs_audited_safe = demo_safe\<rparr>"

definition demo_scan_step :: "nat option \<Rightarrow> scan_system \<Rightarrow> scan_system" where
  "demo_scan_step = scan_command_step demo_platform ext_ref (Some demo_config)
     (\<lambda>_ _. \<lparr>ldb_num_blocks = Err ''lost'', ldb_get_block_data = (\<lambda>_. Err ''not found'')\<rparr>) no_watcher 1"

lemma demo_sync_new: "gnosis_sync_new (\<lambda>_. ''/'') join (Ok ()) demo_safe = Ok demo_sync"
  by (simp add: gnosis_sync_new_def fetcher_new_def ends_with_slash_def demo_safe_def demo_sync_def)

lemma demo_fetch: "get_all_transaction_data (\<lambda>base path. Ok (base @ path)) (\<lambda>_ _. Ok (demo_page None)) fetcher a
    = Some (Ok [demo_raw])"
  by (simp add: get_all_transaction_data_def)
    (subst fetch_loop.simps, simp add: get_all_transaction_data_from_url_def demo_page_def res_ok_def Let_def
      raw_from_value_def)

lemma demo_processed:
  "\<exists>s1. process_transactions (ret ()) ext_ref (\<lambda>_. ''text'') (demo_decode_tx demo_transfer) demo_safe [demo_raw]
     demo_start = (Ok (), s1) \<and> t_gnosis_safe_deposits (st_db s1) = [demo_deposit]"
  using demo_process by (auto simp: process_transactions_Cons expect_def conn_transaction_def bnd_def ret_apply)

lemmas demo_scan_defs = demo_scan_step_def scan_command_step_def scan_step_def main_step_def safe_thread_step_def
  demo_platform_def configured_safes_def demo_handle_def demo_sync_new demo_fetch ret_apply

text \<open>The safe's thread starts, fetches and stores the deposit; the main thread fails to read the ledger and
  unwinds; the thread sees the flag after its sleep and ends; it is joined and the process ends.\<close>

definition demo_schedule :: "nat \<Rightarrow> nat option" where
  "demo_schedule t = (if t \<in> {4, 5, 9, 10} then None else Some 0)"

abbreviation demo_system :: "main_state \<Rightarrow> bool \<Rightarrow> thread_state \<Rightarrow> state \<Rightarrow> scan_system" where
  "demo_system m stop l s \<equiv> \<lparr>ss_main = m, ss_handles = [demo_handle stop], ss_threads = [l], ss_state = s\<rparr>"

lemma demo_thread_part:
  "demo_scan_step (Some 0) (demo_system (MainSync 0 0) False ThreadStarting s)
     = demo_system (MainSync 0 0) False (ThreadPolling demo_sync 0) s"
  "demo_scan_step (Some 0) (demo_system (MainSync 0 0) False (ThreadPolling demo_sync 0) s)
     = demo_system (MainSync 0 0) False (ThreadFetching demo_sync 0) s"
  "demo_scan_step (Some 0) (demo_system (MainSync 0 0) False (ThreadFetching demo_sync 0) s)
     = demo_system (MainSync 0 0) False (ThreadProcessing demo_sync 0 [demo_raw]) s"
  by (simp_all add: demo_scan_defs)

lemma demo_main_part:
  "demo_scan_step None (demo_system (MainSync 0 0) False (ThreadProcessing demo_sync 0 []) s)
     = demo_system (MainUnwind ''sync_loop failed'' 0) False (ThreadProcessing demo_sync 0 []) s"
  "demo_scan_step None (demo_system (MainUnwind ''sync_loop failed'' 0) False (ThreadProcessing demo_sync 0 []) s)
     = demo_system (MainUnwind ''sync_loop failed'' 0) True (ThreadProcessing demo_sync 0 []) s"
  by (simp_all add: demo_scan_defs sync_plan_def lift_res_def expect_def panicked_def unwind_step_def bnd_def)


lemma demo_stop_part:
  "demo_scan_step (Some 0) (demo_system (MainUnwind p 0) True (ThreadProcessing demo_sync 0 []) s)
     = demo_system (MainUnwind p 0) True (ThreadSleeping demo_sync 0) s"
  "demo_scan_step (Some 0) (demo_system (MainUnwind p 0) True (ThreadSleeping demo_sync 0) s)
     = demo_system (MainUnwind p 0) True (ThreadPolling demo_sync 1) (sleep 1 s)"
  "demo_scan_step (Some 0) (demo_system (MainUnwind p 0) True (ThreadPolling demo_sync 1) s)
     = demo_system (MainUnwind p 0) True (ThreadEnded (Ok ())) s"
  by (simp_all add: demo_scan_defs)

lemma demo_exit_part:
  "\<exists>c'. demo_scan_step None (demo_scan_step None (demo_system (MainUnwind p 0) True (ThreadEnded (Ok ())) s)) = c'
     \<and> ss_main c' = MainExit p \<and> ss_state c' = s"
  by (simp add: demo_scan_defs unwind_step_def gnosis_sync_thread_drop_def gnosis_sync_thread_stop_def Let_def)

lemma demo_scan_run:
  obtains s1 where "t_gnosis_safe_deposits (st_db s1) = [demo_deposit]"
    and "ss_state (scan_run demo_scan_step demo_schedule 4 (scan_started [demo_handle False] demo_start)) = s1"
    and "ss_main (scan_run demo_scan_step demo_schedule 11 (scan_started [demo_handle False] demo_start))
      = MainExit ''sync_loop failed''"
    and "ss_state (scan_run demo_scan_step demo_schedule 11 (scan_started [demo_handle False] demo_start)) = sleep 1 s1"
proof -
  obtain s1 where p: "process_transactions (ret ()) ext_ref (\<lambda>_. ''text'') (demo_decode_tx demo_transfer) demo_safe
      [demo_raw] demo_start = (Ok (), s1)" and s1: "t_gnosis_safe_deposits (st_db s1) = [demo_deposit]"
    using demo_processed by blast
  have "demo_scan_step (Some 0) (demo_system (MainSync 0 0) False (ThreadProcessing demo_sync 0 [demo_raw]) demo_start)
      = demo_system (MainSync 0 0) False (ThreadProcessing demo_sync 0 []) s1"
    using p by (simp add: demo_scan_defs) (simp add: demo_sync_def ret_apply)
  then have four: "scan_run demo_scan_step demo_schedule 4 (scan_started [demo_handle False] demo_start)
      = demo_system (MainSync 0 0) False (ThreadProcessing demo_sync 0 []) s1"
    by (simp add: eval_nat_numeral scan_started_def demo_schedule_def demo_thread_part [unfolded One_nat_def])
  have "scan_run demo_scan_step demo_schedule 9 (scan_started [demo_handle False] demo_start)
      = demo_system (MainUnwind ''sync_loop failed'' 0) True (ThreadEnded (Ok ())) (sleep 1 s1)"
    using four
    by (simp add: numeral_eq_Suc demo_schedule_def demo_main_part demo_stop_part [unfolded One_nat_def] del: scan_run.simps(1))
  with four s1 demo_exit_part that show ?thesis
    by (simp add: numeral_eq_Suc demo_schedule_def)
qed


lemma demo_platform_ok:
  "audit_system ext_ref (pf_decode_value demo_platform)" "platform_reads demo_platform"
  "restartable ext_ref demo_config (\<lambda>_. demo_contents) (\<lambda>_. None) initial_state"
  "pf_ledger_open demo_platform ''ledger'' = Ok l \<Longrightarrow> ledger_serves (l m n) w (\<lambda>_. demo_contents) (\<lambda>_. None)"
  using demo.audit_system_axioms
  by (auto simp: demo_platform_def platform_reads_def ret_def restartable_def initial_state_def ledger_serves_def)

text \<open>The command ends by its panic after its thread stored the deposit, and could be started again.\<close>

theorem scan_ledger_crash_safe_witness:
  "\<exists>s'. cmd_scan_ledger demo_platform demo_schedule ext_ref ''ledger'' None ''db'' 1 None None (Some demo_config)
       initial_state = Some (Panic ''sync_loop failed'', s')
     \<and> t_gnosis_safe_deposits (st_db s') = [demo_deposit]
     \<and> restartable ext_ref demo_config (\<lambda>_. demo_contents) (\<lambda>_. None) s'"
proof -
  obtain s1 where s1: "t_gnosis_safe_deposits (st_db s1) = [demo_deposit]"
    and exit: "ss_main (scan_run demo_scan_step demo_schedule (0 + 11) (scan_started [demo_handle False] demo_start))
      = MainExit ''sync_loop failed''"
    and last: "ss_state (scan_run demo_scan_step demo_schedule (0 + 11) (scan_started [demo_handle False] demo_start))
      = sleep 1 s1"
    using demo_scan_run by (metis add_0)
  have "scan_exec demo_scan_step demo_schedule 0 (scan_run demo_scan_step demo_schedule 0
      (scan_started [demo_handle False] demo_start)) = Some (Panic ''sync_loop failed'', sleep 1 s1)"
    unfolding last [symmetric]
    by (rule scan_exec_returns [OF exit]) (simp add: demo_scan_step_def scan_command_step_def scan_step_exit)
  then have run: "cmd_scan_ledger demo_platform demo_schedule ext_ref ''ledger'' None ''db'' 1 None None
      (Some demo_config) initial_state = Some (Panic ''sync_loop failed'', sleep 1 s1)"
    by (simp add: cmd_scan_ledger_def demo_start_scan demo_scan_step_def)
  have "restartable ext_ref demo_config (\<lambda>_. demo_contents) (\<lambda>_. None) (sleep 1 s1)"
    by (rule scan_ledger_crash_safe [OF demo_platform_ok(1,2) _ demo_platform_ok(3), THEN conjunct2, rule_format,
          OF _ _ run, THEN conjunct2]) (simp_all add: demo_platform_ok(4))
  with run s1 show ?thesis by simp
qed

theorem scan_command_reaches_witness:
  "\<exists>s. demo_step\<^sup>*\<^sup>* demo_start s \<and> t_gnosis_safe_deposits (st_db s) = [demo_deposit]
     \<and> s = scan_state_at demo_platform ext_ref (Some demo_config) 1
         (\<lambda>_ _. \<lparr>ldb_num_blocks = Err ''lost'', ldb_get_block_data = (\<lambda>_. Err ''not found'')\<rparr>) no_watcher
         [demo_handle False] demo_schedule 4 demo_start"
proof -
  have new: "st_db initial_state = empty_database" by (simp add: initial_state_def)
  have deposits: "t_gnosis_safe_deposits (st_db (ss_state (scan_run demo_scan_step demo_schedule 4
      (scan_started [demo_handle False] demo_start)))) = [demo_deposit]"
    using demo_scan_run by metis
  have "sys_step ext_ref demo_config (pf_json_to_string demo_platform) (pf_decode_value demo_platform)
      (\<lambda>_. demo_contents) (\<lambda>_. None) = demo_step"
    by (simp add: demo_step_def demo_platform_def)
  moreover have "(sys_step ext_ref demo_config (pf_json_to_string demo_platform) (pf_decode_value demo_platform)
      (\<lambda>_. demo_contents) (\<lambda>_. None))\<^sup>*\<^sup>* demo_start (scan_state_at demo_platform ext_ref (Some demo_config) 1
         (\<lambda>_ _. \<lparr>ldb_num_blocks = Err ''lost'', ldb_get_block_data = (\<lambda>_. Err ''not found'')\<rparr>) no_watcher
         [demo_handle False] demo_schedule 4 demo_start)"
    by (rule scan_command_reaches [OF demo_platform_ok(2) new _ demo_start_scan, THEN conjunct2])
      (simp add: demo_platform_ok(4))
  ultimately show ?thesis using deposits by (auto simp: scan_state_at_def demo_scan_step_def)
qed

end
