(* ===== verification/Spec2Isabelle.thy ===== *)
theory Spec2Isabelle
  imports Examples_Service
begin

text \<open>
  A verification of the MobileCoin reserve auditor (the Rust sources under \<open>src/\<close>).

  \<^bold>\<open>The program.\<close> The auditor follows two ledgers. From the MobileCoin ledger it reads blocks and records
  the mints and burns of wrapped tokens and the balance of each token; from the Gnosis safes that hold
  the reserves on Ethereum it records deposits and withdrawals. It then matches every deposit with the
  mint it funded (by a nonce derived from the Ethereum transaction hash) and every withdrawal with the
  burn that allowed it (by the public key of the burned output), counts whatever does not match, and
  shows the result over gRPC and HTTP. One thread scans the ledger (\<open>src/bin/main.rs\<close>), one thread per
  safe polls the Gnosis service (\<open>src/gnosis/sync_thread.rs\<close>); they share one SQLite database.

  \<^bold>\<open>How code is modelled.\<close> A fallible function returns a \<open>res\<close>: a value, an error of the crate's error
  type, or a panic (\<open>unwrap\<close>, \<open>expect\<close>, indexing). Code that uses the database is a computation over
  \<open>state\<close>, the record of the twelve tables, the Prometheus gauges and the time slept; \<open>bnd\<close> is the \<open>?\<close>
  operator. Unsigned integers are words and wrap as in a release build; the signed columns are
  integers reached by the casts \<open>as_i64\<close> and \<open>as_u64\<close>. Logging is left out. Code outside the repository
  (hexadecimal and protobuf codecs, signature verification, view keys, JSON decoding, the HTTP
  client, the pool, the ledger and watcher databases, SQLite's choice of row ids) is a parameter; what
  is relied on is stated as locales (\<open>hex_codec\<close>, \<open>msg_codec\<close>, \<open>rowid_alloc\<close>, \<open>ext_laws\<close>,
  \<open>proto_values\<close>, \<open>typed_decoder\<close>), and \<open>Ext_Ref\<close> gives an executable instance of all of them. Diesel's transactions
  are modelled by their documented meaning: an error or a panic restores the tables.

  \<^bold>\<open>Theories, in the order of the code.\<close>
  \<^item> \<open>Prelude\<close>: results, computations, a small Hoare calculus (\<open>keeps\<close>, \<open>valid\<close>), casts, decimal text.
  \<^item> \<open>Errors\<close> (\<open>src/error.rs\<close>, \<open>src/gnosis/error.rs\<close>), \<open>External\<close> (the parameters).
  \<^item> \<open>Eth_Data_Types\<close> (\<open>src/gnosis/eth_data_types.rs\<close>, \<open>src/db/models/sql_types.rs\<close>,
    \<open>src/gnosis/utils.rs\<close>, \<open>src/mint_tx_nonce.rs\<close>): parsing, printing and comparison, truncation of
    values at 128 bits as an exact floor, nonces as an injective encoding.
  \<^item> \<open>Gnosis_Config\<close> (\<open>src/gnosis/config.rs\<close>).
  \<^item> \<open>Schema\<close> (\<open>src/db/schema.rs\<close>, the row structs, the constraints of the migration): the locale
    \<open>sql_table\<close> gives the lemmas of an insert once, interpreted for each table with an id.
  \<^item> \<open>Transaction\<close> (\<open>src/db/transaction.rs\<close>): all or nothing, at most five attempts.
  \<^item> \<open>Counter_Table\<close>, \<open>Block_Tables\<close>, \<open>Mint_Config\<close>, \<open>Mint_Burn_Tables\<close>, \<open>Gnosis_Tables\<close>: the models
    under \<open>src/db/models\<close> with every query and insert.
  \<^item> \<open>Audit_Pairing\<close>, \<open>Audited_Mint\<close>, \<open>Audited_Burn\<close> (\<open>src/db/models/audited_mint.rs\<close>,
    \<open>audited_burn.rs\<close>): the four matching functions. The locale \<open>pairing\<close> holds what both sides share:
    links between two tables that stay one to one.
  \<^item> \<open>Sync_Block\<close> (\<open>src/db/mod.rs\<close>): the transaction that stores a block, refining an abstract account
    of balances, and the look-up of the mint configuration that authorizes a mint.
  \<^item> \<open>Gnosis_Sync\<close>, \<open>Fetcher\<close> (\<open>src/gnosis/sync.rs\<close>, \<open>api_data_types.rs\<close>, \<open>fetcher.rs\<close>,
    \<open>sync_thread.rs\<close>): parsing and storing safe transactions, paging, polling.
  \<^item> \<open>Invariants\<close>: the invariant \<open>db_ok\<close> of the whole database and its preservation by every write.
  \<^item> \<open>Main_Loop\<close> (\<open>src/bin/main.rs\<close>): \<open>sync_loop\<close> and the audit of a block.
  \<^item> \<open>System\<close>: the shared database as a transition system with one rule per kind of transaction; its
    invariant, and the refinement of an abstract audit in which matches are never undone.
  \<^item> \<open>Audit_Complete\<close>: no match is missed. The locale \<open>audit_side\<close> holds the argument for both sides of
    the audit; \<open>complete_audit\<close> lifts it to every reachable state.
  \<^item> \<open>Ledger_Tables\<close>: the mint and burn tables as a function of the ledger, and the outcome of the audit as a
    function of what was synced, whatever the schedule.
  \<^item> \<open>Accounting\<close>: totals of the tables against the balances and the counters.
  \<^item> \<open>No_Panic\<close>: the matching functions return, so the audit never rolls a block back.
  \<^item> \<open>Column_Types\<close>: a check of the model, that the integers of the \<open>BigInt\<close> columns stay in the range of
    \<open>i64\<close>; used by the theorems on served and stored data.
  \<^item> \<open>Stored_Rows\<close>: deposits and withdrawals survive their text columns and their messages; it relies on a
    decoder that parses addresses and hashes with \<open>from_str\<close> (\<open>typed_decoder\<close>).
  \<^item> \<open>Threads\<close>: the code of the threads takes only steps of that system, for a ledger that serves the same
    blocks throughout (\<open>ledger_serves\<close>).
  \<^item> \<open>Scan\<close>: the running scan command. The main thread (\<open>scan_loop_step\<close>) and each safe's thread
    (\<open>thread_step\<close>) step from one access of the database, the stop flag or the network to the next; \<open>scan_step\<close> lets one of them
    move, \<open>scan_run\<close> and \<open>scan_exec\<close> follow a schedule, and \<open>unwind_step\<close> stops and joins the threads when the
    main thread panics. Run alone, the steps are those of \<open>sync_loop\<close> and \<open>thread_entry_point\<close>.
  \<^item> \<open>Convert\<close> (\<open>src/convert\<close>), \<open>Grpc_Service\<close> (\<open>src/service.rs\<close>), \<open>Http_Service\<close>, \<open>Http_Server\<close>
    (\<open>src/http_api\<close>): messages, calls and routes; they only read, and their lists are complete.
  \<^item> \<open>Served_Data\<close>: what the gRPC and HTTP services report of a running system, in terms of the ledger.
  \<^item> \<open>Commands\<close> (\<open>src/bin/main.rs\<close>, \<open>src/db/conn.rs\<close>): the commands and connection options.
    The scan command opens its databases, starts its threads and runs them by \<open>Scan\<close>; at every moment of
    every schedule its state is reachable in \<open>System\<close> and its database one it can be started on again.
  \<^item> \<open>Examples\<close>, \<open>Examples_Service\<close>: a concrete scenario in which the hypotheses of the properties hold.

  \<^bold>\<open>What is shown.\<close> In every reachable state, however the transactions of the threads interleave:
  \<^item> matches are one to one and between objects that agree in key, token and amount, and are never undone
    (\<open>System\<close>, for the code of the threads \<open>Threads\<close>, for the whole command \<open>Commands\<close>); no pair that agrees is missed, given that no two safes
    have the same address and, for withdrawals, that the output key is named once (\<open>Audit_Complete\<close>);
  \<^item> the blocks stored are a prefix of the ledger, their balances are those recomputed from it (\<open>System\<close>),
    and the mint and burn tables list its mints and burns (\<open>Ledger_Tables\<close>); so what is matched depends on
    what was synced and not on the schedule;
  \<^item> minted totals, burned totals, balances and counters agree (\<open>Accounting\<close>), the services show them
    (\<open>Served_Data\<close>), and what is stored can be read back (\<open>Stored_Rows\<close>);
  \<^item> the matching functions return, so the audit never keeps a block from being stored (\<open>No_Panic\<close>).

  Of the single operations: matching does what it promises from either side and counts every failure once.
  Storing a block, processing a safe transaction and scanning are atomic and can be repeated after a
  failure. The loops over the ledger and over retries end. Values, nonces and messages round trip. The
  properties also record where the code does something else than it means to: transfers dropped after an
  unknown token, panics on plain ether transfers, an unchecked number of transfers, limits that ignore mints
  of the same block, a burn that is compared with the first withdrawal of its key only, a request that fails
  for mints without configuration, and a fetch that may not end.

  \<^bold>\<open>Loops and bounds.\<close> Loops over lists and the retry loop are structural recursion. The loops that may
  run forever (\<open>loop_from\<close>, \<open>fetch_loop\<close>, \<open>poll_loop\<close>, \<open>scan_exec\<close>) are partial functions into
  \<open>option\<close>, with not returning as \<open>None\<close>; no fuel is used. Block counts are assumed below \<open>2 ^ 63\<close>, the
  range of the signed column; amounts and balances are unrestricted 64-bit words except where a
  property says that its sums fit.

  \<^bold>\<open>Not modelled.\<close> Command-line parsing by clap, logging, the TypeScript front end, generated protobuf
  code, gRPC and Rocket themselves, JSON and TOML parsing (parameters), SQLite's storage, locking
  and busy time-outs (transactions are exclusive, as the code requests), and test code. Row order in
  queries without \<open>ORDER BY\<close> is taken to be insertion order. The iteration order of the hash maps of
  balances is that of an association list; no property depends on it.
\<close>

end
